(* ===== verification/Go_Base.thy ===== *)
theory Go_Base
  imports Complex_Main
    "HOL-Library.Word"
    "HOL-Library.Signed_Division"
    "HOL-Library.Multiset"
    "HOL-Library.Monad_Syntax"
begin

text \<open>
  The shared vocabulary of the development: Go's 64-bit \<^verbatim>\<open>int\<close> arithmetic, the
  decimal rendering that \<^verbatim>\<open>fmt.Sprintf\<close> gives for \<^verbatim>\<open>%d\<close>, pointers,
  run-time panics, and the generic lemmas on lists and sums that the components share.

  \<^item> A Go \<^verbatim>\<open>int\<close> is a HOL \<^typ>\<open>int\<close> that every arithmetic operation brings back
    into 64 bits with \<open>i64\<close>; \<open>in64\<close> says that a number needs no wrap-around.
  \<^item> A computation that may panic (integer division by zero, an index out of range) has an
    \<open>option\<close> result, and \<^term>\<open>None\<close> is the panic.
  \<^item> A pointer to a process object is an \<open>addr\<close>, and \<^verbatim>\<open>nil\<close> is the \<^term>\<open>None\<close> of
    \<open>addr option\<close>.
\<close>

named_theorems go_arith \<open>facts that discharge 64-bit wrap-around\<close>
named_theorems frame \<open>what an operation leaves unchanged\<close>

type_synonym addr = nat

section \<open>64-bit signed integers\<close>

definition i64 :: "int \<Rightarrow> int" where
  "i64 x = (x + 2 ^ 63) mod 2 ^ 64 - 2 ^ 63"

abbreviation MaxInt64 :: int where
  "MaxInt64 \<equiv> 9223372036854775807"

abbreviation MinInt64 :: int where
  "MinInt64 \<equiv> - 9223372036854775808"

definition in64 :: "int \<Rightarrow> bool" where
  "in64 x \<longleftrightarrow> MinInt64 \<le> x \<and> x \<le> MaxInt64"

text \<open>Go's integer division truncates towards zero and panics on a zero divisor.\<close>

definition go_div :: "int \<Rightarrow> int \<Rightarrow> int option" where
  "go_div a b = (if b = 0 then None else Some (i64 (a sdiv b)))"

lemma i64_id [go_arith]: "in64 x \<Longrightarrow> i64 x = x"
  by (simp add: i64_def in64_def)

lemma in64_i64 [simp]: "in64 (i64 x)"
proof -
  have "0 \<le> (x + 2 ^ 63) mod 2 ^ 64" and "(x + 2 ^ 63) mod 2 ^ 64 < 2 ^ 64"
    by simp_all
  then show ?thesis unfolding i64_def in64_def by simp
qed

lemma i64_i64 [simp]: "i64 (i64 x) = i64 x"
  by (rule i64_id) simp

lemma i64_add_left: "i64 (i64 a + b) = i64 (a + b)"
proof -
  have "(i64 a + b + 2 ^ 63) mod 2 ^ 64 = ((a + 2 ^ 63) mod 2 ^ 64 + b) mod 2 ^ 64"
    by (simp add: i64_def algebra_simps)
  also have "\<dots> = ((a + 2 ^ 63) + b) mod 2 ^ 64"
    by (rule mod_add_left_eq)
  also have "(a + 2 ^ 63) + b = a + b + (2 ^ 63 :: int)" by simp
  finally show ?thesis
    unfolding i64_def [of "i64 a + b"] i64_def [of "a + b"] by (rule arg_cong)
qed

lemma i64_0_1 [simp]: "i64 0 = 0" "i64 1 = 1"
  by (simp_all add: i64_def)

lemma i64_pred [go_arith]: "0 < x \<Longrightarrow> x \<le> MaxInt64 \<Longrightarrow> i64 (x - 1) = x - 1"
  by (rule i64_id) (simp add: in64_def)

lemma i64_succ [go_arith]: "0 \<le> x \<Longrightarrow> x < MaxInt64 \<Longrightarrow> i64 (x + 1) = x + 1"
  by (rule i64_id) (simp add: in64_def)

lemma i64_diff_nonneg [go_arith]:
  "0 \<le> x \<Longrightarrow> x \<le> MaxInt64 \<Longrightarrow> 0 \<le> y \<Longrightarrow> y \<le> MaxInt64 \<Longrightarrow> i64 (x - y) = x - y"
  by (rule i64_id) (simp add: in64_def)

lemma sdiv_nonneg [simp]: "0 \<le> (a::int) \<Longrightarrow> 0 \<le> b \<Longrightarrow> a sdiv b = a div b"
  by (cases "a = 0"; cases "b = 0") (simp_all add: signed_divide_int_def)

lemma go_div_nonneg [go_arith]:
  assumes "0 \<le> a" "a \<le> MaxInt64" "0 < b"
  shows "go_div a b = Some (a div b)"
proof -
  have "a div b \<le> a" using assms zdiv_mono2 [of a 1 b] by simp
  moreover have "0 \<le> a div b" using assms by (simp add: pos_imp_zdiv_nonneg_iff)
  ultimately have "in64 (a div b)" using assms by (simp add: in64_def)
  then show ?thesis using assms by (simp add: go_div_def i64_id)
qed

section \<open>Decimal rendering\<close>

text \<open>\<^verbatim>\<open>%d\<close> of a Go \<^verbatim>\<open>int\<close>: the decimal digits, with a minus sign for a negative number.\<close>

fun nat_digits :: "nat \<Rightarrow> string" where
  "nat_digits n =
     (if n < 10 then [char_of (48 + n)] else nat_digits (n div 10) @ [char_of (48 + n mod 10)])"

declare nat_digits.simps [simp del]

definition itoa :: "int \<Rightarrow> string" where
  "itoa i = (if i < 0 then ''-'' @ nat_digits (nat (- i)) else nat_digits (nat i))"

text \<open>\<^verbatim>\<open>fmt.Sprintf\<close> of a format with one \<^verbatim>\<open>%d\<close>: the text before it, the number, the text after it.\<close>

definition sprintf_d :: "string \<Rightarrow> int \<Rightarrow> string \<Rightarrow> string" where
  "sprintf_d before n after = before @ itoa n @ after"

section \<open>Lists, sums and options\<close>

lemma sum_fun_upd:
  assumes "finite A" "a \<in> A"
  shows "(\<Sum>x\<in>A. f ((h(a := v)) x)) = (\<Sum>x\<in>A. f (h x)) - f (h a) + (f v :: int)"
proof -
  have "(\<Sum>x\<in>A. f ((h(a := v)) x)) = f v + (\<Sum>x\<in>A - {a}. f ((h(a := v)) x))"
    using assms by (simp add: sum.remove)
  also have "(\<Sum>x\<in>A - {a}. f ((h(a := v)) x)) = (\<Sum>x\<in>A - {a}. f (h x))"
    by (rule sum.cong) auto
  also have "\<dots> = (\<Sum>x\<in>A. f (h x)) - f (h a)"
    using assms by (simp add: sum.remove)
  finally show ?thesis by simp
qed

lemma set_remove1_distinct [simp]: "distinct xs \<Longrightarrow> set (remove1 a xs) = set xs - {a}"
  by (rule set_remove1_eq)

end
