(* ===== verification/Float64.thy ===== *)
theory Float64
  imports Go_Base "HOL-Library.Log_Nat"
begin

text \<open>
  Go's \<^verbatim>\<open>float64\<close> (IEEE 754 binary64) on the values the program computes with: finite
  numbers in the normal range. A double is the rational number it denotes, and every
  operation computes the exact result and rounds it to 53 significant bits, to nearest with
  ties to even (\<open>fround\<close>). The program only converts 64-bit integers, multiplies by small
  constants and divides by positive integers, so no result overflows, underflows or is a NaN.
  The lemmas show that rounding is monotone, exact on integers of up to 53 bits and off by at
  most one part in \<open>2 ^ 53\<close>.
\<close>

section \<open>Rounding to 53 bits\<close>

definition flog2 :: "rat \<Rightarrow> int" where
  "flog2 x = (let (p, q) = quotient_of x; e = bitlen p - bitlen q
              in if 2 powi e \<le> x then e else e - 1)"

definition half_even :: "rat \<Rightarrow> int" where
  "half_even x =
     (let f = \<lfloor>x\<rfloor>; r = x - of_int f
      in if r < 1 / 2 then f else if 1 / 2 < r then f + 1 else if even f then f else f + 1)"

definition fround_pos :: "rat \<Rightarrow> rat" where
  "fround_pos x = (let e = flog2 x - 52 in of_int (half_even (x / 2 powi e)) * 2 powi e)"

definition fround :: "rat \<Rightarrow> rat" where
  "fround x = (if x = 0 then 0 else if 0 < x then fround_pos x else - fround_pos (- x))"

definition float64 :: "int \<Rightarrow> rat" where
  "float64 n = fround (of_int n)"

definition fmul :: "rat \<Rightarrow> rat \<Rightarrow> rat" where
  "fmul x y = fround (x * y)"

definition fdiv :: "rat \<Rightarrow> rat \<Rightarrow> rat" where
  "fdiv x y = fround (x / y)"

text \<open>The conversion \<^verbatim>\<open>int(f)\<close> discards the fraction.\<close>

definition trunc_int :: "rat \<Rightarrow> int" where
  "trunc_int x = (if x < 0 then - \<lfloor>- x\<rfloor> else \<lfloor>x\<rfloor>)"

section \<open>The binary exponent\<close>

lemma bitlen_powi:
  assumes "0 < n"
  shows "(2::rat) powi (bitlen n - 1) \<le> of_int n" and "of_int n < (2::rat) powi (bitlen n)"
proof -
  have b: "2 ^ nat (bitlen n - 1) \<le> n \<and> n < 2 ^ nat (bitlen n)"
    using assms by (rule bitlen_bounds)
  have pos: "0 < bitlen n" using assms bitlen_eq_zero_iff [of n] bitlen_nonneg [of n] by linarith
  have "(2::rat) powi (bitlen n - 1) = of_int (2 ^ nat (bitlen n - 1))"
    using pos by (simp add: power_int_def)
  then show "(2::rat) powi (bitlen n - 1) \<le> of_int n"
    using b by (metis of_int_le_iff)
  have "(2::rat) powi (bitlen n) = of_int (2 ^ nat (bitlen n))"
    using pos by (simp add: power_int_def)
  then show "of_int n < (2::rat) powi (bitlen n)"
    using b by (metis of_int_less_iff)
qed

lemma flog2_bounds:
  assumes "0 < x"
  shows "2 powi (flog2 x) \<le> x" and "x < 2 powi (flog2 x + 1)"
proof -
  obtain p q where pq: "quotient_of x = (p, q)" by fastforce
  then have x: "x = of_int p / of_int q" and q: "0 < q"
    by (simp_all add: quotient_of_div quotient_of_denom_pos)
  have p: "0 < p" using assms x q by (simp add: zero_less_divide_iff)
  let ?e = "bitlen p - bitlen q"
  have "2 powi (bitlen p - 1) / 2 powi (bitlen q) \<le> x"
    unfolding x using bitlen_powi [OF p] bitlen_powi [OF q] p q
    by (intro frac_le) auto
  then have lo: "2 powi (?e - 1) \<le> x"
    by (simp add: power_int_diff power_int_add algebra_simps)
  have "x < 2 powi (bitlen p) / 2 powi (bitlen q - 1)"
    unfolding x using bitlen_powi [OF p] bitlen_powi [OF q] p q
    by (intro frac_less) auto
  also have "\<dots> = 2 powi (?e + 1)" by (simp add: power_int_diff power_int_add)
  finally have hi: "x < 2 powi (?e + 1)" .
  show "2 powi (flog2 x) \<le> x" using lo by (simp add: flog2_def pq Let_def)
  show "x < 2 powi (flog2 x + 1)" using hi by (simp add: flog2_def pq Let_def not_le)
qed

lemma flog2_mono:
  assumes "0 < x" "x \<le> y"
  shows "flog2 x \<le> flog2 y"
proof (rule ccontr)
  assume "\<not> ?thesis"
  then have "(2::rat) powi (flog2 y + 1) \<le> 2 powi flog2 x" by (simp add: power_int_increasing)
  then show False using flog2_bounds [of x] flog2_bounds [of y] assms by linarith
qed

section \<open>Rounding to an integer\<close>

lemma half_even_of_int [simp]: "half_even (of_int n) = n"
  by (simp add: half_even_def)

lemma half_even_error: "\<bar>of_int (half_even x) - x\<bar> \<le> 1 / 2"
proof -
  have "0 \<le> x - of_int \<lfloor>x\<rfloor>" and "x - of_int \<lfloor>x\<rfloor> < 1" by linarith+
  then show ?thesis by (auto simp: half_even_def Let_def)
qed

lemma half_even_mono:
  assumes "x \<le> y"
  shows "half_even x \<le> half_even y"
proof (cases "\<lfloor>x\<rfloor> = \<lfloor>y\<rfloor>")
  case True
  then show ?thesis using assms by (auto simp: half_even_def Let_def)
next
  case False
  then have "\<lfloor>x\<rfloor> + 1 \<le> \<lfloor>y\<rfloor>" using floor_mono [OF assms] by linarith
  moreover have "half_even x \<le> \<lfloor>x\<rfloor> + 1" and "\<lfloor>y\<rfloor> \<le> half_even y"
    by (simp_all add: half_even_def Let_def)
  ultimately show ?thesis by linarith
qed

section \<open>Rounding to a double\<close>

lemma mantissa_bounds:
  assumes "0 < x"
  shows "of_int (2 ^ 52) \<le> x / 2 powi (flog2 x - 52)" and "x / 2 powi (flog2 x - 52) \<le> of_int (2 ^ 53)"
  using flog2_bounds [OF assms]
  by (simp_all add: power_int_diff power_int_add field_simps)

lemma fround_pos_bounds:
  assumes "0 < x"
  shows "2 powi (flog2 x) \<le> fround_pos x" and "fround_pos x \<le> 2 powi (flog2 x + 1)"
proof -
  let ?m = "half_even (x / 2 powi (flog2 x - 52))"
  have "2 ^ 52 \<le> ?m" and "?m \<le> 2 ^ 53"
    using half_even_mono [OF mantissa_bounds(1) [OF assms]] half_even_mono [OF mantissa_bounds(2) [OF assms]]
    by (simp_all only: half_even_of_int)
  then have "(of_int (2 ^ 52) :: rat) \<le> of_int ?m" and "of_int ?m \<le> (of_int (2 ^ 53) :: rat)"
    by (simp_all only: of_int_le_iff)
  then show "2 powi (flog2 x) \<le> fround_pos x" and "fround_pos x \<le> 2 powi (flog2 x + 1)"
    by (simp_all add: fround_pos_def Let_def power_int_diff power_int_add field_simps)
qed

lemma fround_pos_mono:
  assumes "0 < x" "x \<le> y"
  shows "fround_pos x \<le> fround_pos y"
proof (cases "flog2 x = flog2 y")
  case True
  have "half_even (x / 2 powi (flog2 x - 52)) \<le> half_even (y / 2 powi (flog2 x - 52))"
    using assms by (intro half_even_mono divide_right_mono) auto
  then show ?thesis unfolding fround_pos_def Let_def True [symmetric]
    by (intro mult_right_mono) auto
next
  case False
  then have "flog2 x + 1 \<le> flog2 y" using flog2_mono [OF assms] by linarith
  then have "(2::rat) powi (flog2 x + 1) \<le> 2 powi flog2 y" by (simp add: power_int_increasing)
  then show ?thesis using fround_pos_bounds [of x] fround_pos_bounds [of y] assms by linarith
qed

lemma fround_pos_nonneg: "0 < x \<Longrightarrow> 0 \<le> fround_pos x"
  using fround_pos_bounds(1) [of x] by (meson order_trans zero_le_power_int zero_le_numeral)

lemma fround_mono: "x \<le> y \<Longrightarrow> fround x \<le> fround y"
  using fround_pos_mono [of x y] fround_pos_mono [of "- y" "- x"]
    fround_pos_nonneg [of y] fround_pos_nonneg [of "- x"]
  by (auto simp: fround_def not_less)

lemma fround_0 [simp]: "fround 0 = 0"
  by (simp add: fround_def)

lemma fround_nonneg: "0 \<le> x \<Longrightarrow> 0 \<le> fround x"
  using fround_mono [of 0 x] by simp

text \<open>The relative error of one rounding is at most \<open>2 ^ -53\<close>.\<close>

lemma fround_error:
  assumes "0 \<le> x"
  shows "\<bar>fround x - x\<bar> \<le> x / 2 ^ 53"
proof (cases "x = 0")
  case False
  with assms have x: "0 < x" by simp
  let ?u = "(2::rat) powi (flog2 x - 52)"
  have u: "0 < ?u" by simp
  have "\<bar>of_int (half_even (x / ?u)) - x / ?u\<bar> * ?u \<le> 1 / 2 * ?u"
    using half_even_error u by (intro mult_right_mono) auto
  moreover have "\<bar>of_int (half_even (x / ?u)) - x / ?u\<bar> * ?u = \<bar>fround x - x\<bar>"
  proof -
    have "\<bar>of_int (half_even (x / ?u)) - x / ?u\<bar> * ?u = \<bar>(of_int (half_even (x / ?u)) - x / ?u) * ?u\<bar>"
      using u by (simp add: abs_mult)
    then show ?thesis using x u by (simp add: fround_def fround_pos_def Let_def left_diff_distrib)
  qed
  moreover have "1 / 2 * ?u \<le> x / 2 ^ 53"
    using flog2_bounds(1) [OF x] by (simp add: power_int_diff field_simps)
  ultimately show ?thesis by linarith
qed simp

lemma fround_pos_of_int:
  assumes "0 < n" "n < 2 ^ 53"
  shows "fround_pos (of_int n) = of_int n"
proof -
  let ?x = "rat_of_int n" and ?e = "flog2 (rat_of_int n) - 52"
  have "rat_of_int n < of_int (2 ^ 53)" using assms(2) by (simp only: of_int_less_iff)
  then have "(2::rat) powi (flog2 ?x) < 2 powi 53" using flog2_bounds(1) [of ?x] assms(1) by simp
  then have "?e \<le> 0" using power_int_increasing [of 53 "flog2 ?x" "2::rat"] by fastforce
  then have "?x / 2 powi ?e = of_int (n * 2 ^ nat (- ?e))"
    by (simp add: power_int_def field_simps)
  then have "half_even (?x / 2 powi ?e) = n * 2 ^ nat (- ?e)" by (simp only: half_even_of_int)
  then show ?thesis using \<open>?e \<le> 0\<close>
    by (simp add: fround_pos_def Let_def power_int_def field_simps)
qed

lemma float64_exact: "\<bar>n\<bar> < 2 ^ 53 \<Longrightarrow> float64 n = of_int n"
  using fround_pos_of_int [of n] fround_pos_of_int [of "- n"]
  by (auto simp: float64_def fround_def)

lemma float64_mono: "m \<le> n \<Longrightarrow> float64 m \<le> float64 n"
  unfolding float64_def by (rule fround_mono) simp

lemma float64_pos: "0 < n \<Longrightarrow> 0 < float64 n"
  using float64_mono [of 1 n] float64_exact [of 1] by simp

section \<open>Rounding a concrete product\<close>

text \<open>
  A product of mantissas \<open>P\<close>, scaled by \<open>2 ^ -K\<close>, rounds to the mantissa \<open>m\<close> that is
  nearest to \<open>P / 2 ^ s\<close>, where \<open>s\<close> is the number of bits \<open>P\<close> has beyond 53: integer
  conditions that the simplifier decides.
\<close>

lemma half_even_unique:
  assumes "\<bar>x - of_int m\<bar> < 1 / 2"
  shows "half_even x = m"
proof -
  have "\<bar>rat_of_int (half_even x) - of_int m\<bar> < 1" using assms half_even_error [of x] by linarith
  then have "\<bar>rat_of_int (half_even x - m)\<bar> < 1" by simp
  then show ?thesis by linarith
qed

lemma flog2_unique:
  assumes "2 powi e \<le> x" "x < 2 powi (e + 1)"
  shows "flog2 x = e"
proof -
  have x: "0 < x" using assms(1) by (rule less_le_trans [rotated]) simp
  have "(2::rat) powi flog2 x < 2 powi (e + 1)" and "(2::rat) powi e < 2 powi (flog2 x + 1)"
    using flog2_bounds [OF x] assms by linarith+
  then show ?thesis
    using power_int_increasing [of "e + 1" "flog2 x" "2::rat"]
      power_int_increasing [of "flog2 x + 1" e "2::rat"] by fastforce
qed

lemma fround_mantissa:
  assumes lo: "2 ^ (52 + s) \<le> P" and hi: "P < 2 ^ (53 + s)" and near: "2 * \<bar>P - m * 2 ^ s\<bar> < 2 ^ s"
  shows "fround (of_int P * 2 powi (- K)) = of_int m * 2 powi (int s - K)"
proof -
  let ?x = "rat_of_int P * 2 powi (- K)"
  have "rat_of_int (2 ^ (52 + s)) \<le> of_int P" and "of_int P < rat_of_int (2 ^ (53 + s))"
    using lo hi by (simp_all only: of_int_le_iff of_int_less_iff)
  then have P: "(2::rat) ^ (52 + s) \<le> of_int P" "of_int P < (2::rat) ^ (53 + s)" by simp_all
  have e: "flog2 ?x = 52 + int s - K"
    by (rule flog2_unique)
      (use P in \<open>simp_all add: power_int_add power_int_diff power_int_minus power_int_of_nat field_simps power_add\<close>)
  have "2 * P < (2 * m + 1) * 2 ^ s" and "(2 * m - 1) * 2 ^ s < 2 * P"
    using near by (auto simp: abs_if algebra_simps split: if_splits)
  then have "rat_of_int (2 * P) < of_int ((2 * m + 1) * 2 ^ s)"
    and "of_int ((2 * m - 1) * 2 ^ s) < rat_of_int (2 * P)"
    by (simp_all only: of_int_less_iff)
  then have "rat_of_int P / 2 ^ s - of_int m < 1 / 2" and "of_int m - rat_of_int P / 2 ^ s < 1 / 2"
    by (simp_all add: field_simps)
  then have "\<bar>rat_of_int P / 2 ^ s - of_int m\<bar> < 1 / 2" by linarith
  then have "half_even (rat_of_int P / 2 ^ s) = m" by (rule half_even_unique)
  moreover have "?x / 2 powi (flog2 ?x - 52) = rat_of_int P / 2 ^ s"
    unfolding e by (simp add: power_int_add power_int_diff power_int_minus power_int_of_nat field_simps)
  moreover have "0 < rat_of_int P" using P(1) by (rule less_le_trans [rotated]) simp
  then have "0 < ?x" by simp
  ultimately show ?thesis unfolding fround_def fround_pos_def by (auto simp: e)
qed

end
