(* ===== verification/Process_Model.thy ===== *)
theory Process_Model
  imports Float64
begin

text \<open>
  The package \<^verbatim>\<open>internal/process\<close>: the process control block, its I/O bursts, the event
  and Gantt records, and the operations on one process (construction, cloning, one slice of
  execution, nice values). A process object is a record; the pointer operations of the other
  packages read and write it through a heap from \<open>addr\<close> to \<open>process\<close>.
\<close>

section \<open>Data\<close>

datatype ProcessState = StateNew | StateReady | StateRunning | StateWaiting | StateTerminated

fun ProcessState_String :: "ProcessState \<Rightarrow> string" where
  "ProcessState_String StateNew = ''New''"
| "ProcessState_String StateReady = ''Ready''"
| "ProcessState_String StateRunning = ''Running''"
| "ProcessState_String StateWaiting = ''Waiting''"
| "ProcessState_String StateTerminated = ''Terminated''"

definition VRuntimeScale :: int where
  "VRuntimeScale = 2 ^ 20"

record IOBurst =
  AfterCPUTime :: int
  Duration :: int
  Completed :: bool

record process =
  PID :: int
  Name :: string
  ArrivalTime :: int
  BurstTime :: int
  RemainingTime :: int
  Priority :: int
  State :: ProcessState
  StartTime :: int
  CompletionTime :: int
  WaitingTime :: int
  TurnaroundTime :: int
  ResponseTime :: int
  LastExecuted :: int
  TimeQuantum :: int
  VRuntime :: int
  Nice :: int
  Weight :: int
  IOBursts :: "IOBurst list"
  CurrentIOIndex :: int
  IORemaining :: int
  Color :: string
  HasStarted :: bool

record ProcessEvent =
  ev_Time :: int
  ev_PID :: int
  ev_EventType :: string
  ev_Description :: string
  ev_State :: ProcessState

record GanttEntry =
  g_PID :: int
  g_Name :: string
  g_StartTime :: int
  g_EndTime :: int
  g_Color :: string

record SchedulingMetrics =
  m_TotalProcesses :: int
  m_CompletedProcesses :: int
  m_AverageTurnaroundTime :: rat
  m_AverageWaitingTime :: rat
  m_AverageResponseTime :: rat
  m_CPUUtilization :: rat
  m_Throughput :: rat
  m_ContextSwitches :: int
  m_TotalTime :: int
  m_Algorithm :: string
  m_Timestamp :: int

type_synonym heap = "addr \<Rightarrow> process"

section \<open>Operations\<close>

definition palette :: "string list" where
  "palette =
     [''#4A90E2'', ''#50C878'', ''#E74C3C'', ''#F39C12'', ''#9B59B6'',
      ''#1ABC9C'', ''#E67E22'', ''#3498DB'', ''#2ECC71'', ''#E91E63'',
      ''#00BCD4'', ''#FF5722'', ''#795548'', ''#607D8B'', ''#CDDC39'']"

definition generateColor :: "int \<Rightarrow> string" where
  "generateColor pid =
     (let idx = i64 (pid - 1); idx = (if idx < 0 then 0 else idx)
      in palette ! nat (idx smod int (length palette)))"

definition NewProcess :: "int \<Rightarrow> string \<Rightarrow> int \<Rightarrow> int \<Rightarrow> int \<Rightarrow> process" where
  "NewProcess pid name arrivalTime burstTime priority =
     \<lparr>PID = pid, Name = name, ArrivalTime = arrivalTime, BurstTime = burstTime,
      RemainingTime = burstTime, Priority = priority, State = StateNew, StartTime = -1,
      CompletionTime = 0, WaitingTime = 0, TurnaroundTime = 0, ResponseTime = 0,
      LastExecuted = 0, TimeQuantum = 0, VRuntime = 0, Nice = 0, Weight = 1024,
      IOBursts = [], CurrentIOIndex = 0, IORemaining = 0, Color = generateColor pid,
      HasStarted = False\<rparr>"

text \<open>
  \<^verbatim>\<open>Clone\<close> copies every field, and the I/O bursts into a slice of their own. As a value the
  copy is field by field what it was made from; that it is a different object is the fresh
  address that the caller stores it at.
\<close>

definition Clone :: "process \<Rightarrow> process" where
  "Clone p =
     (let ioBursts = map (\<lambda>b. b) (IOBursts p)
      in \<lparr>PID = PID p, Name = Name p, ArrivalTime = ArrivalTime p, BurstTime = BurstTime p,
          RemainingTime = RemainingTime p, Priority = Priority p, State = State p,
          StartTime = StartTime p, CompletionTime = CompletionTime p,
          WaitingTime = WaitingTime p, TurnaroundTime = TurnaroundTime p,
          ResponseTime = ResponseTime p, LastExecuted = LastExecuted p,
          TimeQuantum = TimeQuantum p, VRuntime = VRuntime p, Nice = Nice p,
          Weight = Weight p, IOBursts = ioBursts, CurrentIOIndex = CurrentIOIndex p,
          IORemaining = IORemaining p, Color = Color p, HasStarted = HasStarted p\<rparr>)"

text \<open>
  \<^verbatim>\<open>Execute\<close> mutates the process statement by statement; the virtual-runtime update divides by
  the weight and panics when the weight is zero.
\<close>

definition Execute :: "int \<Rightarrow> int \<Rightarrow> process \<Rightarrow> process option" where
  "Execute currentTime duration p = do {
     let p = (if State p \<noteq> StateRunning then p\<lparr>State := StateRunning\<rparr> else p);
     let p = (if \<not> HasStarted p
              then p\<lparr>HasStarted := True, StartTime := currentTime,
                     ResponseTime := i64 (currentTime - ArrivalTime p)\<rparr>
              else p);
     let p = p\<lparr>RemainingTime := i64 (RemainingTime p - duration),
               LastExecuted := i64 (currentTime + duration)\<rparr>;
     d \<leftarrow> go_div (i64 (duration * VRuntimeScale)) (Weight p);
     let p = p\<lparr>VRuntime := i64 (VRuntime p + d)\<rparr>;
     Some (if RemainingTime p \<le> 0
           then let p = p\<lparr>State := StateTerminated, CompletionTime := i64 (currentTime + duration)\<rparr>;
                    p = p\<lparr>TurnaroundTime := i64 (CompletionTime p - ArrivalTime p)\<rparr>;
                    p = p\<lparr>WaitingTime := i64 (TurnaroundTime p - BurstTime p)\<rparr>
                in p\<lparr>RemainingTime := 0\<rparr>
           else p)
   }"

definition IsComplete :: "process \<Rightarrow> bool" where
  "IsComplete p \<longleftrightarrow> State p = StateTerminated \<or> RemainingTime p \<le> 0"

text \<open>
  The weight of a nice value: \<^verbatim>\<open>abs(nice)\<close> multiplications in double precision, then
  truncation. The constant \<^verbatim>\<open>0.80\<close> is the double nearest to it; \<^verbatim>\<open>1.25\<close> is exact.
\<close>

definition abs_int :: "int \<Rightarrow> int" where
  "abs_int x = (if x < 0 then i64 (- x) else x)"

fun weight_loop :: "nat \<Rightarrow> int \<Rightarrow> rat \<Rightarrow> rat" where
  "weight_loop 0 nice weight = weight"
| "weight_loop (Suc n) nice weight =
     weight_loop n nice
       (if nice < 0 then fmul weight (fround (125 / 100)) else fmul weight (fround (80 / 100)))"

definition niceToWeight :: "int \<Rightarrow> int" where
  "niceToWeight nice =
     (let baseWeight = 1024
      in if nice = 0 then baseWeight
         else trunc_int (weight_loop (nat (abs_int nice)) nice (float64 baseWeight)))"

definition SetNice :: "int \<Rightarrow> process \<Rightarrow> process" where
  "SetNice nice p =
     (let nice = (if nice < -20 then -20 else if 19 < nice then 19 else nice)
      in p\<lparr>Nice := nice, Weight := niceToWeight nice\<rparr>)"

definition Process_String :: "process \<Rightarrow> string" where
  "Process_String p =
     ''P'' @ itoa (PID p) @ ''['' @ Name p @ ''] Arr:'' @ itoa (ArrivalTime p) @
     '' Burst:'' @ itoa (BurstTime p) @ '' Rem:'' @ itoa (RemainingTime p) @
     '' Pri:'' @ itoa (Priority p) @ '' State:'' @ ProcessState_String (State p)"

section \<open>One slice of execution\<close>

lemma Execute_panics_iff: "Execute t d p = None \<longleftrightarrow> Weight p = 0"
  by (simp add: Execute_def Let_def go_div_def)

lemma Execute_frame [frame]:
  assumes "Execute t d p = Some p'"
  shows "PID p' = PID p" "Name p' = Name p" "ArrivalTime p' = ArrivalTime p"
    "BurstTime p' = BurstTime p" "Priority p' = Priority p" "Nice p' = Nice p"
    "Weight p' = Weight p" "IOBursts p' = IOBursts p" "CurrentIOIndex p' = CurrentIOIndex p"
    "IORemaining p' = IORemaining p" "Color p' = Color p" "TimeQuantum p' = TimeQuantum p"
    "HasStarted p'" "LastExecuted p' = i64 (t + d)"
  using assms by (auto simp: Execute_def Let_def go_div_def split: if_splits)

text \<open>
  One time unit of a runnable process, without wrap-around or panic: the closed form that the
  engine's proofs use.
\<close>

lemma Execute_1:
  assumes w: "0 < Weight p" and r: "0 < RemainingTime p" "RemainingTime p \<le> MaxInt64"
  shows "Execute t 1 p =
    (let q = p\<lparr>State := StateRunning, HasStarted := True,
               StartTime := (if HasStarted p then StartTime p else t),
               ResponseTime := (if HasStarted p then ResponseTime p else i64 (t - ArrivalTime p)),
               RemainingTime := RemainingTime p - 1, LastExecuted := i64 (t + 1),
               VRuntime := i64 (VRuntime p + VRuntimeScale div Weight p)\<rparr>;
         tat = i64 (i64 (t + 1) - ArrivalTime p)
     in Some (if RemainingTime p = 1
              then q\<lparr>State := StateTerminated, CompletionTime := i64 (t + 1), TurnaroundTime := tat,
                     WaitingTime := i64 (tat - BurstTime p)\<rparr>
              else q))"
proof -
  have d: "go_div (i64 (1 * VRuntimeScale)) (Weight p) = Some (VRuntimeScale div Weight p)"
    using w by (simp add: VRuntimeScale_def i64_id in64_def go_div_nonneg)
  have r1: "i64 (RemainingTime p - 1) = RemainingTime p - 1"
    using r by (rule i64_pred)
  have r0: "RemainingTime p - 1 \<le> 0 \<longleftrightarrow> RemainingTime p = 1"
    using r by linarith
  show ?thesis
    using d r1 r0
    by (cases p; cases "HasStarted p"; cases "State p = StateRunning"; cases "RemainingTime p = 1")
      (simp_all add: Execute_def Let_def)
qed

section \<open>Weights\<close>

text \<open>
  The doubles that the loop of \<^verbatim>\<open>niceToWeight\<close> passes through, as pairs \<open>(m, k)\<close> for
  \<open>m * 2 ^ -k\<close>, and the integer conditions under which one multiplication leads from one
  pair to the next.
\<close>

definition dyadic :: "int \<times> nat \<Rightarrow> rat" where
  "dyadic d = of_int (fst d) * 2 powi (- int (snd d))"

fun fmul_step :: "int \<times> nat \<Rightarrow> int \<times> nat \<Rightarrow> int \<times> nat \<Rightarrow> bool" where
  "fmul_step (c, j) (m, k) (m', k') \<longleftrightarrow>
     (let s = k + j - k'; P = m * c
      in k' \<le> k + j \<and> 2 ^ (52 + s) \<le> P \<and> P < 2 ^ (53 + s) \<and> 2 * \<bar>P - m' * 2 ^ s\<bar> < 2 ^ s)"

lemma fmul_stepD:
  assumes "fmul_step c d d'"
  shows "fmul (dyadic d) (dyadic c) = dyadic d'"
proof -
  obtain cm j m k m' k' where [simp]: "c = (cm, j)" "d = (m, k)" "d' = (m', k')"
    by (cases c, cases d, cases d') auto
  let ?s = "k + j - k'"
  have "fround (of_int (m * cm) * 2 powi (- int (k + j))) = of_int m' * 2 powi (int ?s - int (k + j))"
    using assms by (intro fround_mantissa) (auto simp: Let_def)
  moreover have "int ?s - int (k + j) = - int k'" using assms by (simp add: Let_def)
  ultimately show ?thesis
    by (simp add: fmul_def dyadic_def power_int_diff power_int_minus divide_inverse ac_simps)
qed

definition down_table :: "(int \<times> nat) list" where
  "down_table =
     [(4503599627370496, 42), (7205759403792794, 43), (5764607523034236, 43),
      (4611686018427389, 43), (7378697629483823, 44), (5902958103587059, 44),
      (4722366482869647, 44), (7555786372591436, 45), (6044629098073149, 45),
      (4835703278458519, 45), (7737125245533631, 46), (6189700196426905, 46),
      (4951760157141524, 46), (7922816251426439, 47), (6338253001141152, 47),
      (5070602400912922, 47), (8112963841460676, 48), (6490371073168541, 48),
      (5192296858534833, 48), (8307674973655733, 49)]"

definition up_table :: "(int \<times> nat) list" where
  "up_table =
     [(4503599627370496, 42), (5629499534213120, 42), (7036874417766400, 42),
      (8796093022208000, 42), (5497558138880000, 41), (6871947673600000, 41),
      (8589934592000000, 41), (5368709120000000, 40), (6710886400000000, 40),
      (8388608000000000, 40), (5242880000000000, 39), (6553600000000000, 39),
      (8192000000000000, 39), (5120000000000000, 38), (6400000000000000, 38),
      (8000000000000000, 38), (5000000000000000, 37), (6250000000000000, 37),
      (7812500000000000, 37), (4882812500000000, 36), (6103515625000000, 36)]"

lemma down_table_steps: "list_all2 (fmul_step (7205759403792794, 53)) (butlast down_table) (tl down_table)"
  by code_simp

lemma up_table_steps: "list_all2 (fmul_step (5629499534213120, 52)) (butlast up_table) (tl up_table)"
  by code_simp

lemma table_step:
  assumes "list_all2 (fmul_step c) (butlast tbl) (tl tbl)" "Suc i < length tbl"
  shows "fmul (dyadic (tbl ! i)) (dyadic c) = dyadic (tbl ! Suc i)"
  using list_all2_nthD [OF assms(1), of i] assms(2)
  by (intro fmul_stepD) (simp add: nth_butlast nth_tl)

lemma weight_loop_table:
  assumes "list_all2 (fmul_step c) (butlast tbl) (tl tbl)"
    and "(if nice < 0 then fround (125 / 100) else fround (80 / 100)) = dyadic c"
  shows "i + n < length tbl \<Longrightarrow> weight_loop n nice (dyadic (tbl ! i)) = dyadic (tbl ! (i + n))"
proof (induction n arbitrary: i)
  case (Suc n)
  then have "weight_loop (Suc n) nice (dyadic (tbl ! i)) = weight_loop n nice (dyadic (tbl ! Suc i))"
    using assms(2) table_step [OF assms(1), of i] by (auto split: if_splits)
  then show ?case using Suc.IH [of "Suc i"] Suc.prems by simp
qed simp

lemma trunc_dyadic: "0 \<le> m \<Longrightarrow> trunc_int (dyadic (m, k)) = m div 2 ^ k"
  using floor_divide_of_int_eq [of m "2 ^ k", where 'a = rat]
  by (auto simp: trunc_int_def dyadic_def power_int_minus divide_inverse mult_less_0_iff)

lemma fround_constants:
  "fround (80 / 100) = dyadic (7205759403792794, 53)"
  "fround (125 / 100) = dyadic (5629499534213120, 52)"
  by code_simp+

lemma float64_base: "float64 1024 = dyadic (4503599627370496, 42)"
  by (simp add: float64_exact dyadic_def power_int_minus)

lemma tables_start:
  "dyadic (down_table ! 0) = float64 1024" "length down_table = 20"
  "dyadic (up_table ! 0) = float64 1024" "length up_table = 21"
  by (simp_all add: float64_base down_table_def up_table_def)

lemma niceToWeight_down:
  assumes "0 < nice" "nice \<le> 19"
  shows "niceToWeight nice = trunc_int (dyadic (down_table ! nat nice))"
proof -
  have "(if nice < 0 then fround (125 / 100) else fround (80 / 100)) = dyadic (7205759403792794, 53)"
    using assms fround_constants by simp
  then have "weight_loop (nat nice) nice (dyadic (down_table ! 0)) = dyadic (down_table ! (0 + nat nice))"
    using assms by (intro weight_loop_table [OF down_table_steps]) (simp_all add: tables_start)
  then show ?thesis using assms by (simp add: niceToWeight_def abs_int_def tables_start)
qed

lemma niceToWeight_up:
  assumes "nice < 0" "-20 \<le> nice"
  shows "niceToWeight nice = trunc_int (dyadic (up_table ! nat (- nice)))"
proof -
  have "(if nice < 0 then fround (125 / 100) else fround (80 / 100)) = dyadic (5629499534213120, 52)"
    using assms fround_constants by simp
  then have "weight_loop (nat (- nice)) nice (dyadic (up_table ! 0)) = dyadic (up_table ! (0 + nat (- nice)))"
    using assms by (intro weight_loop_table [OF up_table_steps]) (simp_all add: tables_start)
  then show ?thesis using assms by (simp add: niceToWeight_def abs_int_def tables_start i64_id in64_def)
qed

text \<open>The weights of all forty nice values.\<close>

lemma niceToWeight_all:
  "map niceToWeight [-20..19] =
     [88817, 71054, 56843, 45474, 36379, 29103, 23283, 18626, 14901, 11920,
      9536, 7629, 6103, 4882, 3906, 3125, 2500, 2000, 1600, 1280, 1024,
      819, 655, 524, 419, 335, 268, 214, 171, 137, 109, 87, 70, 56, 45, 36, 28, 23, 18, 14]"
proof -
  have "map niceToWeight [-20..-1] =
      map (\<lambda>n. trunc_int (dyadic (up_table ! nat (- n)))) [-20..-1]"
    by (rule map_cong) (auto simp: niceToWeight_up)
  moreover have "map niceToWeight [1..19] =
      map (\<lambda>n. trunc_int (dyadic (down_table ! nat n))) [1..19]"
    by (rule map_cong) (auto simp: niceToWeight_down)
  moreover have "[-20..19] = [-20..-1] @ 0 # [1..19::int]" by (simp add: upto.simps)
  ultimately show ?thesis
    by (simp add: upto.simps up_table_def down_table_def trunc_dyadic niceToWeight_def [of 0])
qed

lemma niceToWeight_antimono:
  assumes "-20 \<le> a" "a \<le> b" "b \<le> 19"
  shows "niceToWeight b \<le> niceToWeight a"
proof -
  define W where "W = map niceToWeight [-20..19]"
  have len: "length W = 40" by (simp add: W_def del: upto_rec_numeral)
  have nth: "W ! nat (n + 20) = niceToWeight n" if "-20 \<le> n" "n \<le> 19" for n
    using that by (simp add: W_def nth_upto del: upto_rec_numeral)
  have "sorted_wrt (\<ge>) W" unfolding W_def niceToWeight_all by simp
  then have "W ! nat (b + 20) \<le> W ! nat (a + 20)" if "a < b"
    using that assms len by (intro sorted_wrt_nth_less [where P = "(\<ge>)"]) auto
  then show ?thesis using assms nth [of a] nth [of b] by (cases "a = b") auto
qed

lemma niceToWeight_ends: "niceToWeight (-20) = 88817" "niceToWeight 19 = 14"
  using niceToWeight_all by (simp_all add: upto.simps)

text \<open>
  C39: \<^verbatim>\<open>SetNice\<close> accepts any nice value: the stored value is clamped to -20..19, the weight lies
  between 14 and 88817 (so no later division by the weight panics), and a smaller nice value
  never gives a smaller weight.
\<close>

theorem SetNice_weight:
  "-20 \<le> Nice (SetNice n p) \<and> Nice (SetNice n p) \<le> 19 \<and>
   14 \<le> Weight (SetNice n p) \<and> Weight (SetNice n p) \<le> 88817 \<and>
   (n \<le> n' \<longrightarrow> Weight (SetNice n' p) \<le> Weight (SetNice n p))"
proof -
  let ?c = "\<lambda>n::int. if n < -20 then -20 else if 19 < n then 19 else n"
  have w: "Weight (SetNice n p) = niceToWeight (?c n)" for n
    by (simp add: SetNice_def Let_def)
  have "niceToWeight 19 \<le> niceToWeight (?c n)" "niceToWeight (?c n) \<le> niceToWeight (-20)"
    by (auto intro: niceToWeight_antimono)
  moreover have "n \<le> n' \<longrightarrow> niceToWeight (?c n') \<le> niceToWeight (?c n)"
    by (auto intro: niceToWeight_antimono)
  moreover have "-20 \<le> Nice (SetNice n p) \<and> Nice (SetNice n p) \<le> 19"
    by (simp add: SetNice_def Let_def)
  ultimately show ?thesis by (simp only: w niceToWeight_ends simp_thms)
qed

theorem SetNice_weight_witness:
  "Weight (SetNice 50 (NewProcess 1 ''a'' 0 5 0)) \<le> Weight (SetNice (-7) (NewProcess 1 ''a'' 0 5 0))"
  using SetNice_weight [of "-7" "NewProcess 1 ''a'' 0 5 0" 50] by simp

end
