(* ===== verification/Selection.thy ===== *)
theory Selection
  imports Process_Model "HOL-Library.Product_Lexorder"
begin

text \<open>
  The loop that seven of the ten schedulers share: start from the head of the ready queue,
  walk the rest and keep the better of the two. \<open>selection\<close> is the contract of the
  comparison (a strict weak order); under it the loop returns the leftmost best element
  (\<open>leftmost_best\<close>), and there is only one such element. \<open>key_selection\<close> is the special
  case of a comparison by a key.
\<close>

fun scan :: "('a \<Rightarrow> 'a \<Rightarrow> bool) \<Rightarrow> 'a \<Rightarrow> 'a list \<Rightarrow> 'a" where
  "scan better best [] = best"
| "scan better best (p # ps) = scan better (if better p best then p else best) ps"

definition select :: "('a \<Rightarrow> 'a \<Rightarrow> bool) \<Rightarrow> 'a list \<Rightarrow> 'a option" where
  "select better xs = (case xs of [] \<Rightarrow> None | x # rest \<Rightarrow> Some (scan better x rest))"

text \<open>
  The reference: \<open>a\<close> is strictly better than everything before it and at least as good as
  everything after it.
\<close>

definition leftmost_best :: "('a \<Rightarrow> 'a \<Rightarrow> bool) \<Rightarrow> 'a list \<Rightarrow> 'a \<Rightarrow> bool" where
  "leftmost_best better xs a \<longleftrightarrow>
     (\<exists>pre post. xs = pre @ a # post \<and> (\<forall>p\<in>set pre. better a p) \<and> (\<forall>p\<in>set post. \<not> better p a))"

lemma scan_mem: "scan better best ps \<in> insert best (set ps)"
  by (induction ps arbitrary: best) (auto split: if_splits)

lemma select_mem: "select better xs = Some a \<Longrightarrow> a \<in> set xs"
  using scan_mem by (fastforce simp: select_def split: list.splits)

lemma select_None_iff [simp]: "select better xs = None \<longleftrightarrow> xs = []"
  by (simp add: select_def split: list.splits)

locale selection =
  fixes better :: "'a \<Rightarrow> 'a \<Rightarrow> bool"
  assumes asym: "better a b \<Longrightarrow> \<not> better b a"
    and negtrans: "\<not> better a b \<Longrightarrow> \<not> better b c \<Longrightarrow> \<not> better a c"
begin

lemma better_trans: "better a b \<Longrightarrow> better b c \<Longrightarrow> better a c"
  using asym negtrans by blast

lemma better_le_trans: "better a b \<Longrightarrow> \<not> better c b \<Longrightarrow> better a c"
  using negtrans by blast

lemma scan_leftmost:
  assumes "\<forall>p\<in>set pre. better best p"
    and "\<forall>p\<in>set mid. \<not> better p best"
  shows "leftmost_best better (pre @ best # mid @ ps) (scan better best ps)"
  using assms
proof (induction ps arbitrary: pre best mid)
  case Nil
  then show ?case by (auto simp: leftmost_best_def)
next
  case (Cons p ps)
  show ?case
  proof (cases "better p best")
    case True
    then have "\<forall>q\<in>set (pre @ best # mid). better p q"
      using Cons.prems by (auto intro: better_trans better_le_trans)
    then have "leftmost_best better ((pre @ best # mid) @ p # [] @ ps) (scan better p ps)"
      by (intro Cons.IH) auto
    with True show ?thesis by simp
  next
    case False
    then have "leftmost_best better (pre @ best # (mid @ [p]) @ ps) (scan better best ps)"
      using Cons.prems by (intro Cons.IH) auto
    with False show ?thesis by simp
  qed
qed

lemma select_leftmost: "select better xs = Some a \<Longrightarrow> leftmost_best better xs a"
  using scan_leftmost [of "[]" _ "[]"] by (auto simp: select_def split: list.splits)

lemma leftmost_unique:
  assumes "leftmost_best better xs a" "leftmost_best better xs b"
  shows "a = b"
proof -
  obtain pre post where
    a: "xs = pre @ a # post" "\<forall>p\<in>set pre. better a p" "\<forall>p\<in>set post. \<not> better p a"
    using assms(1) unfolding leftmost_best_def by blast
  obtain pre' post' where
    b: "xs = pre' @ b # post'" "\<forall>p\<in>set pre'. better b p" "\<forall>p\<in>set post'. \<not> better p b"
    using assms(2) unfolding leftmost_best_def by blast
  from a(1) b(1) have "pre @ a # post = pre' @ b # post'" by simp
  then consider "a = b" | us where "pre' = pre @ a # us" | us where "pre = pre' @ b # us"
    by (auto simp: append_eq_append_conv2 Cons_eq_append_conv append_eq_Cons_conv)
  then show ?thesis
  proof cases
    case 2
    then have "b \<in> set post" using \<open>pre @ a # post = pre' @ b # post'\<close> by auto
    with 2 show ?thesis using a(3) b(2) by auto
  next
    case 3
    then have "a \<in> set post'" using \<open>pre @ a # post = pre' @ b # post'\<close> by auto
    with 3 show ?thesis using a(2) b(3) by auto
  qed simp
qed

theorem select_iff: "select better xs = Some a \<longleftrightarrow> leftmost_best better xs a"
proof
  assume l: "leftmost_best better xs a"
  then have "xs \<noteq> []" by (auto simp: leftmost_best_def)
  then obtain b where b: "select better xs = Some b" by (metis select_None_iff option.exhaust)
  with l show "select better xs = Some a" using select_leftmost leftmost_unique by blast
qed (rule select_leftmost)

lemma select_best: "select better xs = Some a \<Longrightarrow> p \<in> set xs \<Longrightarrow> \<not> better p a"
  using asym [of p a] asym [of p p] unfolding select_iff leftmost_best_def by auto

end

locale key_selection =
  fixes key :: "'a \<Rightarrow> 'k::linorder"

sublocale key_selection \<subseteq> selection "\<lambda>a b. key a < key b"
  by unfold_locales auto

context key_selection begin

lemma select_key_le: "select (\<lambda>a b. key a < key b) xs = Some a \<Longrightarrow> p \<in> set xs \<Longrightarrow> key a \<le> key p"
  using select_best by (metis not_less)

end

end
