(* ===== verification/Scheduler_Model.thy ===== *)
theory Scheduler_Model
  imports Selection
begin

unbundle bit_operations_syntax

text \<open>
  The package \<^verbatim>\<open>internal/scheduler\<close>: the ten scheduling algorithms behind the
  \<^verbatim>\<open>Scheduler\<close> interface. Each struct is a record and each method a function on it; a
  method that mutates its receiver returns the new record. The ready queue is a list of
  addresses, read through the heap. The interface value is the datatype \<open>scheduler\<close>, and
  the \<open>sched_\<close> functions are the dynamic dispatch.
\<close>

section \<open>FCFS, SJF, SRTF\<close>

record FCFSScheduler =
  fcfs_name :: string

definition NewFCFSScheduler :: FCFSScheduler where
  "NewFCFSScheduler = \<lparr>fcfs_name = ''FCFS (First-Come-First-Served)''\<rparr>"

definition FCFS_Schedule :: "heap \<Rightarrow> addr list \<Rightarrow> addr option" where
  "FCFS_Schedule h readyQueue =
     select (\<lambda>p earliest. ArrivalTime (h p) < ArrivalTime (h earliest)) readyQueue"

record SJFScheduler =
  sjf_name :: string

definition NewSJFScheduler :: SJFScheduler where
  "NewSJFScheduler = \<lparr>sjf_name = ''SJF (Shortest Job First)''\<rparr>"

definition SJF_Schedule :: "heap \<Rightarrow> addr list \<Rightarrow> addr option" where
  "SJF_Schedule h readyQueue =
     select (\<lambda>p shortest.
       if BurstTime (h p) < BurstTime (h shortest) then True
       else BurstTime (h p) = BurstTime (h shortest) \<and> ArrivalTime (h p) < ArrivalTime (h shortest))
     readyQueue"

record SRTFScheduler =
  srtf_name :: string

definition NewSRTFScheduler :: SRTFScheduler where
  "NewSRTFScheduler = \<lparr>srtf_name = ''SRTF (Shortest Remaining Time First)''\<rparr>"

definition SRTF_Schedule :: "heap \<Rightarrow> addr list \<Rightarrow> addr option" where
  "SRTF_Schedule h readyQueue =
     select (\<lambda>p shortest.
       if RemainingTime (h p) < RemainingTime (h shortest) then True
       else RemainingTime (h p) = RemainingTime (h shortest) \<and>
            ArrivalTime (h p) < ArrivalTime (h shortest))
     readyQueue"

definition SRTF_Preempt :: "heap \<Rightarrow> addr option \<Rightarrow> addr list \<Rightarrow> bool" where
  "SRTF_Preempt h current readyQueue =
     (case current of None \<Rightarrow> False
      | Some c \<Rightarrow> list_ex (\<lambda>p. PID (h p) \<noteq> PID (h c) \<and> RemainingTime (h p) < RemainingTime (h c)) readyQueue)"

section \<open>Round robin\<close>

record RoundRobinScheduler =
  rr_name :: string
  rr_timeQuantum :: int

definition NewRoundRobinScheduler :: "int \<Rightarrow> RoundRobinScheduler" where
  "NewRoundRobinScheduler timeQuantum =
     (let timeQuantum = (if timeQuantum < 1 then 1 else timeQuantum)
      in \<lparr>rr_name = ''Round-Robin (Quantum='' @ itoa timeQuantum @ '')'', rr_timeQuantum = timeQuantum\<rparr>)"

definition RR_Schedule :: "addr list \<Rightarrow> addr option" where
  "RR_Schedule readyQueue = (case readyQueue of [] \<Rightarrow> None | p # _ \<Rightarrow> Some p)"

section \<open>Priority with aging\<close>

record PriorityScheduler =
  pri_name :: string
  preemptive :: bool
  agingInterval :: int

definition newPriorityScheduler :: "bool \<Rightarrow> int \<Rightarrow> PriorityScheduler" where
  "newPriorityScheduler pre aging =
     (let mode = (if pre then ''Preemptive'' else ''Non-Preemptive'')
      in \<lparr>pri_name = ''Priority ('' @ mode @ '')'', preemptive = pre, agingInterval = aging\<rparr>)"

definition NewPriorityScheduler :: "bool \<Rightarrow> PriorityScheduler" where
  "NewPriorityScheduler pre = newPriorityScheduler pre 10"

definition NewPrioritySchedulerWithAging :: "bool \<Rightarrow> int \<Rightarrow> PriorityScheduler" where
  "NewPrioritySchedulerWithAging pre aging = newPriorityScheduler pre aging"

text \<open>The divisor is positive where the division is reached, so the quotient needs no panic case.\<close>

definition effectivePriority :: "PriorityScheduler \<Rightarrow> process \<Rightarrow> int \<Rightarrow> int" where
  "effectivePriority s p currentTime =
     (if agingInterval s \<le> 0 then Priority p
      else let lastActivity = ArrivalTime p;
               lastActivity = (if lastActivity < LastExecuted p then LastExecuted p else lastActivity);
               waited = i64 (currentTime - lastActivity);
               waited = (if waited < 0 then 0 else waited);
               eff = i64 (Priority p - i64 (waited sdiv agingInterval s))
           in if eff < 0 then 0 else eff)"

fun Priority_loop :: "PriorityScheduler \<Rightarrow> heap \<Rightarrow> int \<Rightarrow> addr \<Rightarrow> int \<Rightarrow> addr list \<Rightarrow> addr" where
  "Priority_loop s h currentTime highest highestEff [] = highest"
| "Priority_loop s h currentTime highest highestEff (p # ps) =
     (let eff = effectivePriority s (h p) currentTime
      in if eff < highestEff \<or> (eff = highestEff \<and> ArrivalTime (h p) < ArrivalTime (h highest))
         then Priority_loop s h currentTime p eff ps
         else Priority_loop s h currentTime highest highestEff ps)"

definition Priority_Schedule :: "PriorityScheduler \<Rightarrow> heap \<Rightarrow> addr list \<Rightarrow> int \<Rightarrow> addr option" where
  "Priority_Schedule s h readyQueue currentTime =
     (case readyQueue of [] \<Rightarrow> None
      | p # ps \<Rightarrow> Some (Priority_loop s h currentTime p (effectivePriority s (h p) currentTime) ps))"

definition Priority_Preempt :: "PriorityScheduler \<Rightarrow> heap \<Rightarrow> addr option \<Rightarrow> addr list \<Rightarrow> int \<Rightarrow> bool" where
  "Priority_Preempt s h current readyQueue currentTime =
     (case current of None \<Rightarrow> False
      | Some c \<Rightarrow>
          if \<not> preemptive s then False
          else let currentEff = effectivePriority s (h c) currentTime
               in list_ex (\<lambda>p. PID (h p) \<noteq> PID (h c) \<and>
                               effectivePriority s (h p) currentTime < currentEff) readyQueue)"

section \<open>CFS\<close>

record CFSScheduler =
  cfs_name :: string
  minGranularity :: int

definition NewCFSScheduler :: CFSScheduler where
  "NewCFSScheduler = \<lparr>cfs_name = ''CFS (Completely Fair Scheduler)'', minGranularity = 1\<rparr>"

definition CFS_Schedule :: "heap \<Rightarrow> addr list \<Rightarrow> addr option" where
  "CFS_Schedule h readyQueue =
     select (\<lambda>p m. VRuntime (h p) < VRuntime (h m) \<or>
                   (VRuntime (h p) = VRuntime (h m) \<and> PID (h p) < PID (h m))) readyQueue"

text \<open>The threshold divides by the current process's weight, which panics when it is zero.\<close>

definition CFS_Preempt :: "CFSScheduler \<Rightarrow> heap \<Rightarrow> addr option \<Rightarrow> addr list \<Rightarrow> bool option" where
  "CFS_Preempt s h current readyQueue =
     (case current of None \<Rightarrow> Some False
      | Some c \<Rightarrow>
          if readyQueue = [] then Some False
          else do {
            let minVruntime =
              foldl (\<lambda>m p. if PID (h p) \<noteq> PID (h c) \<and> VRuntime (h p) < m then VRuntime (h p) else m)
                MaxInt64 readyQueue;
            d \<leftarrow> go_div (i64 (minGranularity s * VRuntimeScale)) (Weight (h c));
            Some (minVruntime < i64 (VRuntime (h c) - d))
          })"

section \<open>MLFQ\<close>

record MLFQScheduler =
  mlfq_name :: string
  timeQuantums :: "int list"
  mlfq_numLevels :: int
  mlfq_levels :: "addr \<rightharpoonup> int"

definition NewMLFQScheduler :: MLFQScheduler where
  "NewMLFQScheduler =
     (let numLevels = 3
      in \<lparr>mlfq_name = ''MLFQ (Multi-Level Feedback Queue)'', timeQuantums = [2, 4, 8],
          mlfq_numLevels = numLevels, mlfq_levels = Map.empty\<rparr>)"

text \<open>Reading a Go map at a missing key gives the zero value.\<close>

definition map_get :: "(addr \<rightharpoonup> int) \<Rightarrow> addr \<Rightarrow> int" where
  "map_get m p = (case m p of None \<Rightarrow> 0 | Some l \<Rightarrow> l)"

text \<open>
  The selection loop of MLFQ and MLQ, over the level each of them reads: lowest level first,
  then earliest arrival, then lowest PID; \<open>best\<close> is \<^verbatim>\<open>nil\<close> until some level is below the
  initial bound.
\<close>

fun level_loop :: "(addr \<Rightarrow> int) \<Rightarrow> heap \<Rightarrow> addr option \<Rightarrow> int \<Rightarrow> addr list \<Rightarrow> addr option" where
  "level_loop lv h best bestLevel [] = best"
| "level_loop lv h best bestLevel (p # ps) =
     (let lvl = lv p
      in if lvl < bestLevel \<or>
            (lvl = bestLevel \<and>
             (case best of None \<Rightarrow> False
              | Some b \<Rightarrow> ArrivalTime (h p) < ArrivalTime (h b) \<or>
                         (ArrivalTime (h p) = ArrivalTime (h b) \<and> PID (h p) < PID (h b))))
         then level_loop lv h (Some p) lvl ps
         else level_loop lv h best bestLevel ps)"

definition level_select :: "(addr \<Rightarrow> int) \<Rightarrow> int \<Rightarrow> heap \<Rightarrow> addr list \<Rightarrow> addr option" where
  "level_select lv numLevels h readyQueue =
     (case readyQueue of [] \<Rightarrow> None
      | p0 # _ \<Rightarrow> (case level_loop lv h None numLevels readyQueue of
                    None \<Rightarrow> Some p0 | Some best \<Rightarrow> Some best))"

definition MLFQ_Schedule :: "MLFQScheduler \<Rightarrow> heap \<Rightarrow> addr list \<Rightarrow> addr option" where
  "MLFQ_Schedule s h readyQueue = level_select (map_get (mlfq_levels s)) (mlfq_numLevels s) h readyQueue"

definition MLFQ_AddProcess :: "MLFQScheduler \<Rightarrow> addr \<Rightarrow> MLFQScheduler" where
  "MLFQ_AddProcess s p =
     (case mlfq_levels s p of
        None \<Rightarrow> s\<lparr>mlfq_levels := (mlfq_levels s)(p \<mapsto> 0)\<rparr> | Some _ \<Rightarrow> s)"

definition MLFQ_RemoveProcess :: "MLFQScheduler \<Rightarrow> addr \<Rightarrow> MLFQScheduler" where
  "MLFQ_RemoveProcess s p = s\<lparr>mlfq_levels := (mlfq_levels s)(p := None)\<rparr>"

definition levels_Preempt :: "(addr \<rightharpoonup> int) \<Rightarrow> addr option \<Rightarrow> addr list \<Rightarrow> bool" where
  "levels_Preempt levels current readyQueue =
     (case current of None \<Rightarrow> False
      | Some c \<Rightarrow> (let currentLevel = map_get levels c
                  in list_ex (\<lambda>p. p \<noteq> c \<and> map_get levels p < currentLevel) readyQueue))"

definition MLFQ_Preempt :: "MLFQScheduler \<Rightarrow> addr option \<Rightarrow> addr list \<Rightarrow> bool" where
  "MLFQ_Preempt s current readyQueue = levels_Preempt (mlfq_levels s) current readyQueue"

text \<open>Indexing the quanta out of range panics.\<close>

definition index :: "'a list \<Rightarrow> int \<Rightarrow> 'a option" where
  "index xs i = (if 0 \<le> i \<and> i < int (length xs) then Some (xs ! nat i) else None)"

definition MLFQ_QuantumFor :: "MLFQScheduler \<Rightarrow> addr option \<Rightarrow> int option" where
  "MLFQ_QuantumFor s p =
     (case p of None \<Rightarrow> index (timeQuantums s) 0
      | Some p \<Rightarrow>
          let lvl = map_get (mlfq_levels s) p;
              lvl = (if lvl < 0 \<or> mlfq_numLevels s \<le> lvl then i64 (mlfq_numLevels s - 1) else lvl)
          in index (timeQuantums s) lvl)"

definition MLFQ_OnQuantumExpired :: "MLFQScheduler \<Rightarrow> addr option \<Rightarrow> MLFQScheduler" where
  "MLFQ_OnQuantumExpired s p =
     (case p of None \<Rightarrow> s
      | Some p \<Rightarrow>
          let lvl = map_get (mlfq_levels s) p
          in if lvl < i64 (mlfq_numLevels s - 1)
             then s\<lparr>mlfq_levels := (mlfq_levels s)(p \<mapsto> i64 (lvl + 1))\<rparr> else s)"

definition MLFQ_Reset :: "MLFQScheduler \<Rightarrow> MLFQScheduler" where
  "MLFQ_Reset s = s\<lparr>mlfq_levels := Map.empty\<rparr>"

section \<open>Lottery\<close>

record deterministicRNG =
  rng_state :: "64 word"
  rng_seed :: "64 word"

text \<open>
  The \<^verbatim>\<open>RNG\<close> interface: the package's own generator, or one that the caller injects. Of an
  injected generator nothing is known but the value it returns at its \<open>n\<close>-th call.
\<close>

datatype RNG =
    DetRNG deterministicRNG
  | InjectedRNG "nat \<Rightarrow> int \<Rightarrow> int" nat

definition NewRNG :: "64 word \<Rightarrow> RNG" where
  "NewRNG seed =
     (let seed = (if seed = 0 then 0x9E3779B97F4A7C15 else seed)
      in DetRNG \<lparr>rng_state = seed, rng_seed = seed\<rparr>)"

definition xorshift64 :: "64 word \<Rightarrow> 64 word" where
  "xorshift64 x =
     (let x = x XOR push_bit 13 x; x = x XOR drop_bit 7 x; x = x XOR push_bit 17 x in x)"

definition det_Intn :: "deterministicRNG \<Rightarrow> int \<Rightarrow> int \<times> deterministicRNG" where
  "det_Intn r n =
     (if n \<le> 0 then (0, r)
      else let x = xorshift64 (rng_state r)
           in (i64 (uint (x mod word_of_int n)), r\<lparr>rng_state := x\<rparr>))"

fun Intn :: "RNG \<Rightarrow> int \<Rightarrow> int \<times> RNG" where
  "Intn (DetRNG r) n = (let (v, r') = det_Intn r n in (v, DetRNG r'))"
| "Intn (InjectedRNG f k) n = (f k n, InjectedRNG f (Suc k))"

record LotteryScheduler =
  lot_name :: string
  rng :: RNG
  lot_quantum :: int

definition NewLotteryScheduler :: "int \<Rightarrow> RNG option \<Rightarrow> LotteryScheduler" where
  "NewLotteryScheduler quantum r =
     (let quantum = (if quantum < 1 then 1 else quantum);
          r = (case r of None \<Rightarrow> NewRNG 0xC0FFEE | Some r \<Rightarrow> r)
      in \<lparr>lot_name = ''Lottery (Proportional Share)'', rng = r, lot_quantum = quantum\<rparr>)"

definition tickets :: "process \<Rightarrow> int" where
  "tickets p = (let w = Weight p in if w \<le> 0 then 1 else w)"

definition total_tickets :: "heap \<Rightarrow> addr list \<Rightarrow> int" where
  "total_tickets h readyQueue = foldl (\<lambda>total p. i64 (total + tickets (h p))) 0 readyQueue"

fun draw :: "heap \<Rightarrow> int \<Rightarrow> int \<Rightarrow> addr list \<Rightarrow> addr option" where
  "draw h winner running [] = None"
| "draw h winner running (p # ps) =
     (let running = i64 (running + tickets (h p))
      in if winner < running then Some p else draw h winner running ps)"

definition Lottery_Schedule ::
    "LotteryScheduler \<Rightarrow> heap \<Rightarrow> addr list \<Rightarrow> addr option \<times> LotteryScheduler" where
  "Lottery_Schedule s h readyQueue =
     (if readyQueue = [] then (None, s)
      else let totalTickets = total_tickets h readyQueue
           in if totalTickets \<le> 0 then (Some (hd readyQueue), s)
              else let (winner, r) = Intn (rng s) totalTickets; s = s\<lparr>rng := r\<rparr>
                   in case draw h winner 0 readyQueue of
                        Some p \<Rightarrow> (Some p, s)
                      | None \<Rightarrow> (Some (last readyQueue), s))"

definition Lottery_Reset :: "LotteryScheduler \<Rightarrow> LotteryScheduler" where
  "Lottery_Reset s =
     (case rng s of
        DetRNG r \<Rightarrow> s\<lparr>rng := DetRNG (r\<lparr>rng_state := rng_seed r\<rparr>)\<rparr>
      | InjectedRNG f k \<Rightarrow> s)"

section \<open>MLQ\<close>

record MLQScheduler =
  mlq_name :: string
  mlq_numLevels :: int
  mlq_quantum :: int
  mlq_levels :: "addr \<rightharpoonup> int"

definition NewMLQScheduler :: "int \<Rightarrow> int \<Rightarrow> MLQScheduler" where
  "NewMLQScheduler numLevels quantum =
     (let numLevels = (if numLevels < 1 then 1 else numLevels);
          quantum = (if quantum < 1 then 1 else quantum)
      in \<lparr>mlq_name = ''MLQ (Multi-Level Queue, '' @ itoa numLevels @ '' levels)'',
          mlq_numLevels = numLevels, mlq_quantum = quantum, mlq_levels = Map.empty\<rparr>)"

definition levelFor :: "MLQScheduler \<Rightarrow> process \<Rightarrow> int" where
  "levelFor s p =
     (let lvl = Priority p
      in if lvl < 0 then 0
         else if mlq_numLevels s \<le> lvl then i64 (mlq_numLevels s - 1) else lvl)"

definition MLQ_Schedule :: "MLQScheduler \<Rightarrow> heap \<Rightarrow> addr list \<Rightarrow> addr option" where
  "MLQ_Schedule s h readyQueue = level_select (\<lambda>p. levelFor s (h p)) (mlq_numLevels s) h readyQueue"

definition MLQ_AddProcess :: "MLQScheduler \<Rightarrow> heap \<Rightarrow> addr \<Rightarrow> MLQScheduler" where
  "MLQ_AddProcess s h p = s\<lparr>mlq_levels := (mlq_levels s)(p \<mapsto> levelFor s (h p))\<rparr>"

definition MLQ_RemoveProcess :: "MLQScheduler \<Rightarrow> addr \<Rightarrow> MLQScheduler" where
  "MLQ_RemoveProcess s p = s\<lparr>mlq_levels := (mlq_levels s)(p := None)\<rparr>"

definition MLQ_Preempt :: "MLQScheduler \<Rightarrow> addr option \<Rightarrow> addr list \<Rightarrow> bool" where
  "MLQ_Preempt s current readyQueue = levels_Preempt (mlq_levels s) current readyQueue"

definition MLQ_Reset :: "MLQScheduler \<Rightarrow> MLQScheduler" where
  "MLQ_Reset s = s\<lparr>mlq_levels := Map.empty\<rparr>"

section \<open>The interface\<close>

datatype scheduler =
    FCFS FCFSScheduler
  | SJF SJFScheduler
  | SRTF SRTFScheduler
  | RoundRobin RoundRobinScheduler
  | PriorityS PriorityScheduler
  | CFS CFSScheduler
  | MLFQ MLFQScheduler
  | Lottery LotteryScheduler
  | MLQ MLQScheduler

fun sched_Schedule :: "scheduler \<Rightarrow> heap \<Rightarrow> addr list \<Rightarrow> int \<Rightarrow> addr option \<times> scheduler" where
  "sched_Schedule (FCFS s) h rq t = (FCFS_Schedule h rq, FCFS s)"
| "sched_Schedule (SJF s) h rq t = (SJF_Schedule h rq, SJF s)"
| "sched_Schedule (SRTF s) h rq t = (SRTF_Schedule h rq, SRTF s)"
| "sched_Schedule (RoundRobin s) h rq t = (RR_Schedule rq, RoundRobin s)"
| "sched_Schedule (PriorityS s) h rq t = (Priority_Schedule s h rq t, PriorityS s)"
| "sched_Schedule (CFS s) h rq t = (CFS_Schedule h rq, CFS s)"
| "sched_Schedule (MLFQ s) h rq t = (MLFQ_Schedule s h rq, MLFQ s)"
| "sched_Schedule (Lottery s) h rq t = (let (p, s) = Lottery_Schedule s h rq in (p, Lottery s))"
| "sched_Schedule (MLQ s) h rq t = (MLQ_Schedule s h rq, MLQ s)"

fun sched_AddProcess :: "scheduler \<Rightarrow> heap \<Rightarrow> addr \<Rightarrow> scheduler" where
  "sched_AddProcess (MLFQ s) h p = MLFQ (MLFQ_AddProcess s p)"
| "sched_AddProcess (MLQ s) h p = MLQ (MLQ_AddProcess s h p)"
| "sched_AddProcess s h p = s"

fun sched_RemoveProcess :: "scheduler \<Rightarrow> addr \<Rightarrow> scheduler" where
  "sched_RemoveProcess (MLFQ s) p = MLFQ (MLFQ_RemoveProcess s p)"
| "sched_RemoveProcess (MLQ s) p = MLQ (MLQ_RemoveProcess s p)"
| "sched_RemoveProcess s p = s"

fun sched_Preempt :: "scheduler \<Rightarrow> heap \<Rightarrow> addr option \<Rightarrow> addr list \<Rightarrow> int \<Rightarrow> bool option" where
  "sched_Preempt (SRTF s) h c rq t = Some (SRTF_Preempt h c rq)"
| "sched_Preempt (PriorityS s) h c rq t = Some (Priority_Preempt s h c rq t)"
| "sched_Preempt (CFS s) h c rq t = CFS_Preempt s h c rq"
| "sched_Preempt (MLFQ s) h c rq t = Some (MLFQ_Preempt s c rq)"
| "sched_Preempt (MLQ s) h c rq t = Some (MLQ_Preempt s c rq)"
| "sched_Preempt _ h c rq t = Some False"

fun sched_Name :: "scheduler \<Rightarrow> string" where
  "sched_Name (FCFS s) = fcfs_name s"
| "sched_Name (SJF s) = sjf_name s"
| "sched_Name (SRTF s) = srtf_name s"
| "sched_Name (RoundRobin s) = rr_name s"
| "sched_Name (PriorityS s) = pri_name s"
| "sched_Name (CFS s) = cfs_name s"
| "sched_Name (MLFQ s) = mlfq_name s"
| "sched_Name (Lottery s) = lot_name s"
| "sched_Name (MLQ s) = mlq_name s"

fun sched_QuantumFor :: "scheduler \<Rightarrow> addr option \<Rightarrow> int option" where
  "sched_QuantumFor (RoundRobin s) p = Some (rr_timeQuantum s)"
| "sched_QuantumFor (CFS s) p = Some (minGranularity s)"
| "sched_QuantumFor (MLFQ s) p = MLFQ_QuantumFor s p"
| "sched_QuantumFor (Lottery s) p = Some (lot_quantum s)"
| "sched_QuantumFor (MLQ s) p = Some (mlq_quantum s)"
| "sched_QuantumFor _ p = Some 0"

fun sched_OnQuantumExpired :: "scheduler \<Rightarrow> addr option \<Rightarrow> scheduler" where
  "sched_OnQuantumExpired (MLFQ s) p = MLFQ (MLFQ_OnQuantumExpired s p)"
| "sched_OnQuantumExpired s p = s"

fun sched_Reset :: "scheduler \<Rightarrow> scheduler" where
  "sched_Reset (MLFQ s) = MLFQ (MLFQ_Reset s)"
| "sched_Reset (Lottery s) = Lottery (Lottery_Reset s)"
| "sched_Reset (MLQ s) = MLQ (MLQ_Reset s)"
| "sched_Reset s = s"

end
