(* ===== verification/Scheduler_Props.thy ===== *)
theory Scheduler_Props
  imports Scheduler_Model
begin

text \<open>
  What the schedulers promise. \<open>policy_key\<close> states each deterministic algorithm's policy as
  a key, and the selection theorem shows that the method returns the leftmost ready process
  with the least key. The lottery draws each process for exactly as many tickets as it
  holds, and its generator stays in range and never reaches the absorbing zero state. The
  locale \<open>scheduler_iface\<close> is the contract that the engine relies on, interpreted on the
  dispatch functions.
\<close>

section \<open>Well-formed schedulers\<close>

fun rng_ok :: "RNG \<Rightarrow> bool" where
  "rng_ok (DetRNG r) \<longleftrightarrow> rng_state r \<noteq> 0 \<and> rng_seed r \<noteq> 0"
| "rng_ok (InjectedRNG f k) \<longleftrightarrow> True"

fun sched_ok :: "scheduler \<Rightarrow> bool" where
  "sched_ok (FCFS s) \<longleftrightarrow> True"
| "sched_ok (SJF s) \<longleftrightarrow> True"
| "sched_ok (SRTF s) \<longleftrightarrow> True"
| "sched_ok (RoundRobin s) \<longleftrightarrow> 1 \<le> rr_timeQuantum s"
| "sched_ok (PriorityS s) \<longleftrightarrow> in64 (agingInterval s)"
| "sched_ok (CFS s) \<longleftrightarrow> 1 \<le> minGranularity s"
| "sched_ok (MLFQ s) \<longleftrightarrow>
     mlfq_numLevels s = int (length (timeQuantums s)) \<and> 1 \<le> mlfq_numLevels s \<and>
     mlfq_numLevels s \<le> MaxInt64 \<and> (\<forall>q\<in>set (timeQuantums s). 1 \<le> q) \<and>
     (\<forall>l\<in>ran (mlfq_levels s). 0 \<le> l \<and> l < mlfq_numLevels s)"
| "sched_ok (Lottery s) \<longleftrightarrow> 1 \<le> lot_quantum s \<and> rng_ok (rng s)"
| "sched_ok (MLQ s) \<longleftrightarrow> 1 \<le> mlq_numLevels s \<and> mlq_numLevels s \<le> MaxInt64 \<and> 1 \<le> mlq_quantum s"

lemma map_get_range:
  assumes "\<forall>l\<in>ran m. 0 \<le> l \<and> l < n" "1 \<le> n"
  shows "0 \<le> map_get m p" "map_get m p < n"
  using assms by (auto simp: map_get_def ran_def split: option.splits)

lemma levelFor_range:
  assumes "1 \<le> mlq_numLevels s" "mlq_numLevels s \<le> MaxInt64"
  shows "0 \<le> levelFor s p" "levelFor s p < mlq_numLevels s"
  using assms by (auto simp: levelFor_def Let_def i64_pred)

section \<open>Selection policies\<close>

text \<open>The key by which each algorithm ranks the ready processes; a smaller key runs first.\<close>

fun policy_key :: "scheduler \<Rightarrow> heap \<Rightarrow> int \<Rightarrow> addr \<Rightarrow> int \<times> int \<times> int" where
  "policy_key (FCFS s) h t p = (ArrivalTime (h p), 0, 0)"
| "policy_key (SJF s) h t p = (BurstTime (h p), ArrivalTime (h p), 0)"
| "policy_key (SRTF s) h t p = (RemainingTime (h p), ArrivalTime (h p), 0)"
| "policy_key (RoundRobin s) h t p = (0, 0, 0)"
| "policy_key (PriorityS s) h t p = (effectivePriority s (h p) t, ArrivalTime (h p), 0)"
| "policy_key (CFS s) h t p = (VRuntime (h p), PID (h p), 0)"
| "policy_key (MLFQ s) h t p = (map_get (mlfq_levels s) p, ArrivalTime (h p), PID (h p))"
| "policy_key (Lottery s) h t p = (0, 0, 0)"
| "policy_key (MLQ s) h t p = (levelFor s (h p), ArrivalTime (h p), PID (h p))"

fun is_lottery :: "scheduler \<Rightarrow> bool" where
  "is_lottery (Lottery s) \<longleftrightarrow> True"
| "is_lottery _ \<longleftrightarrow> False"

interpretation policy: key_selection "policy_key s h t" for s h t .

lemma select_cong:
  assumes "\<And>p q. better p q \<longleftrightarrow> better' p q"
  shows "select better xs = select better' xs"
proof -
  have "better = better'" using assms by (intro ext) blast
  then show ?thesis by simp
qed

lemma scan_const_False: "scan (\<lambda>_ _. False) b ps = b"
  by (induction ps) auto

lemma Priority_loop_scan:
  "Priority_loop s h t b (effectivePriority s (h b) t) ps =
     scan (\<lambda>p q. policy_key (PriorityS s) h t p < policy_key (PriorityS s) h t q) b ps"
  by (induction ps arbitrary: b) (auto simp: Let_def less_prod_def)

lemma level_loop_scan:
  "level_loop lv h (Some b) (lv b) ps =
     Some (scan (\<lambda>p q. (lv p, ArrivalTime (h p), PID (h p)) < (lv q, ArrivalTime (h q), PID (h q))) b ps)"
  by (induction ps arbitrary: b) (auto simp: Let_def less_prod_def)

lemma level_select_select:
  assumes "\<And>p. lv p < n"
  shows "level_select lv n h rq =
     select (\<lambda>p q. (lv p, ArrivalTime (h p), PID (h p)) < (lv q, ArrivalTime (h q), PID (h q))) rq"
  using assms by (auto simp: level_select_def select_def level_loop_scan split: list.splits)

lemma Schedule_select:
  assumes "sched_ok s" "\<not> is_lottery s"
  shows "sched_Schedule s h rq t = (select (\<lambda>p q. policy_key s h t p < policy_key s h t q) rq, s)"
proof (cases s)
  case (RoundRobin x)
  then show ?thesis by (auto simp: RR_Schedule_def select_def scan_const_False split: list.splits)
next
  case (PriorityS x)
  then show ?thesis
    by (auto simp: Priority_Schedule_def select_def Priority_loop_scan split: list.splits)
next
  case (MLFQ x)
  then have "map_get (mlfq_levels x) p < mlfq_numLevels x" for p
    using assms(1) by (intro map_get_range(2)) auto
  with MLFQ show ?thesis by (simp add: MLFQ_Schedule_def level_select_select)
next
  case (MLQ x)
  then have "levelFor x (h p) < mlq_numLevels x" for p
    using assms(1) by (intro levelFor_range(2)) auto
  with MLQ show ?thesis by (simp add: MLQ_Schedule_def level_select_select)
qed (use assms in \<open>auto simp: FCFS_Schedule_def SJF_Schedule_def SRTF_Schedule_def CFS_Schedule_def
       less_prod_def intro!: select_cong\<close>)



section \<open>The generator\<close>

lemma xor_push_bit_nonzero:
  fixes y :: "64 word"
  assumes "0 < k" "y \<noteq> 0"
  shows "y XOR push_bit k y \<noteq> 0"
proof
  assume "y XOR push_bit k y = 0"
  then have eq: "bit y n = bit (push_bit k y) n" for n
    by (metis bit_0_eq bit_xor_iff bot_apply bot_bool_def)
  have "\<not> bit y n" for n
  proof (induction n rule: less_induct)
    case (less n)
    then show ?case using eq [of n] assms(1) by (auto simp: bit_push_bit_iff)
  qed
  then have "y = 0" by (simp add: bit_eq_iff)
  with assms(2) show False by simp
qed

lemma xor_drop_bit_nonzero:
  fixes y :: "64 word"
  assumes "0 < k" "y \<noteq> 0"
  shows "y XOR drop_bit k y \<noteq> 0"
proof
  assume "y XOR drop_bit k y = 0"
  then have eq: "bit y n = bit (drop_bit k y) n" for n
    by (metis bit_0_eq bit_xor_iff bot_apply bot_bool_def)
  have "\<not> bit y n" for n
  proof (induction "64 - n" arbitrary: n rule: less_induct)
    case less
    show ?case
    proof (cases "n < 64")
      case True
      then have "\<not> bit y (k + n)" using less assms(1) by simp
      then show ?thesis using eq [of n] by (simp add: bit_drop_bit_eq)
    next
      case False
      then show ?thesis using bit_imp_le_length [of y n] by auto
    qed
  qed
  then have "y = 0" by (simp add: bit_eq_iff)
  with assms(2) show False by simp
qed

lemma xorshift64_nonzero: "x \<noteq> 0 \<Longrightarrow> xorshift64 x \<noteq> 0"
  unfolding xorshift64_def Let_def
  by (intro xor_push_bit_nonzero xor_drop_bit_nonzero) simp_all

lemma det_Intn_range:
  assumes "0 < n" "n \<le> MaxInt64"
  shows "0 \<le> fst (det_Intn r n)" "fst (det_Intn r n) < n"
proof -
  let ?v = "uint (xorshift64 (rng_state r) mod word_of_int n)"
  have n: "uint (word_of_int n :: 64 word) = n" using assms by (simp add: uint_word_of_int)
  have "?v = uint (xorshift64 (rng_state r)) mod n" by (simp add: uint_mod_distrib n)
  then have v: "0 \<le> ?v" "?v < n" using assms(1) by simp_all
  then have "in64 ?v" using assms(2) unfolding in64_def by linarith
  then show "0 \<le> fst (det_Intn r n)" "fst (det_Intn r n) < n"
    using v assms(1) by (simp_all add: det_Intn_def Let_def i64_id)
qed

lemma Intn_ok: "rng_ok r \<Longrightarrow> rng_ok (snd (Intn r n))"
  by (cases r) (auto simp: det_Intn_def Let_def xorshift64_nonzero split: prod.splits)

text \<open>
  The default generator behaves as a source of draws: from a seed (zero is replaced) its
  state is never the absorbing zero word, and for every positive bound each draw lies in
  \<open>0 ..< n\<close>, however many draws came before.
\<close>

lemma det_rng_draws:
  assumes "0 < n" "n \<le> MaxInt64"
  shows "rng_ok (((\<lambda>r. snd (Intn r n)) ^^ k) (NewRNG seed)) \<and>
         fst (Intn (((\<lambda>r. snd (Intn r n)) ^^ k) (NewRNG seed)) n) \<in> {0..<n}"
proof -
  have det: "\<exists>d. ((\<lambda>r. snd (Intn r n)) ^^ k) (NewRNG seed) = DetRNG d"
    by (induction k) (auto simp: NewRNG_def Let_def split: prod.splits)
  have "rng_ok (((\<lambda>r. snd (Intn r n)) ^^ k) (NewRNG seed))"
    by (induction k) (simp_all add: Intn_ok NewRNG_def Let_def)
  with det det_Intn_range [OF assms] show ?thesis by (auto simp: case_prod_beta)
qed

section \<open>The lottery\<close>

lemma tickets_pos: "1 \<le> tickets p"
  by (simp add: tickets_def Let_def)

lemma sum_tickets_nonneg: "0 \<le> (\<Sum>p\<leftarrow>ps. tickets (h p))"
  by (induction ps) (use tickets_pos in \<open>auto intro: add_nonneg_nonneg order_trans [OF zero_le_one]\<close>)

lemma total_tickets_aux:
  assumes "0 \<le> acc" "acc + (\<Sum>p\<leftarrow>ps. tickets (h p)) \<le> MaxInt64"
  shows "foldl (\<lambda>total p. i64 (total + tickets (h p))) acc ps = acc + (\<Sum>p\<leftarrow>ps. tickets (h p))"
  using assms
proof (induction ps arbitrary: acc)
  case (Cons p ps)
  have "0 \<le> (\<Sum>p\<leftarrow>ps. tickets (h p))" by (rule sum_tickets_nonneg)
  then have "i64 (acc + tickets (h p)) = acc + tickets (h p)"
    using Cons.prems tickets_pos [of "h p"] by (intro i64_id) (simp add: in64_def)
  then show ?case using Cons.IH [of "acc + tickets (h p)"] Cons.prems tickets_pos [of "h p"] by simp
qed simp

lemma total_tickets_sum:
  "(\<Sum>p\<leftarrow>rq. tickets (h p)) \<le> MaxInt64 \<Longrightarrow> total_tickets h rq = (\<Sum>p\<leftarrow>rq. tickets (h p))"
  using total_tickets_aux [of 0 h rq] by (simp add: total_tickets_def)

lemma draw_mem: "draw h w run ps = Some a \<Longrightarrow> a \<in> set ps"
  by (induction ps arbitrary: run) (auto simp: Let_def split: if_splits)

lemma draw_Cons:
  assumes "0 \<le> run" "run + (\<Sum>q\<leftarrow>p # ps. tickets (h q)) \<le> MaxInt64"
  shows "draw h w run (p # ps) = (if w < run + tickets (h p) then Some p
                                  else draw h w (run + tickets (h p)) ps)"
proof -
  have "in64 (run + tickets (h p))"
    using assms tickets_pos [of "h p"] sum_tickets_nonneg [where h = h and ps = ps] by (simp add: in64_def)
  then show ?thesis by (simp add: i64_id)
qed

lemma draw_card:
  assumes "0 \<le> run" "run + (\<Sum>p\<leftarrow>ps. tickets (h p)) \<le> MaxInt64" "distinct ps"
  shows "card {w \<in> {run..<run + (\<Sum>p\<leftarrow>ps. tickets (h p))}. draw h w run ps = Some a} =
         (if a \<in> set ps then nat (tickets (h a)) else 0)"
  using assms
proof (induction ps arbitrary: run)
  case (Cons p ps)
  let ?run = "run + tickets (h p)" and ?S = "\<Sum>p\<leftarrow>ps. tickets (h p)"
  let ?rest = "{w \<in> {?run..<?run + ?S}. draw h w ?run ps = Some a}"
  have S: "0 \<le> ?S" by (rule sum_tickets_nonneg)
  have t: "1 \<le> tickets (h p)" by (rule tickets_pos)
  have eq: "{w \<in> {run..<run + (\<Sum>p\<leftarrow>p # ps. tickets (h p))}. draw h w run (p # ps) = Some a} =
      (if a = p then {run..<?run} else {}) \<union> ?rest"
    unfolding draw_Cons [OF Cons.prems(1,2)] using S t by auto
  have IH: "card ?rest = (if a \<in> set ps then nat (tickets (h a)) else 0)"
    using Cons.prems t by (intro Cons.IH) auto
  show ?case
  proof (cases "a = p")
    case True
    then have r: "?rest = {}" using Cons.prems(3) by (auto dest: draw_mem)
    show ?thesis unfolding eq r using True by simp
  next
    case False
    with IH show ?thesis unfolding eq by simp
  qed
qed simp

text \<open>
  C25: Lottery scheduling is proportional share: as the drawn number ranges over all tickets, each
  ready process is selected for exactly as many numbers as it holds tickets (its weight, or
  one when the weight is not positive).
\<close>

theorem lottery_proportional:
  assumes "distinct rq" "a \<in> set rq" "(\<Sum>p\<leftarrow>rq. tickets (h p)) \<le> MaxInt64"
  shows "card {w \<in> {0..<total_tickets h rq}.
             fst (Lottery_Schedule (s\<lparr>rng := InjectedRNG (\<lambda>_ _. w) 0\<rparr>) h rq) = Some a} =
         nat (tickets (h a))"
proof -
  let ?T = "\<Sum>p\<leftarrow>rq. tickets (h p)"
  have T: "total_tickets h rq = ?T" using assms(3) by (rule total_tickets_sum)
  have "fst (Lottery_Schedule (s\<lparr>rng := InjectedRNG (\<lambda>_ _. w) 0\<rparr>) h rq) = draw h w 0 rq"
    if "w \<in> {0..<?T}" for w
  proof -
    have "draw h w run ps \<noteq> None" if "w < run + (\<Sum>p\<leftarrow>ps. tickets (h p))" "run \<le> w"
      "0 \<le> run" "run + (\<Sum>p\<leftarrow>ps. tickets (h p)) \<le> MaxInt64" for run ps
      using that
    proof (induction ps arbitrary: run)
      case (Cons p ps)
      then show ?case
        using draw_Cons [OF Cons.prems(3,4)] Cons.IH [of "run + tickets (h p)"] tickets_pos [of "h p"]
        by (auto simp: algebra_simps)
    qed simp
    then have "draw h w 0 rq \<noteq> None" using that assms(3) by simp
    then show ?thesis using assms(2) that by (auto simp: Lottery_Schedule_def T Let_def)
  qed
  then have "{w \<in> {0..<total_tickets h rq}.
        fst (Lottery_Schedule (s\<lparr>rng := InjectedRNG (\<lambda>_ _. w) 0\<rparr>) h rq) = Some a} =
      {w \<in> {0..<0 + ?T}. draw h w 0 rq = Some a}"
    unfolding T by auto
  then show ?thesis using draw_card [of 0 h rq a] assms by simp
qed

theorem lottery_proportional_witness:
  "card {w \<in> {0..<total_tickets (\<lambda>a. NewProcess (int a) ''p'' 0 3 0) [4, 5, 6]}.
     fst (Lottery_Schedule (NewLotteryScheduler 2 None\<lparr>rng := InjectedRNG (\<lambda>_ _. w) 0\<rparr>)
       (\<lambda>a. NewProcess (int a) ''p'' 0 3 0) [4, 5, 6]) = Some 5} = 1024"
  using lottery_proportional [of "[4, 5, 6]" 5 "\<lambda>a. NewProcess (int a) ''p'' 0 3 0" "NewLotteryScheduler 2 None"]
  by (simp add: tickets_def NewProcess_def)

section \<open>The contract of the interface\<close>

text \<open>
  What the engine relies on, whatever the algorithm: a non-empty ready queue yields one of
  its own members, no method panics on a well-formed scheduler as long as the running
  process has a non-zero weight, a preemption needs a ready process, and every method keeps
  the scheduler well-formed.
\<close>

locale scheduler_iface =
  fixes Schedule :: "'s \<Rightarrow> heap \<Rightarrow> addr list \<Rightarrow> int \<Rightarrow> addr option \<times> 's"
    and AddProcess :: "'s \<Rightarrow> heap \<Rightarrow> addr \<Rightarrow> 's"
    and RemoveProcess :: "'s \<Rightarrow> addr \<Rightarrow> 's"
    and Preempt :: "'s \<Rightarrow> heap \<Rightarrow> addr option \<Rightarrow> addr list \<Rightarrow> int \<Rightarrow> bool option"
    and QuantumFor :: "'s \<Rightarrow> addr option \<Rightarrow> int option"
    and OnQuantumExpired :: "'s \<Rightarrow> addr option \<Rightarrow> 's"
    and Reset :: "'s \<Rightarrow> 's"
    and ok :: "'s \<Rightarrow> bool"
  assumes Schedule_empty: "fst (Schedule s h [] t) = None"
    and Schedule_ready: "rq \<noteq> [] \<Longrightarrow> \<exists>a\<in>set rq. fst (Schedule s h rq t) = Some a"
    and Schedule_ok: "ok s \<Longrightarrow> ok (snd (Schedule s h rq t))"
    and AddProcess_ok: "ok s \<Longrightarrow> ok (AddProcess s h p)"
    and RemoveProcess_ok: "ok s \<Longrightarrow> ok (RemoveProcess s p)"
    and OnQuantumExpired_ok: "ok s \<Longrightarrow> ok (OnQuantumExpired s q)"
    and Reset_ok: "ok s \<Longrightarrow> ok (Reset s)"
    and QuantumFor_total: "ok s \<Longrightarrow> \<exists>n\<ge>0. QuantumFor s q = Some n"
    and Preempt_total: "ok s \<Longrightarrow> \<forall>c. cur = Some c \<longrightarrow> Weight (h c) \<noteq> 0 \<Longrightarrow> Preempt s h cur rq t \<noteq> None"
    and Preempt_empty: "Preempt s h cur [] t \<noteq> Some True"
begin

lemma next_process:
  assumes "rq \<noteq> []"
  obtains a s' where "Schedule s h rq t = (Some a, s')" "a \<in> set rq"
    "mset rq = add_mset a (mset (remove1 a rq))" "ok s \<Longrightarrow> ok s'"
proof -
  obtain a where a: "a \<in> set rq" "fst (Schedule s h rq t) = Some a"
    using Schedule_ready [OF assms] by blast
  show ?thesis
    by (rule that [of a "snd (Schedule s h rq t)"]) (use a Schedule_ok in \<open>auto simp: prod_eq_iff\<close>)
qed

lemma Preempt_ready: "Preempt s h cur rq t = Some True \<Longrightarrow> rq \<noteq> []"
  using Preempt_empty by metis

end

lemma level_loop_mem: "level_loop lv h best bl ps = Some a \<Longrightarrow> a \<in> set_option best \<union> set ps"
  by (induction lv h best bl ps rule: level_loop.induct) (auto simp: Let_def split: if_splits)

lemma level_select_mem: "rq \<noteq> [] \<Longrightarrow> \<exists>a\<in>set rq. level_select lv n h rq = Some a"
proof (cases "level_loop lv h None n rq")
  case (Some a)
  then show ?thesis using level_loop_mem [OF Some] by (auto simp: level_select_def split: list.splits)
qed (auto simp: level_select_def split: list.splits)

lemma Priority_loop_mem: "Priority_loop s h t b e ps \<in> insert b (set ps)"
  by (induction ps arbitrary: b e) (auto simp: Let_def)

lemma Lottery_Schedule_mem: "rq \<noteq> [] \<Longrightarrow> \<exists>a\<in>set rq. fst (Lottery_Schedule s h rq) = Some a"
  by (auto simp: Lottery_Schedule_def Let_def split: prod.splits option.splits dest: draw_mem)

lemma sched_Schedule_mem:
  assumes "rq \<noteq> []"
  shows "\<exists>a\<in>set rq. fst (sched_Schedule s h rq t) = Some a"
proof -
  have sel: "\<exists>a\<in>set rq. select better rq = Some a" for better
    using assms by (metis select_None_iff select_mem option.exhaust)
  show ?thesis
  proof (cases s)
    case (PriorityS x)
    then show ?thesis using assms Priority_loop_mem
      by (fastforce simp: Priority_Schedule_def split: list.splits)
  next
    case (Lottery x)
    then show ?thesis using Lottery_Schedule_mem [OF assms] by (simp add: case_prod_beta)
  qed (use assms sel level_select_mem [OF assms] in
      \<open>auto simp: FCFS_Schedule_def SJF_Schedule_def SRTF_Schedule_def CFS_Schedule_def RR_Schedule_def
         MLFQ_Schedule_def MLQ_Schedule_def split: list.splits\<close>)
qed

lemma Lottery_Schedule_rng:
  "snd (Lottery_Schedule s h rq) = s \<or>
   (\<exists>n. snd (Lottery_Schedule s h rq) = s\<lparr>rng := snd (Intn (rng s) n)\<rparr>)"
  by (auto simp: Lottery_Schedule_def Let_def case_prod_beta split: option.splits)

lemma sched_Schedule_ok: "sched_ok s \<Longrightarrow> sched_ok (snd (sched_Schedule s h rq t))"
proof (cases s)
  case (Lottery x)
  moreover assume "sched_ok s"
  ultimately show ?thesis using Lottery_Schedule_rng [of x h rq] Intn_ok [of "rng x"]
    by (auto simp: case_prod_beta)
qed auto

lemma sched_AddProcess_ok: "sched_ok s \<Longrightarrow> sched_ok (sched_AddProcess s h p)"
  by (cases s) (auto simp: MLFQ_AddProcess_def MLQ_AddProcess_def ran_def split: option.splits if_splits)

lemma sched_RemoveProcess_ok: "sched_ok s \<Longrightarrow> sched_ok (sched_RemoveProcess s p)"
  by (cases s) (auto simp: MLFQ_RemoveProcess_def MLQ_RemoveProcess_def ran_def split: if_splits)

lemma sched_OnQuantumExpired_ok:
  assumes "sched_ok s"
  shows "sched_ok (sched_OnQuantumExpired s q)"
proof (cases s)
  case (MLFQ x)
  show ?thesis
  proof (cases q)
    case (Some p)
    let ?l = "map_get (mlfq_levels x) p" and ?n = "mlfq_numLevels x"
    have l: "0 \<le> ?l" "?l < ?n" and n: "1 \<le> ?n" "?n \<le> MaxInt64"
      using assms MLFQ map_get_range [of "mlfq_levels x" ?n p] by auto
    then have "i64 (?n - 1) = ?n - 1" "?l < ?n - 1 \<Longrightarrow> i64 (?l + 1) = ?l + 1"
      by (simp_all add: i64_pred i64_succ)
    then show ?thesis using assms MLFQ Some l
      by (auto simp: MLFQ_OnQuantumExpired_def Let_def ran_def split: if_splits)
  qed (use assms MLFQ in \<open>auto simp: MLFQ_OnQuantumExpired_def\<close>)
qed (use assms in auto)

lemma sched_Reset_ok: "sched_ok s \<Longrightarrow> sched_ok (sched_Reset s)"
  by (cases s) (auto simp: MLFQ_Reset_def MLQ_Reset_def Lottery_Reset_def split: RNG.splits)

lemma sched_QuantumFor_total:
  assumes "sched_ok s"
  shows "\<exists>n\<ge>0. sched_QuantumFor s q = Some n"
proof (cases s)
  case (MLFQ x)
  let ?n = "mlfq_numLevels x"
  have ok: "?n = int (length (timeQuantums x))" "1 \<le> ?n" "?n \<le> MaxInt64"
    "\<forall>q\<in>set (timeQuantums x). 1 \<le> q" "\<forall>l\<in>ran (mlfq_levels x). 0 \<le> l \<and> l < ?n"
    using assms MLFQ by auto
  have idx: "\<exists>n\<ge>0. index (timeQuantums x) i = Some n" if "0 \<le> i" "i < ?n" for i
    using that ok nth_mem [of "nat i" "timeQuantums x"] by (fastforce simp: index_def)
  show ?thesis
  proof (cases q)
    case None
    have "\<exists>n\<ge>0. index (timeQuantums x) 0 = Some n" using ok(2) by (intro idx) simp_all
    with MLFQ None show ?thesis by (simp add: MLFQ_QuantumFor_def)
  next
    case (Some p)
    have "0 \<le> map_get (mlfq_levels x) p" "map_get (mlfq_levels x) p < ?n"
      using map_get_range [OF ok(5,2)] by auto
    with MLFQ Some idx show ?thesis by (simp add: MLFQ_QuantumFor_def)
  qed
qed (use assms in auto)

lemma sched_Preempt_total:
  assumes "\<forall>c. cur = Some c \<longrightarrow> Weight (h c) \<noteq> 0"
  shows "sched_Preempt s h cur rq t \<noteq> None"
  using assms by (cases s) (auto simp: CFS_Preempt_def go_div_def split: option.splits)

lemma sched_Preempt_empty: "sched_Preempt s h cur [] t \<noteq> Some True"
  by (cases s) (auto simp: CFS_Preempt_def SRTF_Preempt_def Priority_Preempt_def MLFQ_Preempt_def
      MLQ_Preempt_def levels_Preempt_def split: option.splits)

interpretation sched: scheduler_iface sched_Schedule sched_AddProcess sched_RemoveProcess
    sched_Preempt sched_QuantumFor sched_OnQuantumExpired sched_Reset sched_ok
proof unfold_locales
  show "fst (sched_Schedule s h [] t) = None" for s h t
    by (cases s) (auto simp: FCFS_Schedule_def SJF_Schedule_def SRTF_Schedule_def CFS_Schedule_def
        RR_Schedule_def Priority_Schedule_def MLFQ_Schedule_def MLQ_Schedule_def level_select_def
        Lottery_Schedule_def select_def)
qed (simp_all add: sched_Schedule_mem sched_Schedule_ok sched_AddProcess_ok sched_RemoveProcess_ok
    sched_OnQuantumExpired_ok sched_Reset_ok sched_QuantumFor_total sched_Preempt_total sched_Preempt_empty
    del: not_None_eq sched_Schedule.simps)

lemma constructors_ok:
  "sched_ok (FCFS NewFCFSScheduler)" "sched_ok (SJF NewSJFScheduler)" "sched_ok (SRTF NewSRTFScheduler)"
  "sched_ok (RoundRobin (NewRoundRobinScheduler q))" "sched_ok (PriorityS (NewPriorityScheduler b))"
  "sched_ok (CFS NewCFSScheduler)" "sched_ok (MLFQ NewMLFQScheduler)"
  "sched_ok (Lottery (NewLotteryScheduler q None))"
  "n \<le> MaxInt64 \<Longrightarrow> sched_ok (MLQ (NewMLQScheduler n q))"
  by (simp_all add: NewRoundRobinScheduler_def NewPriorityScheduler_def newPriorityScheduler_def
      NewCFSScheduler_def NewMLFQScheduler_def NewLotteryScheduler_def NewMLQScheduler_def NewRNG_def
      in64_def)

section \<open>What Reset restores\<close>

text \<open>
  The configuration of a scheduler: its parameters, without the levels and the position of the
  generator that scheduling changes. No operation changes it, and \<^verbatim>\<open>Reset\<close> goes back to it,
  unless the caller has injected a generator, which \<^verbatim>\<open>Reset\<close> cannot rewind.
\<close>

fun sched_config :: "scheduler \<Rightarrow> scheduler" where
  "sched_config (MLFQ s) = MLFQ (s\<lparr>mlfq_levels := Map.empty\<rparr>)"
| "sched_config (MLQ s) = MLQ (s\<lparr>mlq_levels := Map.empty\<rparr>)"
| "sched_config (Lottery s) = Lottery (s\<lparr>rng := (case rng s of
       DetRNG r \<Rightarrow> DetRNG (r\<lparr>rng_state := rng_seed r\<rparr>) | InjectedRNG f k \<Rightarrow> InjectedRNG f 0)\<rparr>)"
| "sched_config s = s"

fun replays :: "scheduler \<Rightarrow> bool" where
  "replays (Lottery s) = (case rng s of DetRNG _ \<Rightarrow> True | InjectedRNG _ _ \<Rightarrow> False)"
| "replays _ = True"

locale replay_iface = scheduler_iface +
  fixes config :: "'a \<Rightarrow> 'a" and rewindable :: "'a \<Rightarrow> bool"
  assumes Schedule_config: "config (snd (Schedule s h rq t)) = config s"
    and AddProcess_config: "config (AddProcess s h p) = config s"
    and RemoveProcess_config: "config (RemoveProcess s p) = config s"
    and OnQuantumExpired_config: "config (OnQuantumExpired s q) = config s"
    and Reset_config: "config (Reset s) = config s"
    and Reset_rewinds: "rewindable s \<Longrightarrow> Reset s = config s"
    and config_rewindable: "rewindable (config s) = rewindable s"
begin

lemma Reset_restores:
  assumes "config s' = config s" "rewindable s"
  shows "Reset s' = Reset s"
proof -
  have "rewindable s'" using assms config_rewindable by metis
  then show ?thesis using assms Reset_rewinds by simp
qed

lemma Reset_Reset: "rewindable s \<Longrightarrow> Reset (Reset s) = Reset s"
  by (rule Reset_restores [OF Reset_config])

end

lemma Intn_config:
  "(case snd (Intn r n) of DetRNG r \<Rightarrow> DetRNG (r\<lparr>rng_state := rng_seed r\<rparr>) | InjectedRNG f k \<Rightarrow> InjectedRNG f 0) =
   (case r of DetRNG r \<Rightarrow> DetRNG (r\<lparr>rng_state := rng_seed r\<rparr>) | InjectedRNG f k \<Rightarrow> InjectedRNG f 0)"
  by (cases r) (simp_all add: det_Intn_def Let_def)

lemma sched_Schedule_config: "sched_config (snd (sched_Schedule s h rq t)) = sched_config s"
  by (cases s) (auto simp: Lottery_Schedule_def case_prod_beta Let_def Intn_config split: option.splits)

interpretation replay: replay_iface sched_Schedule sched_AddProcess sched_RemoveProcess
    sched_Preempt sched_QuantumFor sched_OnQuantumExpired sched_Reset sched_ok sched_config replays
proof unfold_locales
  show "sched_config (sched_AddProcess s h p) = sched_config s" for s h p
    by (cases s) (auto simp: MLFQ_AddProcess_def MLQ_AddProcess_def split: option.splits)
  show "sched_config (sched_RemoveProcess s p) = sched_config s" for s p
    by (cases s) (auto simp: MLFQ_RemoveProcess_def MLQ_RemoveProcess_def)
  show "sched_config (sched_OnQuantumExpired s q) = sched_config s" for s q
    by (cases s) (auto simp: MLFQ_OnQuantumExpired_def Let_def split: option.splits)
  show "sched_config (sched_Reset s) = sched_config s" for s
    by (cases s) (auto simp: MLFQ_Reset_def MLQ_Reset_def Lottery_Reset_def split: RNG.splits)
  show "replays s \<Longrightarrow> sched_Reset s = sched_config s" for s
    by (cases s) (auto simp: MLFQ_Reset_def MLQ_Reset_def Lottery_Reset_def split: RNG.splits)
  show "replays (sched_config s) = replays s" for s
    by (cases s) (auto split: RNG.splits)
qed (simp_all add: sched_Schedule_config)

end
