(* ===== verification/Engine.thy ===== *)
theory Engine
  imports Scheduler_Props
begin

text \<open>
  The package \<^verbatim>\<open>internal/simulator\<close>: the discrete-tick engine. The struct is the record
  \<open>Simulator\<close>; the process objects its pointers reach are its \<open>heap\<close>, and \<open>next_addr\<close> is
  the next free address. Every method is a function from state to state; one that may panic
  returns an \<open>option\<close>. The mutexes are not modelled: each function is one critical section.
  The channels hold at most one token, so each is a \<^typ>\<open>bool\<close>.
\<close>

section \<open>State\<close>

datatype SimulationState = SimStateIdle | SimStateRunning | SimStatePaused | SimStateComplete

record Simulator =
  scheduler :: scheduler
  heap :: heap
  next_addr :: addr
  processes :: "addr list"
  readyQueue :: "addr list"
  ioQueue :: "addr list"
  currentProcess :: "addr option"
  currentTime :: int
  ganttChart :: "GanttEntry list"
  events :: "ProcessEvent list"
  contextSwitches :: int
  sim_state :: SimulationState
  speed :: int
  pauseChan :: bool
  stopChan :: bool
  lastGanttUpdate :: int
  totalIdleTime :: int
  timeQuantumUsed :: int

record SimulationUpdate =
  u_CurrentTime :: int
  u_CurrentProcess :: "process option"
  u_ReadyQueue :: "process list"
  u_WaitingQueue :: "process list"
  u_CompletedProcesses :: "process list"
  u_GanttChart :: "GanttEntry list"
  u_Events :: "ProcessEvent list"
  u_Metrics :: SchedulingMetrics
  u_State :: SimulationState
  u_Algorithm :: string

text \<open>Writing through a pointer.\<close>

definition upd :: "addr \<Rightarrow> (process \<Rightarrow> process) \<Rightarrow> Simulator \<Rightarrow> Simulator" where
  "upd a f s = s\<lparr>heap := (heap s)(a := f (heap s a))\<rparr>"

section \<open>Construction and configuration\<close>

definition NewSimulator :: "scheduler \<Rightarrow> Simulator" where
  "NewSimulator sch =
     \<lparr>scheduler = sch, heap = (\<lambda>_. NewProcess 0 [] 0 0 0), next_addr = 0, processes = [],
      readyQueue = [], ioQueue = [], currentProcess = None, currentTime = 0, ganttChart = [],
      events = [], contextSwitches = 0, sim_state = SimStateIdle, speed = 100,
      pauseChan = False, stopChan = False, lastGanttUpdate = 0, totalIdleTime = 0,
      timeQuantumUsed = 0\<rparr>"

text \<open>
  \<^verbatim>\<open>sort.Slice\<close> promises a sorted permutation and no order among equal keys; the sorting
  function is an argument (\<open>sortSlice\<close>), and \<open>slice_sort\<close> is what the package documents.
\<close>

locale slice_sort =
  fixes sortSlice :: "(addr \<Rightarrow> int) \<Rightarrow> addr list \<Rightarrow> addr list"
  assumes sort_perm: "mset (sortSlice key xs) = mset xs"
    and sort_sorted: "sorted (map key (sortSlice key xs))"

definition Simulator_AddProcess ::
    "((addr \<Rightarrow> int) \<Rightarrow> addr list \<Rightarrow> addr list) \<Rightarrow> process \<Rightarrow> Simulator \<Rightarrow> Simulator" where
  "Simulator_AddProcess sortSlice p s =
     (let clone = next_addr s;
          s = s\<lparr>heap := (heap s)(clone := Clone p), next_addr := Suc clone\<rparr>;
          s = s\<lparr>processes := processes s @ [clone]\<rparr>
      in s\<lparr>processes := sortSlice (\<lambda>a. ArrivalTime (heap s a)) (processes s)\<rparr>)"

fun Simulator_AddProcesses ::
    "((addr \<Rightarrow> int) \<Rightarrow> addr list \<Rightarrow> addr list) \<Rightarrow> process list \<Rightarrow> Simulator \<Rightarrow> Simulator" where
  "Simulator_AddProcesses sortSlice [] s = s"
| "Simulator_AddProcesses sortSlice (p # ps) s =
     Simulator_AddProcesses sortSlice ps (Simulator_AddProcess sortSlice p s)"

definition SetSpeed :: "int \<Rightarrow> Simulator \<Rightarrow> Simulator" where
  "SetSpeed v s =
     (let v = (if v < 1 then 1 else v); v = (if 5000 < v then 5000 else v) in s\<lparr>speed := v\<rparr>)"

section \<open>Logs\<close>

definition addEvent :: "string \<Rightarrow> int \<Rightarrow> string \<Rightarrow> Simulator \<Rightarrow> Simulator" where
  "addEvent eventType pid description s =
     (let state = (case find (\<lambda>a. PID (heap s a) = pid) (processes s) of
                     None \<Rightarrow> StateNew | Some a \<Rightarrow> State (heap s a))
      in s\<lparr>events := events s @
            [\<lparr>ev_Time = currentTime s, ev_PID = pid, ev_EventType = eventType,
              ev_Description = description, ev_State = state\<rparr>]\<rparr>)"

definition addGanttEntry :: "int \<Rightarrow> string \<Rightarrow> int \<Rightarrow> int \<Rightarrow> string \<Rightarrow> Simulator \<Rightarrow> Simulator" where
  "addGanttEntry pid name start stop color s =
     (if ganttChart s \<noteq> [] \<and> g_PID (last (ganttChart s)) = pid \<and> g_EndTime (last (ganttChart s)) = start
      then s\<lparr>ganttChart := butlast (ganttChart s) @ [(last (ganttChart s))\<lparr>g_EndTime := stop\<rparr>]\<rparr>
      else s\<lparr>ganttChart := ganttChart s @
             [\<lparr>g_PID = pid, g_Name = name, g_StartTime = start, g_EndTime = stop, g_Color = color\<rparr>]\<rparr>)"

section \<open>The parts of a tick\<close>

fun checkArrivals_loop :: "addr list \<Rightarrow> Simulator \<Rightarrow> Simulator" where
  "checkArrivals_loop [] s = s"
| "checkArrivals_loop (p # ps) s =
     checkArrivals_loop ps
       (if ArrivalTime (heap s p) \<le> currentTime s \<and> State (heap s p) = StateNew
        then let s = upd p (\<lambda>q. q\<lparr>State := StateReady\<rparr>) s;
                 s = s\<lparr>readyQueue := readyQueue s @ [p]\<rparr>;
                 s = s\<lparr>scheduler := sched_AddProcess (scheduler s) (heap s) p\<rparr>
             in addEvent ''arrival'' (PID (heap s p)) (sprintf_d ''Process '' (PID (heap s p)) '' arrived'') s
        else s)"

definition checkArrivals :: "Simulator \<Rightarrow> Simulator" where
  "checkArrivals s = checkArrivals_loop (processes s) s"

text \<open>
  \<^verbatim>\<open>live\<close> reuses the backing array of \<^verbatim>\<open>ioQueue\<close>, but only writes positions that the loop has
  already read, so it is the list of the processes kept so far.
\<close>

fun tickIOQueue_loop :: "addr list \<Rightarrow> addr list \<Rightarrow> Simulator \<Rightarrow> addr list \<times> Simulator" where
  "tickIOQueue_loop [] live s = (live, s)"
| "tickIOQueue_loop (p # ps) live s =
     (let s = upd p (\<lambda>q. q\<lparr>IORemaining := i64 (IORemaining q - 1)\<rparr>) s
      in if IORemaining (heap s p) \<le> 0
         then let s = upd p (\<lambda>q. q\<lparr>IORemaining := 0, State := StateReady\<rparr>) s;
                  s = s\<lparr>readyQueue := readyQueue s @ [p]\<rparr>;
                  s = s\<lparr>scheduler := sched_AddProcess (scheduler s) (heap s) p\<rparr>;
                  s = addEvent ''io_complete'' (PID (heap s p))
                        (sprintf_d ''Process '' (PID (heap s p)) '' I/O complete, returning to ready queue'') s
              in tickIOQueue_loop ps live s
         else tickIOQueue_loop ps (live @ [p]) s)"

definition tickIOQueue :: "Simulator \<Rightarrow> Simulator" where
  "tickIOQueue s = (let (live, s) = tickIOQueue_loop (ioQueue s) [] s in s\<lparr>ioQueue := live\<rparr>)"

definition scheduleNextProcess :: "Simulator \<Rightarrow> Simulator" where
  "scheduleNextProcess s =
     (if readyQueue s = [] then s\<lparr>currentProcess := None\<rparr>
      else let (nxt, sch) = sched_Schedule (scheduler s) (heap s) (readyQueue s) (currentTime s);
               s = s\<lparr>scheduler := sch\<rparr>
           in case nxt of
                None \<Rightarrow> s\<lparr>currentProcess := None\<rparr>
              | Some a \<Rightarrow>
                  let s = s\<lparr>readyQueue := remove1 a (readyQueue s)\<rparr>;
                      s = (case currentProcess s of
                             None \<Rightarrow> s
                           | Some c \<Rightarrow> if PID (heap s c) \<noteq> PID (heap s a)
                                      then s\<lparr>contextSwitches := i64 (contextSwitches s + 1)\<rparr> else s);
                      wasStarted = HasStarted (heap s a);
                      s = s\<lparr>currentProcess := Some a\<rparr>;
                      s = upd a (\<lambda>q. q\<lparr>State := StateRunning\<rparr>) s;
                      s = s\<lparr>timeQuantumUsed := 0\<rparr>
                  in if \<not> wasStarted
                     then addEvent ''start'' (PID (heap s a))
                            (sprintf_d ''Process '' (PID (heap s a)) '' started execution'') s
                     else addEvent ''resume'' (PID (heap s a))
                            (sprintf_d ''Process '' (PID (heap s a)) '' resumed execution'') s)"

definition shouldPreempt :: "Simulator \<Rightarrow> bool option" where
  "shouldPreempt s = sched_Preempt (scheduler s) (heap s) (currentProcess s) (readyQueue s) (currentTime s)"

definition preemptCurrentProcess :: "Simulator \<Rightarrow> Simulator" where
  "preemptCurrentProcess s =
     (case currentProcess s of None \<Rightarrow> s
      | Some c \<Rightarrow>
          let s = addEvent ''preempt'' (PID (heap s c))
                    (sprintf_d ''Process '' (PID (heap s c)) '' preempted'') s;
              s = s\<lparr>contextSwitches := i64 (contextSwitches s + 1)\<rparr>;
              s = upd c (\<lambda>q. q\<lparr>State := StateReady\<rparr>) s;
              s = s\<lparr>readyQueue := readyQueue s @ [c]\<rparr>
          in s\<lparr>currentProcess := None\<rparr>)"

definition executeProcess :: "int \<Rightarrow> Simulator \<Rightarrow> Simulator option" where
  "executeProcess duration s =
     (case currentProcess s of None \<Rightarrow> Some s
      | Some c \<Rightarrow> do {
          let startTime = currentTime s;
          q \<leftarrow> Execute (currentTime s) duration (heap s c);
          let s = s\<lparr>heap := (heap s)(c := q)\<rparr>;
          let s = addGanttEntry (PID (heap s c)) (Name (heap s c)) startTime
                    (i64 (currentTime s + duration)) (Color (heap s c)) s;
          Some (if IsComplete (heap s c)
                then let s = addEvent ''complete'' (PID (heap s c))
                               (sprintf_d ''Process '' (PID (heap s c)) '' completed'') s;
                         s = s\<lparr>scheduler := sched_RemoveProcess (scheduler s) c\<rparr>
                     in s\<lparr>currentProcess := None\<rparr>
                else s)
        })"

text \<open>
  The loop of \<^verbatim>\<open>checkIOBurst\<close> skips completed bursts and stops at the first open one. The index
  is below the length of a slice, so its increment does not wrap; a negative index panics.
\<close>

function checkIOBurst_loop :: "addr \<Rightarrow> int \<Rightarrow> Simulator \<Rightarrow> Simulator option" where
  "checkIOBurst_loop p cpuUsed s =
     (let idx = CurrentIOIndex (heap s p)
      in if idx < int (length (IOBursts (heap s p)))
         then if idx < 0 then None
              else let burst = IOBursts (heap s p) ! nat idx
                   in if Completed burst
                      then checkIOBurst_loop p cpuUsed (upd p (\<lambda>q. q\<lparr>CurrentIOIndex := idx + 1\<rparr>) s)
                      else if AfterCPUTime burst \<le> cpuUsed \<and> 0 < Duration burst
                      then let s = upd p (\<lambda>q. q\<lparr>IOBursts := (IOBursts q)[nat idx := burst\<lparr>Completed := True\<rparr>],
                                               IORemaining := Duration burst,
                                               CurrentIOIndex := idx + 1,
                                               State := StateWaiting\<rparr>) s;
                               s = s\<lparr>ioQueue := ioQueue s @ [p]\<rparr>;
                               s = addEvent ''io_start'' (PID (heap s p))
                                     (sprintf_d ''Process '' (PID (heap s p))
                                       (sprintf_d '' started I/O (duration='' (Duration burst) '')'')) s
                           in Some (s\<lparr>currentProcess := None, timeQuantumUsed := 0\<rparr>)
                      else Some s
         else Some s)"
  by pat_completeness auto
termination
  by (relation "measure (\<lambda>(p, _, s). nat (int (length (IOBursts (heap s p))) - CurrentIOIndex (heap s p)))")
    (auto simp: upd_def)

declare checkIOBurst_loop.simps [simp del]

definition checkIOBurst :: "Simulator \<Rightarrow> Simulator option" where
  "checkIOBurst s =
     (case currentProcess s of None \<Rightarrow> Some s
      | Some p \<Rightarrow>
          if IsComplete (heap s p) then Some s
          else let cpuUsed = i64 (BurstTime (heap s p) - RemainingTime (heap s p))
               in checkIOBurst_loop p cpuUsed s)"

text \<open>The quantum check at the end of a busy tick.\<close>

definition checkQuantum :: "Simulator \<Rightarrow> Simulator option" where
  "checkQuantum s = do {
     timeQuantum \<leftarrow> (case currentProcess s of None \<Rightarrow> Some 0
                     | Some c \<Rightarrow> sched_QuantumFor (scheduler s) (Some c));
     Some (case currentProcess s of
             None \<Rightarrow> s
           | Some expired \<Rightarrow>
               if 0 < timeQuantum \<and> timeQuantum \<le> timeQuantumUsed s \<and> \<not> IsComplete (heap s expired)
               then let s = s\<lparr>scheduler := sched_OnQuantumExpired (scheduler s) (Some expired)\<rparr>;
                        s = addEvent ''quantum_expire'' (PID (heap s expired))
                              (sprintf_d ''Process '' (PID (heap s expired)) '' time quantum expired'') s;
                        s = s\<lparr>contextSwitches := i64 (contextSwitches s + 1)\<rparr>;
                        s = upd expired (\<lambda>q. q\<lparr>State := StateReady\<rparr>) s;
                        s = s\<lparr>readyQueue := readyQueue s @ [expired]\<rparr>;
                        s = s\<lparr>currentProcess := None, timeQuantumUsed := 0\<rparr>
                    in scheduleNextProcess s
               else s)
   }"

text \<open>The first half of a tick: who runs.\<close>

definition dispatch :: "Simulator \<Rightarrow> Simulator option" where
  "dispatch s =
     (case currentProcess s of
        None \<Rightarrow> Some (scheduleNextProcess s)
      | Some c \<Rightarrow>
          if IsComplete (heap s c) then Some (scheduleNextProcess s)
          else do {
            pre \<leftarrow> shouldPreempt s;
            Some (if pre then scheduleNextProcess (preemptCurrentProcess s) else s)
          })"

text \<open>The second half: one time unit of the chosen process, or an idle unit.\<close>

definition runOrIdle :: "Simulator \<Rightarrow> Simulator option" where
  "runOrIdle s =
     (case currentProcess s of
        Some _ \<Rightarrow> do {
          s \<leftarrow> executeProcess 1 s;
          let s = s\<lparr>timeQuantumUsed := i64 (timeQuantumUsed s + 1)\<rparr>;
          s \<leftarrow> checkIOBurst s;
          checkQuantum s
        }
      | None \<Rightarrow>
          let s = s\<lparr>totalIdleTime := i64 (totalIdleTime s + 1)\<rparr>
          in Some (addGanttEntry (-1) ''IDLE'' (currentTime s) (i64 (currentTime s + 1)) ''#2C3E50'' s))"

fun updateWaiting :: "addr list \<Rightarrow> Simulator \<Rightarrow> Simulator" where
  "updateWaiting [] s = s"
| "updateWaiting (p # ps) s =
     updateWaiting ps
       (if State (heap s p) = StateReady \<and>
           (case currentProcess s of None \<Rightarrow> True | Some c \<Rightarrow> PID (heap s p) \<noteq> PID (heap s c))
        then upd p (\<lambda>q. q\<lparr>WaitingTime := i64 (WaitingTime q + 1)\<rparr>) s else s)"

definition executeTimeUnit :: "Simulator \<Rightarrow> Simulator option" where
  "executeTimeUnit s = do {
     let s = checkArrivals s;
     let s = tickIOQueue s;
     s \<leftarrow> dispatch s;
     s \<leftarrow> runOrIdle s;
     let s = s\<lparr>currentTime := i64 (currentTime s + 1)\<rparr>;
     Some (updateWaiting (readyQueue s) s)
   }"

definition isComplete :: "Simulator \<Rightarrow> bool" where
  "isComplete s = list_all (\<lambda>p. IsComplete (heap s p)) (processes s)"

section \<open>Running\<close>

text \<open>
  One turn of the run loop in the running state: execute a time unit and, when every process
  has completed, enter the final state. \<open>Step\<close> does the same for a paused or idle simulator.
  \<open>runTicks n\<close> is \<open>n\<close> turns of the loop, which returns at completion.
\<close>

definition runTick :: "Simulator \<Rightarrow> Simulator option" where
  "runTick s = do {
     s \<leftarrow> executeTimeUnit s;
     Some (if isComplete s then s\<lparr>sim_state := SimStateComplete\<rparr> else s)
   }"

definition Step :: "Simulator \<Rightarrow> Simulator option" where
  "Step s =
     (if sim_state s = SimStateRunning \<or> sim_state s = SimStateComplete then Some s
      else runTick (if sim_state s = SimStateIdle then s\<lparr>sim_state := SimStatePaused\<rparr> else s))"

fun runTicks :: "nat \<Rightarrow> Simulator \<Rightarrow> Simulator option" where
  "runTicks 0 s = Some s"
| "runTicks (Suc n) s =
     do { s \<leftarrow> runTick s; if sim_state s = SimStateComplete then Some s else runTicks n s }"

text \<open>
  \<^verbatim>\<open>Start\<close>, \<^verbatim>\<open>Pause\<close> and \<^verbatim>\<open>Resume\<close>: what they do to the fields of the simulator. The result
  of \<^verbatim>\<open>Start\<close> also says whether it launches the run goroutine. The send on \<^verbatim>\<open>pauseChan\<close> does
  not block: a token that is already there stays the only one.
\<close>

definition Start :: "Simulator \<Rightarrow> bool \<times> Simulator" where
  "Start s = (if sim_state s = SimStateRunning then (False, s) else (True, s\<lparr>sim_state := SimStateRunning\<rparr>))"

definition Pause :: "Simulator \<Rightarrow> Simulator" where
  "Pause s = (if sim_state s = SimStateRunning then s\<lparr>sim_state := SimStatePaused\<rparr> else s)"

definition Resume :: "Simulator \<Rightarrow> Simulator" where
  "Resume s =
     (if sim_state s = SimStatePaused then s\<lparr>sim_state := SimStateRunning, pauseChan := True\<rparr> else s)"

text \<open>
  \<^verbatim>\<open>Stop\<close> returns when the run goroutine has exited. It leaves a token in \<^verbatim>\<open>stopChan\<close> unless
  that goroutine has \<open>taken\<close> it; it does not when it exits by completing the simulation, or when
  there is none because the simulator was only stepped.
\<close>

definition Stop :: "bool \<Rightarrow> Simulator \<Rightarrow> Simulator" where
  "Stop taken s =
     (case sim_state s of
        SimStateRunning \<Rightarrow> s\<lparr>sim_state := SimStateIdle, stopChan := \<not> taken\<rparr>
      | SimStatePaused \<Rightarrow> s\<lparr>sim_state := SimStateIdle, stopChan := \<not> taken\<rparr>
      | SimStateComplete \<Rightarrow> s\<lparr>sim_state := SimStateIdle\<rparr>
      | SimStateIdle \<Rightarrow> s)"

text \<open>\<^verbatim>\<open>Reset\<close>: stop, drain both channels, reset the fields and then every process.\<close>

definition resetProcess :: "process \<Rightarrow> process" where
  "resetProcess p =
     p\<lparr>State := StateNew, RemainingTime := BurstTime p, StartTime := -1, CompletionTime := 0,
       WaitingTime := 0, TurnaroundTime := 0, ResponseTime := 0, VRuntime := 0,
       HasStarted := False, LastExecuted := 0, TimeQuantum := 0, CurrentIOIndex := 0,
       IORemaining := 0, IOBursts := map (\<lambda>b. b\<lparr>Completed := False\<rparr>) (IOBursts p)\<rparr>"

fun resetProcesses :: "addr list \<Rightarrow> Simulator \<Rightarrow> Simulator" where
  "resetProcesses [] s = s"
| "resetProcesses (p # ps) s = resetProcesses ps (upd p resetProcess s)"

definition resetState :: "Simulator \<Rightarrow> Simulator" where
  "resetState s =
     (let s = s\<lparr>currentTime := 0, currentProcess := None, readyQueue := [], ioQueue := [],
               ganttChart := [], events := [], contextSwitches := 0, sim_state := SimStateIdle,
               lastGanttUpdate := 0, totalIdleTime := 0, timeQuantumUsed := 0,
               scheduler := sched_Reset (scheduler s)\<rparr>
      in resetProcesses (processes s) s)"

definition Reset :: "bool \<Rightarrow> Simulator \<Rightarrow> Simulator" where
  "Reset taken s =
     (let s = Stop taken s; s = s\<lparr>pauseChan := False\<rparr>; s = s\<lparr>stopChan := False\<rparr> in resetState s)"

end
