(* ===== verification/Engine_Inv.thy ===== *)
theory Engine_Inv
  imports Engine
begin

text \<open>
  The engine's structural invariant: every process is in exactly the place its state says
  (new, ready queue, CPU, I/O queue, finished), the queues hold no process twice, and each
  control block is consistent. Every part of a tick preserves it, no tick panics in a state
  that satisfies it, and it holds in every state that a run reaches.
\<close>

section \<open>The invariant\<close>

definition pwf :: "process \<Rightarrow> bool" where
  "pwf p \<longleftrightarrow>
     1 \<le> BurstTime p \<and> BurstTime p \<le> MaxInt64 \<and> 0 \<le> RemainingTime p \<and> RemainingTime p \<le> BurstTime p \<and>
     0 \<le> ArrivalTime p \<and> 0 < Weight p \<and> 0 \<le> CurrentIOIndex p \<and>
     (State p = StateTerminated \<longleftrightarrow> RemainingTime p = 0) \<and>
     (State p = StateWaiting \<longleftrightarrow> 0 < IORemaining p) \<and> 0 \<le> IORemaining p \<and> IORemaining p \<le> MaxInt64 \<and>
     (\<forall>b\<in>set (IOBursts p). Duration b \<le> MaxInt64)"

definition placed :: "Simulator \<Rightarrow> addr \<Rightarrow> bool" where
  "placed s a \<longleftrightarrow>
     (State (heap s a) = StateReady \<longleftrightarrow> a \<in> set (readyQueue s)) \<and>
     (State (heap s a) = StateWaiting \<longleftrightarrow> a \<in> set (ioQueue s)) \<and>
     (State (heap s a) = StateRunning \<longleftrightarrow> currentProcess s = Some a) \<and>
     (State (heap s a) = StateNew \<or> ArrivalTime (heap s a) \<le> currentTime s)"

definition sim_inv :: "Simulator \<Rightarrow> bool" where
  "sim_inv s \<longleftrightarrow>
     sched_ok (scheduler s) \<and> 0 \<le> currentTime s \<and>
     distinct (processes s) \<and> distinct (readyQueue s) \<and> distinct (ioQueue s) \<and>
     set (readyQueue s) \<subseteq> set (processes s) \<and> set (ioQueue s) \<subseteq> set (processes s) \<and>
     set_option (currentProcess s) \<subseteq> set (processes s) \<and>
     (\<forall>a\<in>set (processes s). pwf (heap s a) \<and> placed s a)"

section \<open>Frame facts\<close>

lemma addEvent_frame [simp]:
  "scheduler (addEvent e i d s) = scheduler s" "heap (addEvent e i d s) = heap s"
  "next_addr (addEvent e i d s) = next_addr s" "processes (addEvent e i d s) = processes s"
  "readyQueue (addEvent e i d s) = readyQueue s" "ioQueue (addEvent e i d s) = ioQueue s"
  "currentProcess (addEvent e i d s) = currentProcess s" "currentTime (addEvent e i d s) = currentTime s"
  "ganttChart (addEvent e i d s) = ganttChart s" "contextSwitches (addEvent e i d s) = contextSwitches s"
  "sim_state (addEvent e i d s) = sim_state s" "speed (addEvent e i d s) = speed s"
  "pauseChan (addEvent e i d s) = pauseChan s" "stopChan (addEvent e i d s) = stopChan s"
  "lastGanttUpdate (addEvent e i d s) = lastGanttUpdate s"
  "totalIdleTime (addEvent e i d s) = totalIdleTime s"
  "timeQuantumUsed (addEvent e i d s) = timeQuantumUsed s"
  by (simp_all add: addEvent_def Let_def)

lemma addGanttEntry_frame [simp]:
  "scheduler (addGanttEntry i n b c d s) = scheduler s" "heap (addGanttEntry i n b c d s) = heap s"
  "next_addr (addGanttEntry i n b c d s) = next_addr s" "processes (addGanttEntry i n b c d s) = processes s"
  "readyQueue (addGanttEntry i n b c d s) = readyQueue s" "ioQueue (addGanttEntry i n b c d s) = ioQueue s"
  "currentProcess (addGanttEntry i n b c d s) = currentProcess s"
  "currentTime (addGanttEntry i n b c d s) = currentTime s" "events (addGanttEntry i n b c d s) = events s"
  "contextSwitches (addGanttEntry i n b c d s) = contextSwitches s"
  "sim_state (addGanttEntry i n b c d s) = sim_state s" "speed (addGanttEntry i n b c d s) = speed s"
  "pauseChan (addGanttEntry i n b c d s) = pauseChan s" "stopChan (addGanttEntry i n b c d s) = stopChan s"
  "lastGanttUpdate (addGanttEntry i n b c d s) = lastGanttUpdate s"
  "totalIdleTime (addGanttEntry i n b c d s) = totalIdleTime s"
  "timeQuantumUsed (addGanttEntry i n b c d s) = timeQuantumUsed s"
  by (simp_all add: addGanttEntry_def)

lemma upd_frame [simp]:
  "scheduler (upd a f s) = scheduler s" "heap (upd a f s) = (heap s)(a := f (heap s a))"
  "next_addr (upd a f s) = next_addr s" "processes (upd a f s) = processes s"
  "readyQueue (upd a f s) = readyQueue s" "ioQueue (upd a f s) = ioQueue s"
  "currentProcess (upd a f s) = currentProcess s" "currentTime (upd a f s) = currentTime s"
  "ganttChart (upd a f s) = ganttChart s" "events (upd a f s) = events s"
  "contextSwitches (upd a f s) = contextSwitches s"
  "sim_state (upd a f s) = sim_state s" "speed (upd a f s) = speed s"
  "pauseChan (upd a f s) = pauseChan s" "stopChan (upd a f s) = stopChan s"
  "lastGanttUpdate (upd a f s) = lastGanttUpdate s" "totalIdleTime (upd a f s) = totalIdleTime s"
  "timeQuantumUsed (upd a f s) = timeQuantumUsed s"
  by (simp_all add: upd_def)

lemma inv_cong:
  assumes "scheduler s' = scheduler s" "heap s' = heap s" "processes s' = processes s"
    "readyQueue s' = readyQueue s" "ioQueue s' = ioQueue s" "currentProcess s' = currentProcess s"
    "currentTime s' = currentTime s"
  shows "sim_inv s' = sim_inv s"
  using assms by (simp add: sim_inv_def placed_def)

lemma inv_addEvent [simp]: "sim_inv (addEvent e i d s) = sim_inv s"
  by (rule inv_cong) simp_all

lemma inv_addGanttEntry [simp]: "sim_inv (addGanttEntry i n b c d s) = sim_inv s"
  by (rule inv_cong) simp_all

lemma inv_counters [simp]:
  "sim_inv (s\<lparr>contextSwitches := n\<rparr>) = sim_inv s" "sim_inv (s\<lparr>timeQuantumUsed := n\<rparr>) = sim_inv s"
  "sim_inv (s\<lparr>totalIdleTime := n\<rparr>) = sim_inv s" "sim_inv (s\<lparr>sim_state := st\<rparr>) = sim_inv s"
  by (rule inv_cong; simp)+

lemma inv_scheduler: "sim_inv s \<Longrightarrow> sched_ok sch \<Longrightarrow> sim_inv (s\<lparr>scheduler := sch\<rparr>)"
  by (simp add: sim_inv_def placed_def)

text \<open>The moves between places, each with the state change that goes with it.\<close>

lemma inv_to_ready:
  assumes "sim_inv s" "p \<in> set (processes s)" "State (heap s p) = StateNew" "ArrivalTime (heap s p) \<le> currentTime s"
  shows "sim_inv (upd p (\<lambda>q. q\<lparr>State := StateReady\<rparr>) s\<lparr>readyQueue := readyQueue s @ [p]\<rparr>)"
  using assms by (auto simp: sim_inv_def placed_def pwf_def)

lemma inv_release_cpu:
  assumes "sim_inv s" "currentProcess s = Some c"
  shows "sim_inv (upd c (\<lambda>q. q\<lparr>State := StateReady\<rparr>) s\<lparr>readyQueue := readyQueue s @ [c], currentProcess := None\<rparr>)"
proof -
  have "State (heap s c) = StateRunning" "c \<in> set (processes s)"
    using assms by (auto simp: sim_inv_def placed_def)
  then show ?thesis using assms by (auto simp: sim_inv_def placed_def pwf_def)
qed

lemma inv_take_cpu:
  assumes "sim_inv s" "currentProcess s = None" "a \<in> set (readyQueue s)"
  shows "sim_inv (upd a (\<lambda>q. q\<lparr>State := StateRunning\<rparr>) s\<lparr>readyQueue := remove1 a (readyQueue s), currentProcess := Some a\<rparr>)"
proof -
  have "State (heap s a) = StateReady" "a \<in> set (processes s)" "distinct (readyQueue s)"
    using assms by (auto simp: sim_inv_def placed_def)
  then show ?thesis using assms by (auto simp: sim_inv_def placed_def pwf_def)
qed

lemma inv_sched_ok: "sim_inv s \<Longrightarrow> sched_ok (scheduler s)"
  by (simp add: sim_inv_def)

lemma inv_current:
  assumes "sim_inv s" "currentProcess s = Some c"
  shows "c \<in> set (processes s)" "pwf (heap s c)" "State (heap s c) = StateRunning"
    "0 < RemainingTime (heap s c)" "0 < Weight (heap s c)" "RemainingTime (heap s c) \<le> MaxInt64"
    "ArrivalTime (heap s c) \<le> currentTime s" "\<not> IsComplete (heap s c)"
proof -
  show c: "c \<in> set (processes s)" using assms by (auto simp: sim_inv_def)
  then show p: "pwf (heap s c)" and st: "State (heap s c) = StateRunning"
    and "ArrivalTime (heap s c) \<le> currentTime s"
    using assms by (auto simp: sim_inv_def placed_def)
  then show "0 < RemainingTime (heap s c)" by (auto simp: pwf_def order.strict_iff_order)
  then show "\<not> IsComplete (heap s c)" using st by (simp add: IsComplete_def)
  show "0 < Weight (heap s c)" "RemainingTime (heap s c) \<le> MaxInt64"
    using p by (auto simp: pwf_def)
qed

lemma upd_upd: "upd a f (upd a g s) = upd a (\<lambda>q. f (g q)) s"
  by (simp add: upd_def)

text \<open>What the two queue updates at the start of a tick leave alone.\<close>

definition keeps_cpu :: "Simulator \<Rightarrow> Simulator \<Rightarrow> bool" where
  "keeps_cpu s s' \<longleftrightarrow>
     processes s' = processes s \<and> currentProcess s' = currentProcess s \<and> currentTime s' = currentTime s \<and>
     ganttChart s' = ganttChart s \<and> totalIdleTime s' = totalIdleTime s \<and>
     timeQuantumUsed s' = timeQuantumUsed s \<and> contextSwitches s' = contextSwitches s \<and>
     sim_state s' = sim_state s \<and> next_addr s' = next_addr s \<and> speed s' = speed s \<and>
     pauseChan s' = pauseChan s \<and> stopChan s' = stopChan s \<and> lastGanttUpdate s' = lastGanttUpdate s"

lemma keeps_cpuD:
  assumes "keeps_cpu s s'"
  shows "processes s' = processes s" "currentProcess s' = currentProcess s" "currentTime s' = currentTime s"
    "ganttChart s' = ganttChart s" "totalIdleTime s' = totalIdleTime s"
    "timeQuantumUsed s' = timeQuantumUsed s" "contextSwitches s' = contextSwitches s"
    "sim_state s' = sim_state s" "next_addr s' = next_addr s" "speed s' = speed s"
    "pauseChan s' = pauseChan s" "stopChan s' = stopChan s" "lastGanttUpdate s' = lastGanttUpdate s"
  using assms by (auto simp: keeps_cpu_def)

section \<open>Arrivals\<close>

lemma checkArrivals_loop_keeps: "keeps_cpu s (checkArrivals_loop ps s) \<and> ioQueue (checkArrivals_loop ps s) = ioQueue s"
proof (induction ps arbitrary: s)
  case (Cons p ps)
  let ?f = "\<lambda>s. if ArrivalTime (heap s p) \<le> currentTime s \<and> State (heap s p) = StateNew
        then let s = upd p (\<lambda>q. q\<lparr>State := StateReady\<rparr>) s;
                 s = s\<lparr>readyQueue := readyQueue s @ [p]\<rparr>;
                 s = s\<lparr>scheduler := sched_AddProcess (scheduler s) (heap s) p\<rparr>
             in addEvent ''arrival'' (PID (heap s p)) (sprintf_d ''Process '' (PID (heap s p)) '' arrived'') s
        else s"
  have "keeps_cpu s (?f s) \<and> ioQueue (?f s) = ioQueue s" by (simp add: keeps_cpu_def Let_def)
  then show ?case using Cons.IH [of "?f s"] by (simp add: keeps_cpu_def)
qed (simp add: keeps_cpu_def)

lemma checkArrivals_loop_inv:
  "sim_inv s \<Longrightarrow> set ps \<subseteq> set (processes s) \<Longrightarrow> sim_inv (checkArrivals_loop ps s)"
proof (induction ps arbitrary: s)
  case (Cons p ps)
  have "sim_inv (upd p (\<lambda>q. q\<lparr>State := StateReady\<rparr>) s
          \<lparr>readyQueue := readyQueue s @ [p], scheduler := sched_AddProcess (scheduler s) h p\<rparr>)"
    if "ArrivalTime (heap s p) \<le> currentTime s" "State (heap s p) = StateNew" for h
    using inv_scheduler [OF inv_to_ready [OF Cons.prems(1) _ that(2,1)]] Cons.prems
      sched.AddProcess_ok [OF inv_sched_ok] by simp
  then show ?case using Cons by (simp add: Let_def)
qed simp

lemma checkArrivals_keeps: "keeps_cpu s (checkArrivals s)"
  by (simp add: checkArrivals_def checkArrivals_loop_keeps)

lemmas checkArrivals_frame [simp] = keeps_cpuD [OF checkArrivals_keeps]

lemma checkArrivals_ioQueue [simp]: "ioQueue (checkArrivals s) = ioQueue s"
  by (simp add: checkArrivals_def checkArrivals_loop_keeps)

lemma checkArrivals_inv: "sim_inv s \<Longrightarrow> sim_inv (checkArrivals s)"
  by (simp add: checkArrivals_def checkArrivals_loop_inv)

section \<open>The I/O queue\<close>

lemma inv_io_tick:
  assumes "sim_inv (s\<lparr>ioQueue := live @ p # ps\<rparr>)" "1 < IORemaining (heap s p)"
  shows "sim_inv (upd p (\<lambda>q. q\<lparr>IORemaining := i64 (IORemaining q - 1)\<rparr>) s\<lparr>ioQueue := (live @ [p]) @ ps\<rparr>)"
proof -
  have "i64 (IORemaining (heap s p) - 1) = IORemaining (heap s p) - 1"
    using assms by (intro i64_pred) (auto simp: sim_inv_def pwf_def)
  then show ?thesis using assms by (auto simp: sim_inv_def placed_def pwf_def)
qed

lemma inv_io_done:
  assumes "sim_inv (s\<lparr>ioQueue := live @ p # ps\<rparr>)"
  shows "sim_inv (upd p (\<lambda>q. q\<lparr>IORemaining := 0, State := StateReady\<rparr>) s
           \<lparr>readyQueue := readyQueue s @ [p], ioQueue := live @ ps\<rparr>)"
proof -
  have "p \<in> set (processes s)" "State (heap s p) = StateWaiting" "p \<notin> set (readyQueue s)"
    "p \<notin> set (live @ ps)" "currentProcess s \<noteq> Some p"
    using assms by (auto simp: sim_inv_def placed_def)
  then show ?thesis using assms by (auto simp: sim_inv_def placed_def pwf_def)
qed

lemma inv_io_positive:
  assumes "sim_inv (s\<lparr>ioQueue := live @ p # ps\<rparr>)"
  shows "0 < IORemaining (heap s p)" "IORemaining (heap s p) \<le> MaxInt64"
  using assms by (auto simp: sim_inv_def placed_def pwf_def)

text \<open>One iteration of the loop, with the intermediate writes merged.\<close>

definition io_done :: "addr \<Rightarrow> Simulator \<Rightarrow> Simulator" where
  "io_done p s =
     (let s = upd p (\<lambda>q. q\<lparr>IORemaining := 0, State := StateReady\<rparr>) s;
          s = s\<lparr>readyQueue := readyQueue s @ [p]\<rparr>;
          s = s\<lparr>scheduler := sched_AddProcess (scheduler s) (heap s) p\<rparr>
      in addEvent ''io_complete'' (PID (heap s p))
           (sprintf_d ''Process '' (PID (heap s p)) '' I/O complete, returning to ready queue'') s)"

definition io_tick :: "addr \<Rightarrow> Simulator \<Rightarrow> Simulator" where
  "io_tick p s = upd p (\<lambda>q. q\<lparr>IORemaining := i64 (IORemaining q - 1)\<rparr>) s"

lemma tickIOQueue_loop_Cons:
  "tickIOQueue_loop (p # ps) live s =
     (if i64 (IORemaining (heap s p) - 1) \<le> 0 then tickIOQueue_loop ps live (io_done p s)
      else tickIOQueue_loop ps (live @ [p]) (io_tick p s))"
  by (simp add: io_done_def io_tick_def upd_upd Let_def)

declare tickIOQueue_loop.simps(2) [simp del]

lemma io_done_frame [simp]:
  "heap (io_done p s) = (heap s)(p := heap s p\<lparr>IORemaining := 0, State := StateReady\<rparr>)"
  "readyQueue (io_done p s) = readyQueue s @ [p]" "ioQueue (io_done p s) = ioQueue s"
  "keeps_cpu s (io_done p s)"
  by (simp_all add: io_done_def keeps_cpu_def Let_def)

lemma io_tick_frame [simp]:
  "heap (io_tick p s) = (heap s)(p := heap s p\<lparr>IORemaining := i64 (IORemaining (heap s p) - 1)\<rparr>)"
  "readyQueue (io_tick p s) = readyQueue s" "keeps_cpu s (io_tick p s)"
  by (simp_all add: io_tick_def keeps_cpu_def)

lemma keeps_cpu_trans: "keeps_cpu s s' \<Longrightarrow> keeps_cpu s' s'' \<Longrightarrow> keeps_cpu s s''"
  by (simp add: keeps_cpu_def)

lemma tickIOQueue_loop_keeps: "keeps_cpu s (snd (tickIOQueue_loop ps live s))"
proof (induction ps arbitrary: live s)
  case (Cons p ps)
  show ?case
    using keeps_cpu_trans [OF io_done_frame(4) Cons.IH] keeps_cpu_trans [OF io_tick_frame(3) Cons.IH]
    by (simp add: tickIOQueue_loop_Cons)
qed (simp add: keeps_cpu_def)

lemma tickIOQueue_loop_inv:
  "sim_inv (s\<lparr>ioQueue := live @ ps\<rparr>) \<Longrightarrow>
   sim_inv (snd (tickIOQueue_loop ps live s)\<lparr>ioQueue := fst (tickIOQueue_loop ps live s)\<rparr>)"
proof (induction ps arbitrary: live s)
  case (Cons p ps)
  note r = inv_io_positive [OF Cons.prems]
  then have r1: "i64 (IORemaining (heap s p) - 1) = IORemaining (heap s p) - 1" by (rule i64_pred)
  show ?case
  proof (cases "IORemaining (heap s p) = 1")
    case True
    have "sched_ok (sched_AddProcess (scheduler s) (heap (io_done p s)) p)"
      using sched.AddProcess_ok [OF inv_sched_ok [OF Cons.prems]] by simp
    note inv_scheduler [OF inv_io_done [OF Cons.prems] this]
    then have "sim_inv (io_done p s\<lparr>ioQueue := live @ ps\<rparr>)"
      by (rule inv_cong [THEN iffD2, rotated -1]) (simp_all add: io_done_def Let_def)
    then show ?thesis using Cons.IH True by (simp add: tickIOQueue_loop_Cons)
  next
    case False
    with r have "1 < IORemaining (heap s p)" by simp
    from inv_io_tick [OF Cons.prems this] show ?thesis
      using Cons.IH \<open>1 < IORemaining (heap s p)\<close> by (simp add: tickIOQueue_loop_Cons r1 io_tick_def)
  qed
qed simp

lemma tickIOQueue_keeps: "keeps_cpu s (tickIOQueue s)"
  using tickIOQueue_loop_keeps [of s "ioQueue s" "[]"]
  by (simp add: tickIOQueue_def case_prod_beta keeps_cpu_def)

lemmas tickIOQueue_frame [simp] = keeps_cpuD [OF tickIOQueue_keeps]

lemma tickIOQueue_inv: "sim_inv s \<Longrightarrow> sim_inv (tickIOQueue s)"
  using tickIOQueue_loop_inv [where live = "[]" and ps = "ioQueue s"] by (simp add: tickIOQueue_def case_prod_beta)

section \<open>Choosing the process that runs\<close>

text \<open>
  \<open>start_on a sch s\<close> is what \<^verbatim>\<open>scheduleNextProcess\<close> does, with an idle CPU, once the scheduler
  has answered \<open>a\<close> and moved on to \<open>sch\<close>.
\<close>

definition start_on :: "addr \<Rightarrow> scheduler \<Rightarrow> Simulator \<Rightarrow> Simulator" where
  "start_on a sch s =
     (let s' = upd a (\<lambda>q. q\<lparr>State := StateRunning\<rparr>)
                 (s\<lparr>scheduler := sch, readyQueue := remove1 a (readyQueue s), currentProcess := Some a\<rparr>)
               \<lparr>timeQuantumUsed := 0\<rparr>
      in if \<not> HasStarted (heap s a)
         then addEvent ''start'' (PID (heap s a)) (sprintf_d ''Process '' (PID (heap s a)) '' started execution'') s'
         else addEvent ''resume'' (PID (heap s a)) (sprintf_d ''Process '' (PID (heap s a)) '' resumed execution'') s')"

lemma start_on_frame [simp]:
  "scheduler (start_on a sch s) = sch" "readyQueue (start_on a sch s) = remove1 a (readyQueue s)"
  "heap (start_on a sch s) = (heap s)(a := heap s a\<lparr>State := StateRunning\<rparr>)"
  "currentProcess (start_on a sch s) = Some a" "processes (start_on a sch s) = processes s"
  "ioQueue (start_on a sch s) = ioQueue s" "currentTime (start_on a sch s) = currentTime s"
  "ganttChart (start_on a sch s) = ganttChart s" "totalIdleTime (start_on a sch s) = totalIdleTime s"
  "timeQuantumUsed (start_on a sch s) = 0" "contextSwitches (start_on a sch s) = contextSwitches s"
  "sim_state (start_on a sch s) = sim_state s" "next_addr (start_on a sch s) = next_addr s"
  "speed (start_on a sch s) = speed s" "pauseChan (start_on a sch s) = pauseChan s"
  "stopChan (start_on a sch s) = stopChan s" "lastGanttUpdate (start_on a sch s) = lastGanttUpdate s"
  by (simp_all add: start_on_def Let_def)

lemma scheduleNextProcess_empty:
  "currentProcess s = None \<Longrightarrow> readyQueue s = [] \<Longrightarrow> scheduleNextProcess s = s"
  by (simp add: scheduleNextProcess_def)

lemma scheduleNextProcess_start:
  assumes "currentProcess s = None" "readyQueue s \<noteq> []"
  obtains a sch where
    "sched_Schedule (scheduler s) (heap s) (readyQueue s) (currentTime s) = (Some a, sch)"
    "a \<in> set (readyQueue s)" "sched_ok (scheduler s) \<Longrightarrow> sched_ok sch"
    "scheduleNextProcess s = start_on a sch s"
proof -
  obtain a sch where sel:
    "sched_Schedule (scheduler s) (heap s) (readyQueue s) (currentTime s) = (Some a, sch)"
    "a \<in> set (readyQueue s)" "sched_ok (scheduler s) \<Longrightarrow> sched_ok sch"
    using sched.next_process [OF assms(2)] by metis
  have "scheduleNextProcess s = start_on a sch s"
    using assms sel(1) by (simp add: scheduleNextProcess_def start_on_def Let_def upd_def)
  with sel that show ?thesis by blast
qed

lemma start_on_inv:
  assumes "sim_inv s" "currentProcess s = None" "a \<in> set (readyQueue s)" "sched_ok sch"
  shows "sim_inv (start_on a sch s)"
  using inv_scheduler [OF inv_take_cpu [OF assms(1-3)] assms(4)]
  by (rule inv_cong [THEN iffD2, rotated -1]) simp_all

text \<open>What a step of the engine leaves alone while it only moves processes between places.\<close>

definition only_moves :: "Simulator \<Rightarrow> Simulator \<Rightarrow> bool" where
  "only_moves s s' \<longleftrightarrow>
     processes s' = processes s \<and> currentTime s' = currentTime s \<and> ganttChart s' = ganttChart s \<and>
     totalIdleTime s' = totalIdleTime s \<and> sim_state s' = sim_state s \<and> ioQueue s' = ioQueue s \<and>
     (\<forall>a. (heap s' a)\<lparr>State := StateNew\<rparr> = (heap s a)\<lparr>State := StateNew\<rparr>)"

lemma eq_up_to_state:
  fixes p q :: process
  shows "q\<lparr>State := x\<rparr> = p\<lparr>State := x\<rparr> \<Longrightarrow> q = p\<lparr>State := State q\<rparr>"
  by (cases p, cases q) simp

lemma only_moves_refl [simp]: "only_moves s s"
  by (simp add: only_moves_def)

lemma only_moves_trans: "only_moves s s' \<Longrightarrow> only_moves s' s'' \<Longrightarrow> only_moves s s''"
  by (simp add: only_moves_def)

lemma only_movesD:
  assumes "only_moves s s'"
  shows "processes s' = processes s" "currentTime s' = currentTime s" "ganttChart s' = ganttChart s"
    "totalIdleTime s' = totalIdleTime s" "sim_state s' = sim_state s" "ioQueue s' = ioQueue s"
    "heap s' a = heap s a\<lparr>State := State (heap s' a)\<rparr>"
  using assms by (auto simp: only_moves_def intro: eq_up_to_state)

lemma scheduleNextProcess_inv:
  assumes "sim_inv s" "currentProcess s = None"
  shows "sim_inv (scheduleNextProcess s)" "only_moves s (scheduleNextProcess s)"
    "currentProcess (scheduleNextProcess s) = None \<Longrightarrow> readyQueue (scheduleNextProcess s) = []"
proof -
  have "sim_inv (scheduleNextProcess s) \<and> only_moves s (scheduleNextProcess s) \<and>
    (currentProcess (scheduleNextProcess s) = None \<longrightarrow> readyQueue (scheduleNextProcess s) = [])"
  proof (cases "readyQueue s = []")
    case True
    then show ?thesis using assms by (simp add: scheduleNextProcess_empty)
  next
    case False
    obtain a sch where "a \<in> set (readyQueue s)" "sched_ok (scheduler s) \<Longrightarrow> sched_ok sch"
      "scheduleNextProcess s = start_on a sch s"
      using scheduleNextProcess_start [OF assms(2) False] by metis
    then show ?thesis using assms start_on_inv inv_sched_ok by (simp add: only_moves_def)
  qed
  then show "sim_inv (scheduleNextProcess s)" "only_moves s (scheduleNextProcess s)"
    "currentProcess (scheduleNextProcess s) = None \<Longrightarrow> readyQueue (scheduleNextProcess s) = []"
    by blast+
qed

lemma preemptCurrentProcess_inv:
  assumes "sim_inv s" "currentProcess s = Some c"
  shows "sim_inv (preemptCurrentProcess s)" "only_moves s (preemptCurrentProcess s)"
    "currentProcess (preemptCurrentProcess s) = None"
    "readyQueue (preemptCurrentProcess s) = readyQueue s @ [c]"
    "heap (preemptCurrentProcess s) = (heap s)(c := heap s c\<lparr>State := StateReady\<rparr>)"
    "scheduler (preemptCurrentProcess s) = scheduler s"
proof -
  show "sim_inv (preemptCurrentProcess s)"
    using inv_release_cpu [OF assms]
    by (rule inv_cong [THEN iffD2, rotated -1]) (simp_all add: preemptCurrentProcess_def assms(2) Let_def)
qed (simp_all add: preemptCurrentProcess_def assms(2) Let_def only_moves_def)

text \<open>
  The choice never panics, keeps the invariant and is work-conserving: it leaves the CPU idle
  only when nothing is ready.
\<close>

lemma dispatch_inv:
  assumes "sim_inv s"
  obtains s' where "dispatch s = Some s'" "sim_inv s'" "only_moves s s'"
    "currentProcess s' = None \<Longrightarrow> readyQueue s' = []"
proof (cases "currentProcess s")
  case None
  then show ?thesis
    using that [of "scheduleNextProcess s"] scheduleNextProcess_inv [OF assms None]
    by (simp add: dispatch_def)
next
  case (Some c)
  note cur = inv_current [OF assms Some]
  have "shouldPreempt s \<noteq> None"
    unfolding shouldPreempt_def using cur(5) Some
    by (intro sched.Preempt_total [OF inv_sched_ok [OF assms]]) auto
  then obtain pre where pre: "shouldPreempt s = Some pre" by blast
  show ?thesis
  proof (cases pre)
    case True
    note p = preemptCurrentProcess_inv [OF assms Some]
    note n = scheduleNextProcess_inv [OF p(1,3)]
    show ?thesis
      using that [of "scheduleNextProcess (preemptCurrentProcess s)"] n only_moves_trans [OF p(2) n(2)]
        Some cur(8) pre True
      by (simp add: dispatch_def)
  next
    case False
    then show ?thesis using that [of s] assms Some cur(8) pre by (simp add: dispatch_def)
  qed
qed

section \<open>Executing the chosen process\<close>

lemma Execute_pwf:
  assumes "pwf p" "0 < RemainingTime p" "State p = StateRunning"
  obtains q where "Execute t 1 p = Some q" "pwf q" "RemainingTime q = RemainingTime p - 1"
    "State q = (if RemainingTime p = 1 then StateTerminated else StateRunning)"
    "IsComplete q \<longleftrightarrow> RemainingTime p = 1"
proof -
  have w: "0 < Weight p" and r: "RemainingTime p \<le> MaxInt64" using assms(1) by (auto simp: pwf_def)
  obtain q where q: "Execute t 1 p = Some q"
    using Execute_panics_iff [of t 1 p] w by fastforce
  note e = Execute_1 [OF w assms(2) r, of t, unfolded q Let_def]
  show ?thesis
    by (rule that [OF q]) (use assms e in \<open>auto simp: pwf_def IsComplete_def\<close>)
qed

lemma executeProcess_inv:
  assumes inv: "sim_inv s" and cur: "currentProcess s = Some c"
  obtains q s1 where "Execute (currentTime s) 1 (heap s c) = Some q" "executeProcess 1 s = Some s1"
    "sim_inv s1" "heap s1 = (heap s)(c := q)" "RemainingTime q = RemainingTime (heap s c) - 1"
    "currentProcess s1 = (if RemainingTime (heap s c) = 1 then None else Some c)"
    "processes s1 = processes s" "currentTime s1 = currentTime s" "readyQueue s1 = readyQueue s"
    "ioQueue s1 = ioQueue s" "totalIdleTime s1 = totalIdleTime s" "sim_state s1 = sim_state s"
    "timeQuantumUsed s1 = timeQuantumUsed s"
    "ganttChart s1 = ganttChart (addGanttEntry (PID (heap s c)) (Name (heap s c)) (currentTime s)
       (i64 (currentTime s + 1)) (Color (heap s c)) s)"
proof -
  note c = inv_current [OF inv cur]
  obtain q where q: "Execute (currentTime s) 1 (heap s c) = Some q" "pwf q"
    "RemainingTime q = RemainingTime (heap s c) - 1"
    "State q = (if RemainingTime (heap s c) = 1 then StateTerminated else StateRunning)"
    "IsComplete q \<longleftrightarrow> RemainingTime (heap s c) = 1"
    using Execute_pwf [OF c(2,4,3)] by metis
  note f = Execute_frame [OF q(1)]
  let ?s = "s\<lparr>heap := (heap s)(c := q)\<rparr>"
  let ?g = "addGanttEntry (PID q) (Name q) (currentTime s) (i64 (currentTime s + 1)) (Color q) ?s"
  define s1 where "s1 = (if IsComplete q
     then (addEvent ''complete'' (PID q) (sprintf_d ''Process '' (PID q) '' completed'') ?g)
            \<lparr>scheduler := sched_RemoveProcess (scheduler s) c, currentProcess := None\<rparr>
     else ?g)"
  have eq: "executeProcess 1 s = Some s1"
    by (simp add: executeProcess_def cur q(1) s1_def Let_def)
  have heap: "heap s1 = (heap s)(c := q)" and cp: "currentProcess s1 = (if RemainingTime (heap s c) = 1 then None else Some c)"
    and sch: "scheduler s1 = (if IsComplete q then sched_RemoveProcess (scheduler s) c else scheduler s)"
    and rest: "processes s1 = processes s" "currentTime s1 = currentTime s" "readyQueue s1 = readyQueue s"
      "ioQueue s1 = ioQueue s" "totalIdleTime s1 = totalIdleTime s" "sim_state s1 = sim_state s"
      "timeQuantumUsed s1 = timeQuantumUsed s"
    using cur q(5) by (simp_all add: s1_def)
  have "sched_ok (scheduler s1)"
    using inv_sched_ok [OF inv] sched.RemoveProcess_ok by (simp add: sch)
  then have "sim_inv s1"
    using inv c(1) cur q(2,4) f(3) c(3,7) by (auto simp: sim_inv_def placed_def heap cp rest)
  moreover have "ganttChart s1 = ganttChart (addGanttEntry (PID (heap s c)) (Name (heap s c)) (currentTime s)
       (i64 (currentTime s + 1)) (Color (heap s c)) s)"
    using f by (simp add: s1_def addGanttEntry_def)
  ultimately show ?thesis using that [OF q(1) eq _ heap q(3) cp] rest by blast
qed

section \<open>I/O bursts\<close>

text \<open>
  The parts of a process that moving between places and I/O bookkeeping do not touch, and
  the steps that change nothing else.
\<close>

definition strip :: "process \<Rightarrow> process" where
  "strip p = p\<lparr>State := StateNew, IOBursts := [], CurrentIOIndex := 0, IORemaining := 0\<rparr>"

lemma strip_eqD:
  assumes "strip q = strip p"
  shows "PID q = PID p" "Name q = Name p" "ArrivalTime q = ArrivalTime p" "BurstTime q = BurstTime p"
    "RemainingTime q = RemainingTime p" "Priority q = Priority p" "WaitingTime q = WaitingTime p"
    "VRuntime q = VRuntime p" "Weight q = Weight p" "HasStarted q = HasStarted p"
    "LastExecuted q = LastExecuted p" "Color q = Color p" "Nice q = Nice p"
    "StartTime q = StartTime p" "CompletionTime q = CompletionTime p"
    "TurnaroundTime q = TurnaroundTime p" "ResponseTime q = ResponseTime p" "TimeQuantum q = TimeQuantum p"
  using assms by (simp_all add: strip_def process.ext_inject [symmetric]) (cases p, cases q, simp)+

definition quiet :: "Simulator \<Rightarrow> Simulator \<Rightarrow> bool" where
  "quiet s s' \<longleftrightarrow>
     processes s' = processes s \<and> currentTime s' = currentTime s \<and> ganttChart s' = ganttChart s \<and>
     totalIdleTime s' = totalIdleTime s \<and> sim_state s' = sim_state s \<and>
     (\<forall>a. strip (heap s' a) = strip (heap s a))"

lemma quiet_refl [simp]: "quiet s s"
  by (simp add: quiet_def)

lemma quiet_trans: "quiet s s' \<Longrightarrow> quiet s' s'' \<Longrightarrow> quiet s s''"
  by (simp add: quiet_def)

lemma strip_State [simp]: "strip (p\<lparr>State := x\<rparr>) = strip p"
  by (simp add: strip_def)

lemma only_moves_quiet: "only_moves s s' \<Longrightarrow> quiet s s'"
proof -
  assume m: "only_moves s s'"
  have "strip (heap s' a) = strip (heap s a)" for a
    by (subst only_movesD(7) [OF m]) simp
  then show ?thesis using m by (simp add: quiet_def only_moves_def)
qed

text \<open>The CPU-time still owed to I/O: what is left of the current burst, and the open bursts ahead.\<close>

definition pending_io :: "IOBurst list \<Rightarrow> int" where
  "pending_io bs = (\<Sum>b\<leftarrow>bs. if Completed b then 0 else max 0 (Duration b))"

definition io_left :: "process \<Rightarrow> int" where
  "io_left p = IORemaining p + pending_io (drop (nat (CurrentIOIndex p)) (IOBursts p))"

lemma pending_io_nonneg: "0 \<le> pending_io bs"
  unfolding pending_io_def by (induction bs) auto

lemma pending_io_at:
  assumes "i < length bs"
  shows "pending_io (drop i bs) =
    (if Completed (bs ! i) then 0 else max 0 (Duration (bs ! i))) + pending_io (drop (Suc i) bs)"
  unfolding pending_io_def using assms by (simp add: Cons_nth_drop_Suc [symmetric])

text \<open>
  The outcome of the I/O check on the running process: it stays on the CPU, with at most its
  burst index advanced, or it moves to the I/O queue for the duration of the burst. The I/O it
  still owes is the same before and after.
\<close>

definition io_checked :: "addr \<Rightarrow> Simulator \<Rightarrow> Simulator \<Rightarrow> bool" where
  "io_checked p s s' \<longleftrightarrow>
     sim_inv s' \<and> quiet s s' \<and> scheduler s' = scheduler s \<and> readyQueue s' = readyQueue s \<and>
     (\<forall>a. a \<noteq> p \<longrightarrow> heap s' a = heap s a) \<and> io_left (heap s' p) = io_left (heap s p) \<and>
     (currentProcess s' = Some p \<and> ioQueue s' = ioQueue s \<and> timeQuantumUsed s' = timeQuantumUsed s \<or>
      currentProcess s' = None \<and> ioQueue s' = ioQueue s @ [p] \<and> timeQuantumUsed s' = 0)"

lemma inv_to_io:
  assumes inv: "sim_inv s" "currentProcess s = Some p" and idx: "0 \<le> CurrentIOIndex (heap s p)"
    and i: "nat (CurrentIOIndex (heap s p)) < length (IOBursts (heap s p))"
    and b: "b = IOBursts (heap s p) ! nat (CurrentIOIndex (heap s p))" "0 < Duration b"
  shows "sim_inv (upd p (\<lambda>q. q\<lparr>IOBursts := (IOBursts q)[nat (CurrentIOIndex (heap s p)) := b\<lparr>Completed := True\<rparr>],
             IORemaining := Duration b, CurrentIOIndex := CurrentIOIndex (heap s p) + 1, State := StateWaiting\<rparr>) s
           \<lparr>ioQueue := ioQueue s @ [p], currentProcess := None\<rparr>)"
proof -
  note c = inv_current [OF inv]
  have mem: "b \<in> set (IOBursts (heap s p))" using i b(1) by simp
  then have d: "Duration b \<le> MaxInt64" using c(2) by (auto simp: pwf_def)
  have bs: "\<forall>b'\<in>set ((IOBursts (heap s p))[nat (CurrentIOIndex (heap s p)) := b\<lparr>Completed := True\<rparr>]).
      Duration b' \<le> MaxInt64"
    using c(2) d set_update_subset_insert [of "IOBursts (heap s p)" _ "b\<lparr>Completed := True\<rparr>"]
    by (fastforce simp: pwf_def)
  have "p \<notin> set (ioQueue s)" "p \<notin> set (readyQueue s)"
    using inv c(1,3) by (auto simp: sim_inv_def placed_def)
  then show ?thesis using inv c(1-4,7) idx b(2) d bs
    by (auto simp: sim_inv_def placed_def pwf_def)
qed

lemma inv_next_burst:
  assumes "sim_inv s" "0 \<le> i"
  shows "sim_inv (upd p (\<lambda>q. q\<lparr>CurrentIOIndex := i\<rparr>) s)"
  using assms by (auto simp: sim_inv_def placed_def pwf_def)

lemma checkIOBurst_loop_inv:
  "sim_inv s \<Longrightarrow> currentProcess s = Some p \<Longrightarrow>
   \<exists>s'. checkIOBurst_loop p cpuUsed s = Some s' \<and> io_checked p s s'"
proof (induction p cpuUsed s rule: checkIOBurst_loop.induct)
  case (1 p cpuUsed s)
  let ?q = "heap s p" and ?i = "CurrentIOIndex (heap s p)"
  let ?b = "IOBursts ?q ! nat ?i"
  note c = inv_current [OF "1.prems"]
  have i: "0 \<le> ?i" and r0: "IORemaining ?q = 0" using c(2,3) by (auto simp: pwf_def)
  have stay: "io_checked p s s"
    using "1.prems" by (simp add: io_checked_def)
  show ?case
  proof (cases "?i < int (length (IOBursts ?q))")
    case False
    then show ?thesis using stay by (simp add: checkIOBurst_loop.simps [of p])
  next
    case True
    then have n: "nat ?i < length (IOBursts ?q)" using i by simp
    have suc: "nat (?i + 1) = Suc (nat ?i)" using i by simp
    show ?thesis
    proof (cases "Completed ?b")
      case comp: True
      let ?s = "upd p (\<lambda>q. q\<lparr>CurrentIOIndex := ?i + 1\<rparr>) s"
      have "\<exists>s'. checkIOBurst_loop p cpuUsed ?s = Some s' \<and> io_checked p ?s s'"
        using True i comp "1.prems" inv_next_burst by (intro "1.IH" [OF refl]) auto
      then obtain s' where s': "checkIOBurst_loop p cpuUsed ?s = Some s'" "io_checked p ?s s'" by blast
      have "io_left (heap ?s p) = io_left ?q"
        using comp n by (simp add: io_left_def suc pending_io_at)
      moreover have "quiet s ?s" by (simp add: quiet_def strip_def)
      ultimately have "io_checked p s s'"
        using s'(2) quiet_trans by (auto simp: io_checked_def)
      then show ?thesis using s'(1) True i comp by (simp add: checkIOBurst_loop.simps [of p _ s])
    next
      case open_: False
      show ?thesis
      proof (cases "AfterCPUTime ?b \<le> cpuUsed \<and> 0 < Duration ?b")
        case False
        have "\<not> ?i < 0" using i by simp
        then have "checkIOBurst_loop p cpuUsed s = Some s"
          by (subst checkIOBurst_loop.simps) (simp only: Let_def True open_ False if_True if_False)
        then show ?thesis using stay by blast
      next
        case start: True
        let ?s = "upd p (\<lambda>q. q\<lparr>IOBursts := (IOBursts q)[nat ?i := ?b\<lparr>Completed := True\<rparr>],
             IORemaining := Duration ?b, CurrentIOIndex := ?i + 1, State := StateWaiting\<rparr>) s
             \<lparr>ioQueue := ioQueue s @ [p]\<rparr>"
        let ?s' = "addEvent ''io_start'' (PID (heap ?s p)) (sprintf_d ''Process '' (PID (heap ?s p))
             (sprintf_d '' started I/O (duration='' (Duration ?b) '')'')) ?s
             \<lparr>currentProcess := None, timeQuantumUsed := 0\<rparr>"
        have eq: "checkIOBurst_loop p cpuUsed s = Some ?s'"
          using start True i open_ by (simp add: checkIOBurst_loop.simps [of p _ s] Let_def)
        from inv_to_io [OF "1.prems" i n refl conjunct2 [OF start]] have "sim_inv ?s'"
          by (rule inv_cong [THEN iffD2, rotated -1]) simp_all
        moreover have "io_left (heap ?s' p) = io_left ?q"
          using open_ start n r0 by (simp add: io_left_def suc pending_io_at)
        ultimately have "io_checked p s ?s'" by (simp add: io_checked_def quiet_def strip_def)
        then show ?thesis using eq by blast
      qed
    qed
  qed
qed

lemma checkIOBurst_inv:
  assumes "sim_inv s"
  obtains s' where "checkIOBurst s = Some s'" "sim_inv s'" "quiet s s'"
    "currentProcess s = None \<Longrightarrow> s' = s"
    "\<And>c. currentProcess s = Some c \<Longrightarrow> io_checked c s s'"
proof (cases "currentProcess s")
  case None
  then show ?thesis using that [of s] assms by (simp add: checkIOBurst_def)
next
  case (Some c)
  obtain s' where s': "checkIOBurst_loop c (i64 (BurstTime (heap s c) - RemainingTime (heap s c))) s = Some s'"
      "io_checked c s s'"
    using checkIOBurst_loop_inv [OF assms Some] by blast
  then show ?thesis
    using that [of s'] inv_current(8) [OF assms Some] Some by (simp add: checkIOBurst_def io_checked_def)
qed

section \<open>Quantum expiry and waiting times\<close>

definition expire :: "addr \<Rightarrow> Simulator \<Rightarrow> Simulator" where
  "expire c s =
     (let s = s\<lparr>scheduler := sched_OnQuantumExpired (scheduler s) (Some c)\<rparr>;
          s = addEvent ''quantum_expire'' (PID (heap s c))
                (sprintf_d ''Process '' (PID (heap s c)) '' time quantum expired'') s;
          s = s\<lparr>contextSwitches := i64 (contextSwitches s + 1)\<rparr>;
          s = upd c (\<lambda>q. q\<lparr>State := StateReady\<rparr>) s;
          s = s\<lparr>readyQueue := readyQueue s @ [c]\<rparr>
      in s\<lparr>currentProcess := None, timeQuantumUsed := 0\<rparr>)"

lemma expire_frame [simp]:
  "heap (expire c s) = (heap s)(c := heap s c\<lparr>State := StateReady\<rparr>)"
  "readyQueue (expire c s) = readyQueue s @ [c]" "currentProcess (expire c s) = None"
  "scheduler (expire c s) = sched_OnQuantumExpired (scheduler s) (Some c)"
  "processes (expire c s) = processes s" "ioQueue (expire c s) = ioQueue s"
  "currentTime (expire c s) = currentTime s" "ganttChart (expire c s) = ganttChart s"
  "totalIdleTime (expire c s) = totalIdleTime s" "sim_state (expire c s) = sim_state s"
  "timeQuantumUsed (expire c s) = 0"
  by (simp_all add: expire_def Let_def)

lemma expire_inv:
  assumes "sim_inv s" "currentProcess s = Some c"
  shows "sim_inv (expire c s)"
  using inv_scheduler [OF inv_release_cpu [OF assms] sched.OnQuantumExpired_ok [OF inv_sched_ok [OF assms(1)]]]
  by (rule inv_cong [THEN iffD2, rotated -1]) simp_all

definition quantum_expired :: "Simulator \<Rightarrow> addr \<Rightarrow> bool" where
  "quantum_expired s c \<longleftrightarrow>
     (case sched_QuantumFor (scheduler s) (Some c) of
        None \<Rightarrow> False | Some n \<Rightarrow> 0 < n \<and> n \<le> timeQuantumUsed s)"

lemma checkQuantum_eq:
  assumes "sim_inv s"
  shows "checkQuantum s = Some (case currentProcess s of None \<Rightarrow> s
           | Some c \<Rightarrow> if quantum_expired s c then scheduleNextProcess (expire c s) else s)"
proof (cases "currentProcess s")
  case (Some c)
  obtain n where "sched_QuantumFor (scheduler s) (Some c) = Some n"
    using sched.QuantumFor_total [OF inv_sched_ok [OF assms]] by blast
  then show ?thesis using Some inv_current(8) [OF assms Some]
    by (simp add: checkQuantum_def quantum_expired_def expire_def Let_def)
qed (simp add: checkQuantum_def)

lemma checkQuantum_inv:
  assumes "sim_inv s"
  obtains s' where "checkQuantum s = Some s'" "sim_inv s'" "only_moves s s'"
    "currentProcess s = None \<Longrightarrow> s' = s"
proof (cases "\<exists>c. currentProcess s = Some c \<and> quantum_expired s c")
  case True
  then obtain c where c: "currentProcess s = Some c" "quantum_expired s c" by blast
  note e = expire_inv [OF assms c(1)]
  note n = scheduleNextProcess_inv [OF e expire_frame(3)]
  have "only_moves s (expire c s)" by (simp add: only_moves_def)
  then show ?thesis
    using that [of "scheduleNextProcess (expire c s)"] n(1) only_moves_trans [OF _ n(2)] c checkQuantum_eq [OF assms]
    by simp
next
  case False
  then show ?thesis
    using that [of s] assms checkQuantum_eq [OF assms] by (auto split: option.splits)
qed

lemma updateWaiting_frame [simp]:
  "scheduler (updateWaiting ps s) = scheduler s \<and> processes (updateWaiting ps s) = processes s \<and>
   readyQueue (updateWaiting ps s) = readyQueue s \<and> ioQueue (updateWaiting ps s) = ioQueue s \<and>
   currentProcess (updateWaiting ps s) = currentProcess s \<and> currentTime (updateWaiting ps s) = currentTime s \<and>
   ganttChart (updateWaiting ps s) = ganttChart s \<and> events (updateWaiting ps s) = events s \<and>
   totalIdleTime (updateWaiting ps s) = totalIdleTime s \<and> sim_state (updateWaiting ps s) = sim_state s \<and>
   contextSwitches (updateWaiting ps s) = contextSwitches s \<and>
   timeQuantumUsed (updateWaiting ps s) = timeQuantumUsed s \<and>
   (\<forall>a. (heap (updateWaiting ps s) a)\<lparr>WaitingTime := 0\<rparr> = (heap s a)\<lparr>WaitingTime := 0\<rparr>)"
  by (induction ps arbitrary: s) simp_all

lemma eq_up_to_waiting:
  fixes p q :: process
  shows "q\<lparr>WaitingTime := x\<rparr> = p\<lparr>WaitingTime := x\<rparr> \<Longrightarrow> q = p\<lparr>WaitingTime := WaitingTime q\<rparr>"
  by (cases p, cases q) simp

lemma updateWaiting_heap:
  "heap (updateWaiting ps s) a = heap s a\<lparr>WaitingTime := WaitingTime (heap (updateWaiting ps s) a)\<rparr>"
  by (rule eq_up_to_waiting [where x = 0]) simp

lemma pwf_WaitingTime [simp]: "pwf (p\<lparr>WaitingTime := x\<rparr>) = pwf p"
  by (simp add: pwf_def)

lemma updateWaiting_inv: "sim_inv (updateWaiting ps s) = sim_inv s"
proof -
  have "pwf (heap (updateWaiting ps s) a) = pwf (heap s a)"
    "State (heap (updateWaiting ps s) a) = State (heap s a)"
    "ArrivalTime (heap (updateWaiting ps s) a) = ArrivalTime (heap s a)" for a
    by (subst updateWaiting_heap, simp)+
  then show ?thesis by (simp add: sim_inv_def placed_def)
qed

end
