(* ===== verification/Engine_Frame.thy ===== *)
theory Engine_Frame
  imports Engine_Inv
begin

text \<open>
  What a tick never changes: the set of processes and their configuration (all that
  \<^verbatim>\<open>Reset\<close> goes back to), objects that are not processes of this simulator, the configuration
  of the scheduler, and the control fields.
\<close>

definition static :: "Simulator \<Rightarrow> Simulator \<Rightarrow> bool" where
  "static s s' \<longleftrightarrow>
     processes s' = processes s \<and> next_addr s' = next_addr s \<and> speed s' = speed s \<and>
     pauseChan s' = pauseChan s \<and> stopChan s' = stopChan s \<and> lastGanttUpdate s' = lastGanttUpdate s \<and>
     sim_state s' = sim_state s \<and> sched_config (scheduler s') = sched_config (scheduler s) \<and>
     (\<forall>a. resetProcess (heap s' a) = resetProcess (heap s a)) \<and>
     (\<forall>a. a \<notin> set (processes s) \<longrightarrow> heap s' a = heap s a)"

lemma static_refl [simp]: "static s s"
  by (simp add: static_def)

lemma static_trans: "static s s' \<Longrightarrow> static s' s'' \<Longrightarrow> static s s''"
  by (simp add: static_def)

text \<open>The writes that the engine makes, and that none of them touches the configuration.\<close>

lemma resetProcess_upds [simp]:
  "resetProcess (q\<lparr>State := x\<rparr>) = resetProcess q"
  "resetProcess (q\<lparr>IORemaining := n\<rparr>) = resetProcess q"
  "resetProcess (q\<lparr>CurrentIOIndex := n\<rparr>) = resetProcess q"
  "resetProcess (q\<lparr>WaitingTime := n\<rparr>) = resetProcess q"
  by (simp_all add: resetProcess_def)

lemma resetProcess_complete_burst [simp]:
  assumes "i < length (IOBursts q)" "b = IOBursts q ! i"
  shows "resetProcess (q\<lparr>IOBursts := (IOBursts q)[i := b\<lparr>Completed := True\<rparr>]\<rparr>) = resetProcess q"
proof -
  have "map (\<lambda>b. b\<lparr>Completed := False\<rparr>) ((IOBursts q)[i := b\<lparr>Completed := True\<rparr>]) =
      map (\<lambda>b. b\<lparr>Completed := False\<rparr>) (IOBursts q)"
    by (rule nth_equalityI) (use assms in \<open>auto simp: nth_list_update\<close>)
  then show ?thesis by (simp add: resetProcess_def)
qed

lemma resetProcess_Execute:
  assumes "Execute t d p = Some q"
  shows "resetProcess q = resetProcess p"
  using assms by (auto simp: Execute_def Let_def go_div_def resetProcess_def split: if_splits)

lemma static_addEvent [simp]: "static s (addEvent e i d s') = static s s'"
  by (simp add: static_def)

lemma static_addGanttEntry [simp]: "static s (addGanttEntry i n b c d s') = static s s'"
  by (simp add: static_def)

lemma static_fields [simp]:
  "static s (s'\<lparr>currentTime := t\<rparr>) = static s s'" "static s (s'\<lparr>timeQuantumUsed := t\<rparr>) = static s s'"
  "static s (s'\<lparr>totalIdleTime := t\<rparr>) = static s s'" "static s (s'\<lparr>contextSwitches := t\<rparr>) = static s s'"
  "static s (s'\<lparr>readyQueue := q\<rparr>) = static s s'" "static s (s'\<lparr>ioQueue := q\<rparr>) = static s s'"
  "static s (s'\<lparr>currentProcess := c\<rparr>) = static s s'"
  by (simp_all add: static_def)

lemma static_scheduler:
  "static s s' \<Longrightarrow> sched_config sch = sched_config (scheduler s') \<Longrightarrow> static s (s'\<lparr>scheduler := sch\<rparr>)"
  by (simp add: static_def)

lemma static_upd:
  "static s s' \<Longrightarrow> p \<in> set (processes s) \<Longrightarrow> resetProcess (f (heap s' p)) = resetProcess (heap s' p) \<Longrightarrow>
   static s (upd p f s')"
  by (simp add: static_def)

lemmas static_intros = static_upd static_scheduler static_refl
  replay.AddProcess_config replay.RemoveProcess_config replay.OnQuantumExpired_config

lemma checkArrivals_loop_static:
  "set ps \<subseteq> set (processes s) \<Longrightarrow> static s (checkArrivals_loop ps s)"
proof (induction ps arbitrary: s)
  case (Cons p ps)
  let ?s = "if ArrivalTime (heap s p) \<le> currentTime s \<and> State (heap s p) = StateNew
        then let s = upd p (\<lambda>q. q\<lparr>State := StateReady\<rparr>) s;
                 s = s\<lparr>readyQueue := readyQueue s @ [p]\<rparr>;
                 s = s\<lparr>scheduler := sched_AddProcess (scheduler s) (heap s) p\<rparr>
             in addEvent ''arrival'' (PID (heap s p)) (sprintf_d ''Process '' (PID (heap s p)) '' arrived'') s
        else s"
  have 1: "static s ?s"
    using Cons.prems by (auto simp: Let_def intro!: static_intros)
  then have "static ?s (checkArrivals_loop ps ?s)"
    using Cons.prems by (intro Cons.IH) (auto simp: static_def)
  with 1 show ?case unfolding checkArrivals_loop.simps by (rule static_trans)
qed simp

lemma checkArrivals_static: "static s (checkArrivals s)"
  unfolding checkArrivals_def by (rule checkArrivals_loop_static) simp

lemma io_step_static:
  assumes "p \<in> set (processes s)"
  shows "static s (io_done p s)" "static s (io_tick p s)"
  using assms by (auto simp: io_done_def io_tick_def Let_def intro!: static_intros)

lemma tickIOQueue_loop_static:
  "set ps \<subseteq> set (processes s) \<Longrightarrow> static s (snd (tickIOQueue_loop ps live s))"
proof (induction ps arbitrary: live s)
  case (Cons p ps)
  then have p: "static s (io_done p s)" "static s (io_tick p s)"
    by (simp_all add: io_step_static)
  then have "set ps \<subseteq> set (processes (io_done p s))" "set ps \<subseteq> set (processes (io_tick p s))"
    using Cons.prems by (auto simp: static_def)
  from p Cons.IH [OF this(1)] Cons.IH [OF this(2)] show ?case
    by (auto simp only: tickIOQueue_loop_Cons split: if_splits intro: static_trans)
qed simp

lemma tickIOQueue_static: "sim_inv s \<Longrightarrow> static s (tickIOQueue s)"
  using tickIOQueue_loop_static [of "ioQueue s" s "[]"]
  by (simp add: tickIOQueue_def case_prod_beta sim_inv_def)

lemma start_on_static:
  assumes "a \<in> set (processes s)" "sched_config sch = sched_config (scheduler s)"
  shows "static s (start_on a sch s)"
  using assms by (simp add: static_def)

lemma scheduleNextProcess_static:
  assumes "sim_inv s" "currentProcess s = None"
  shows "static s (scheduleNextProcess s)"
proof (cases "readyQueue s = []")
  case False
  obtain a sch where sel: "sched_Schedule (scheduler s) (heap s) (readyQueue s) (currentTime s) = (Some a, sch)"
      "a \<in> set (readyQueue s)" "scheduleNextProcess s = start_on a sch s"
    using scheduleNextProcess_start [OF assms(2) False] by metis
  have "a \<in> set (processes s)" using assms(1) sel(2) by (auto simp: sim_inv_def)
  moreover have "sched_config sch = sched_config (scheduler s)"
    using replay.Schedule_config [of "scheduler s" "heap s" "readyQueue s" "currentTime s"] sel(1) by simp
  ultimately show ?thesis unfolding sel(3) by (rule start_on_static)
qed (simp add: scheduleNextProcess_def)

lemma preemptCurrentProcess_static:
  assumes "sim_inv s" "currentProcess s = Some c"
  shows "static s (preemptCurrentProcess s)"
  using assms(2) inv_current(1) [OF assms]
  by (auto simp: preemptCurrentProcess_def Let_def intro!: static_intros)

lemma dispatch_static:
  assumes "sim_inv s" "dispatch s = Some s'"
  shows "static s s'"
proof (cases "currentProcess s")
  case None
  then show ?thesis using assms scheduleNextProcess_static [OF assms(1)] by (simp add: dispatch_def)
next
  case (Some c)
  note p = preemptCurrentProcess_inv [OF assms(1) Some]
  show ?thesis
    using assms(2) Some inv_current(8) [OF assms(1) Some] preemptCurrentProcess_static [OF assms(1) Some]
      scheduleNextProcess_static [OF p(1,3)]
    by (auto simp: dispatch_def bind_eq_Some_conv intro: static_trans)
qed

lemma executeProcess_static:
  assumes "sim_inv s" "executeProcess 1 s = Some s'"
  shows "static s s'"
proof (cases "currentProcess s")
  case (Some c)
  obtain q where "Execute (currentTime s) 1 (heap s c) = Some q"
    using executeProcess_inv [OF assms(1) Some] by blast
  note q = this resetProcess_Execute [OF this]
  have "static s (s\<lparr>heap := (heap s)(c := q)\<rparr>)"
    using q(2) inv_current(1) [OF assms(1) Some] by (auto simp: static_def)
  then show ?thesis using assms(2) Some q(1)
    by (auto simp: executeProcess_def Let_def replay.RemoveProcess_config intro!: static_scheduler)
qed (use assms in \<open>simp add: executeProcess_def\<close>)

lemma checkIOBurst_loop_static:
  "p \<in> set (processes s) \<Longrightarrow> checkIOBurst_loop p cpuUsed s = Some s' \<Longrightarrow> static s s'"
proof (induction p cpuUsed s rule: checkIOBurst_loop.induct)
  case (1 p cpuUsed s)
  let ?q = "heap s p" and ?i = "CurrentIOIndex (heap s p)"
  let ?b = "IOBursts ?q ! nat ?i"
  have r: "resetProcess (?q\<lparr>IOBursts := (IOBursts ?q)[nat ?i := ?b\<lparr>Completed := True\<rparr>],
      IORemaining := Duration ?b, CurrentIOIndex := ?i + 1, State := StateWaiting\<rparr>) = resetProcess ?q"
    if "\<not> ?i < 0" "?i < int (length (IOBursts ?q))"
    using that by simp
  have adv: "static s (upd p (\<lambda>q. q\<lparr>CurrentIOIndex := ?i + 1\<rparr>) s)"
    using "1.prems"(1) by (auto intro!: static_intros)
  consider "?i < int (length (IOBursts ?q)) \<and> \<not> ?i < 0 \<and> Completed ?b" | "s' = s"
    | "?i < int (length (IOBursts ?q)) \<and> \<not> ?i < 0 \<and> \<not> Completed ?b \<and> AfterCPUTime ?b \<le> cpuUsed \<and> 0 < Duration ?b"
    using "1.prems"(2) by (subst (asm) checkIOBurst_loop.simps) (auto simp: Let_def split: if_splits)
  then show ?case
  proof cases
    case 1
    then have "static (upd p (\<lambda>q. q\<lparr>CurrentIOIndex := ?i + 1\<rparr>) s) s'"
      using "1.prems" by (intro "1.IH" [OF refl]) (auto simp: checkIOBurst_loop.simps [of p cpuUsed s])
    with adv show ?thesis by (rule static_trans)
  next
    case 3
    then show ?thesis using "1.prems" r
      by (auto simp: checkIOBurst_loop.simps [of p cpuUsed s] Let_def intro!: static_intros)
  qed simp
qed

lemma checkIOBurst_static:
  assumes "sim_inv s" "checkIOBurst s = Some s'"
  shows "static s s'"
proof (cases "currentProcess s")
  case (Some c)
  then show ?thesis
    using assms(2) inv_current(1,8) [OF assms(1) Some]
    by (auto simp: checkIOBurst_def intro: checkIOBurst_loop_static)
qed (use assms in \<open>simp add: checkIOBurst_def\<close>)

lemma expire_static: "c \<in> set (processes s) \<Longrightarrow> static s (expire c s)"
  by (auto simp: expire_def Let_def intro!: static_intros)

lemma checkQuantum_static:
  assumes "sim_inv s" "checkQuantum s = Some s'"
  shows "static s s'"
proof (cases "currentProcess s")
  case (Some c)
  note e = expire_inv [OF assms(1) Some]
  show ?thesis
    using assms(2) Some expire_static [OF inv_current(1) [OF assms(1) Some]]
      scheduleNextProcess_static [OF e expire_frame(3)]
    by (auto simp: checkQuantum_eq [OF assms(1)] intro: static_trans split: if_splits)
qed (use assms in \<open>simp add: checkQuantum_def\<close>)

lemma updateWaiting_static:
  "set ps \<subseteq> set (processes s) \<Longrightarrow> static s (updateWaiting ps s)"
proof (induction ps arbitrary: s)
  case (Cons p ps)
  let ?s = "if State (heap s p) = StateReady \<and>
           (case currentProcess s of None \<Rightarrow> True | Some c \<Rightarrow> PID (heap s p) \<noteq> PID (heap s c))
        then upd p (\<lambda>q. q\<lparr>WaitingTime := i64 (WaitingTime q + 1)\<rparr>) s else s"
  have 1: "static s ?s" using Cons.prems by (auto intro!: static_intros)
  then have "static ?s (updateWaiting ps ?s)" using Cons.prems by (intro Cons.IH) (auto simp: static_def)
  with 1 show ?case unfolding updateWaiting.simps by (rule static_trans)
qed simp

end
