(* ===== verification/Engine_Tick.thy ===== *)
theory Engine_Tick
  imports Engine_Frame
begin

text \<open>
  A whole tick of the engine: its two shapes, and what a run of ticks keeps.
\<close>

section \<open>A whole tick\<close>

lemma keeps_cpu_quiet:
  assumes "keeps_cpu s s'" "\<And>a. strip (heap s' a) = strip (heap s a)"
  shows "quiet s s'"
  using assms by (simp add: quiet_def keeps_cpu_def)

lemma checkArrivals_loop_strip: "strip (heap (checkArrivals_loop ps s) a) = strip (heap s a)"
proof (induction ps arbitrary: s)
  case (Cons p ps)
  show ?case unfolding checkArrivals_loop.simps Cons.IH by (simp add: Let_def)
qed simp

lemma checkArrivals_quiet: "quiet s (checkArrivals s)"
  by (rule keeps_cpu_quiet [OF checkArrivals_keeps]) (simp add: checkArrivals_def checkArrivals_loop_strip)

lemma tickIOQueue_loop_strip: "strip (heap (snd (tickIOQueue_loop ps live s)) a) = strip (heap s a)"
proof (induction ps arbitrary: live s)
  case (Cons p ps)
  have "strip (heap (io_done p s) a) = strip (heap s a)" "strip (heap (io_tick p s) a) = strip (heap s a)"
    by (simp_all add: strip_def)
  then show ?case using Cons.IH [of live "io_done p s"] Cons.IH [of "live @ [p]" "io_tick p s"]
    by (simp only: tickIOQueue_loop_Cons if_distrib if_distribR if_cancel simp_thms)
qed simp

lemma tickIOQueue_quiet: "quiet s (tickIOQueue s)"
  by (rule keeps_cpu_quiet [OF tickIOQueue_keeps])
    (simp add: tickIOQueue_def case_prod_beta tickIOQueue_loop_strip)

text \<open>The state from which the engine chooses who runs.\<close>

abbreviation settled :: "Simulator \<Rightarrow> Simulator" where
  "settled s \<equiv> tickIOQueue (checkArrivals s)"

lemma settled_inv: "sim_inv s \<Longrightarrow> sim_inv (settled s)"
  by (simp add: checkArrivals_inv tickIOQueue_inv)

lemma settled_quiet: "quiet s (settled s)"
  using quiet_trans [OF checkArrivals_quiet tickIOQueue_quiet] .

lemma inv_advance:
  "sim_inv s \<Longrightarrow> currentTime s < MaxInt64 \<Longrightarrow> sim_inv (s\<lparr>currentTime := currentTime s + 1\<rparr>)"
  unfolding sim_inv_def placed_def by (auto intro: order_trans)

lemma settled_static: "sim_inv s \<Longrightarrow> static s (settled s)"
  using static_trans [OF checkArrivals_static tickIOQueue_static [OF checkArrivals_inv]] .

text \<open>
  The two shapes of a tick. Either nothing is ready and one idle unit passes, or the chosen
  process executes one unit, may leave for I/O, and may lose the CPU to quantum expiry.
\<close>

lemma tick_cases [consumes 2, case_names idle busy]:
  assumes inv: "sim_inv s" and t: "currentTime s < MaxInt64"
  obtains (idle) s3 s' where
      "dispatch (settled s) = Some s3" "sim_inv s3" "only_moves (settled s) s3"
      "currentProcess s3 = None" "readyQueue s3 = []" "executeTimeUnit s = Some s'" "sim_inv s'"
      "s' = (addGanttEntry (-1) ''IDLE'' (currentTime s) (currentTime s + 1) ''#2C3E50''
               (s3\<lparr>totalIdleTime := i64 (totalIdleTime s + 1)\<rparr>))\<lparr>currentTime := currentTime s + 1\<rparr>"
      "static s s'"
  | (busy) s3 c q s4 s5 s6 s' where
      "dispatch (settled s) = Some s3" "sim_inv s3" "only_moves (settled s) s3"
      "currentProcess s3 = Some c" "Execute (currentTime s) 1 (heap s3 c) = Some q"
      "heap s4 = (heap s3)(c := q)" "RemainingTime q = RemainingTime (heap s3 c) - 1" "sim_inv s4"
      "processes s4 = processes s" "totalIdleTime s4 = totalIdleTime s" "sim_state s4 = sim_state s"
      "currentTime s4 = currentTime s"
      "currentProcess s4 = (if RemainingTime (heap s3 c) = 1 then None else Some c)"
      "ganttChart s4 = ganttChart (addGanttEntry (PID (heap s c)) (Name (heap s c)) (currentTime s)
         (currentTime s + 1) (Color (heap s c)) s)"
      "quiet s4 s5" "sim_inv s5" "s5 = s4 \<or> io_checked c s4 s5"
      "only_moves s5 s6" "sim_inv s6" "executeTimeUnit s = Some s'" "sim_inv s'"
      "s' = updateWaiting (readyQueue s6) (s6\<lparr>currentTime := currentTime s + 1\<rparr>)" "static s s'"
      "\<exists>e. executeProcess 1 s3 = Some e \<and> s4 = e\<lparr>timeQuantumUsed := i64 (timeQuantumUsed s3 + 1)\<rparr>"
      "checkIOBurst s4 = Some s5" "checkQuantum s5 = Some s6"
proof -
  obtain s3 where s3: "dispatch (settled s) = Some s3" "sim_inv s3" "only_moves (settled s) s3"
    "currentProcess s3 = None \<Longrightarrow> readyQueue s3 = []"
    using dispatch_inv [OF settled_inv [OF inv]] by metis
  have q3: "quiet s s3" using quiet_trans [OF settled_quiet only_moves_quiet [OF s3(3)]] .
  then have time: "currentTime s3 = currentTime s" and fr: "totalIdleTime s3 = totalIdleTime s"
    "processes s3 = processes s" "sim_state s3 = sim_state s" "ganttChart s3 = ganttChart s"
    by (simp_all add: quiet_def)
  have st3: "static s s3"
    using static_trans [OF settled_static [OF inv] dispatch_static [OF settled_inv [OF inv] s3(1)]] .
  have t1: "i64 (currentTime s + 1) = currentTime s + 1"
    using inv t by (intro i64_succ) (auto simp: sim_inv_def)
  show ?thesis
  proof (cases "currentProcess s3")
    case None
    let ?g = "addGanttEntry (-1) ''IDLE'' (currentTime s) (currentTime s + 1) ''#2C3E50''
                (s3\<lparr>totalIdleTime := i64 (totalIdleTime s + 1)\<rparr>)"
    have ex: "executeTimeUnit s = Some (?g\<lparr>currentTime := currentTime s + 1\<rparr>)"
      using s3 None by (simp add: executeTimeUnit_def runOrIdle_def time fr t1)
    have "sim_inv (?g\<lparr>currentTime := currentTime s + 1\<rparr>)"
      using inv_advance [of ?g] s3(2) t by (simp add: time)
    with idle [OF s3(1-3) None s3(4) [OF None] ex] st3 show ?thesis by simp
  next
    case (Some c)
    obtain q s4 where s4: "Execute (currentTime s3) 1 (heap s3 c) = Some q" "executeProcess 1 s3 = Some s4"
      "sim_inv s4" "heap s4 = (heap s3)(c := q)" "RemainingTime q = RemainingTime (heap s3 c) - 1"
      "currentProcess s4 = (if RemainingTime (heap s3 c) = 1 then None else Some c)"
      "processes s4 = processes s3" "currentTime s4 = currentTime s3" "readyQueue s4 = readyQueue s3"
      "ioQueue s4 = ioQueue s3" "totalIdleTime s4 = totalIdleTime s3" "sim_state s4 = sim_state s3"
      "timeQuantumUsed s4 = timeQuantumUsed s3"
      "ganttChart s4 = ganttChart (addGanttEntry (PID (heap s3 c)) (Name (heap s3 c)) (currentTime s3)
         (i64 (currentTime s3 + 1)) (Color (heap s3 c)) s3)"
      by (rule executeProcess_inv [OF s3(2) Some])
    let ?s4 = "s4\<lparr>timeQuantumUsed := i64 (timeQuantumUsed s4 + 1)\<rparr>"
    obtain s5 where s5: "checkIOBurst ?s4 = Some s5" "sim_inv s5" "quiet ?s4 s5"
      "currentProcess ?s4 = None \<Longrightarrow> s5 = ?s4" "\<And>c. currentProcess ?s4 = Some c \<Longrightarrow> io_checked c ?s4 s5"
      using checkIOBurst_inv [of ?s4] s4(3) by (metis inv_counters(2))
    obtain s6 where s6: "checkQuantum s5 = Some s6" "sim_inv s6" "only_moves s5 s6"
      by (rule checkQuantum_inv [OF s5(2)])
    have id: "PID (heap s3 c) = PID (heap s c)" "Name (heap s3 c) = Name (heap s c)" "Color (heap s3 c) = Color (heap s c)"
      using q3 strip_eqD [of "heap s3 c" "heap s c"] by (simp_all add: quiet_def)
    have gantt: "ganttChart ?s4 = ganttChart (addGanttEntry (PID (heap s c)) (Name (heap s c)) (currentTime s)
         (currentTime s + 1) (Color (heap s c)) s)"
      using s4(14) by (simp add: id time t1 addGanttEntry_def fr)
    have t6: "currentTime s6 = currentTime s"
      using s6(3) s5(3) s4(8) time by (simp add: only_moves_def quiet_def)
    let ?s' = "updateWaiting (readyQueue s6) (s6\<lparr>currentTime := currentTime s + 1\<rparr>)"
    have ex: "executeTimeUnit s = Some ?s'"
      using s3(1) Some s4(2) s5(1) s6(1) by (simp add: executeTimeUnit_def runOrIdle_def t6 t1)
    have "sim_inv ?s'"
      using inv_advance [OF s6(2)] t by (simp add: updateWaiting_inv t6)
    moreover have "s5 = ?s4 \<or> io_checked c ?s4 s5"
      using s5(4,5) s4(6) by (cases "RemainingTime (heap s3 c) = 1") auto
    moreover have "static s ?s'"
    proof -
      have "static s3 ?s4" using executeProcess_static [OF s3(2) s4(2)] by simp
      note static_trans [OF static_trans [OF st3 this] checkIOBurst_static [OF _ s5(1)]]
      note static_trans [OF this checkQuantum_static [OF s5(2) s6(1)]]
      then have 6: "static s (s6\<lparr>currentTime := currentTime s + 1\<rparr>)" using s4(3) by simp
      have "set (readyQueue s6) \<subseteq> set (processes s6)" using s6(2) by (simp add: sim_inv_def)
      then show ?thesis by (intro static_trans [OF 6] updateWaiting_static) simp
    qed
    ultimately show ?thesis
      using busy [OF s3(1-3) Some s4(1) [unfolded time], of ?s4 s5 s6 ?s'] s4 s5(1-3) s6 gantt ex
      by (simp add: time fr)
  qed
qed

end
