(* ===== verification/Engine_Run.thy ===== *)
theory Engine_Run
  imports Engine_Tick
begin

text \<open>
  Runs of the engine: the states that the public operations reach, as an inductive relation,
  and the rule by which an invariant of the single operations becomes one of every reachable
  state. The first instance is the structural invariant itself, with the fact that no operation
  panics.
\<close>

section \<open>Processes that can be added\<close>

text \<open>
  What the callers of \<^verbatim>\<open>AddProcess\<close> hand over: a process as \<^verbatim>\<open>NewProcess\<close> and
  \<^verbatim>\<open>SetNice\<close> leave it, with a positive burst time, an arrival time that is not negative and
  any I/O bursts that have not run yet.
\<close>

definition fresh :: "process \<Rightarrow> bool" where
  "fresh p \<longleftrightarrow>
     resetProcess p = p \<and> 1 \<le> BurstTime p \<and> BurstTime p \<le> MaxInt64 \<and>
     0 \<le> ArrivalTime p \<and> ArrivalTime p \<le> MaxInt64 \<and> 0 < Weight p \<and>
     list_all (\<lambda>b. Duration b \<le> MaxInt64) (IOBursts p)"

lemma freshD:
  assumes "fresh p"
  shows "State p = StateNew" "RemainingTime p = BurstTime p" "StartTime p = -1" "\<not> HasStarted p"
    "WaitingTime p = 0" "CompletionTime p = 0" "IORemaining p = 0" "CurrentIOIndex p = 0"
    "1 \<le> BurstTime p" "0 \<le> ArrivalTime p" "0 < Weight p"
proof -
  have eq: "resetProcess p = p" using assms by (simp add: fresh_def)
  show "State p = StateNew" "RemainingTime p = BurstTime p" "StartTime p = -1" "\<not> HasStarted p"
    "WaitingTime p = 0" "CompletionTime p = 0" "IORemaining p = 0" "CurrentIOIndex p = 0"
    by (subst eq [symmetric], simp add: resetProcess_def)+
qed (use assms in \<open>simp_all add: fresh_def\<close>)

lemma fresh_pwf:
  assumes "fresh p"
  shows "pwf p"
proof -
  have "BurstTime p \<le> MaxInt64" "list_all (\<lambda>b. Duration b \<le> MaxInt64) (IOBursts p)"
    using assms by (simp_all add: fresh_def)
  then show ?thesis unfolding pwf_def list_all_iff using freshD [OF assms] by simp
qed

lemma fresh_NewProcess:
  assumes "1 \<le> burst" "burst \<le> MaxInt64" "0 \<le> arrival" "arrival \<le> MaxInt64"
  shows "fresh (NewProcess pid name arrival burst prio)"
  using assms by (simp add: fresh_def NewProcess_def resetProcess_def)

lemma Clone_id [simp]: "Clone p = p"
  by (simp add: Clone_def)

section \<open>Construction keeps the invariant\<close>

definition base_inv :: "Simulator \<Rightarrow> bool" where
  "base_inv s \<longleftrightarrow>
     sim_inv s \<and> (\<forall>a\<in>set (processes s). a < next_addr s \<and> fresh (resetProcess (heap s a)))"

lemma NewSimulator_base: "sched_ok sch \<Longrightarrow> base_inv (NewSimulator sch)"
  by (simp add: base_inv_def sim_inv_def NewSimulator_def)

text \<open>A process added under a fresh address, with the list of processes in any order.\<close>

definition added :: "process \<Rightarrow> addr list \<Rightarrow> Simulator \<Rightarrow> Simulator" where
  "added p ps s = s\<lparr>heap := (heap s)(next_addr s := p), next_addr := Suc (next_addr s), processes := ps\<rparr>"

lemma added_frame [simp]:
  "scheduler (added p ps s) = scheduler s" "heap (added p ps s) = (heap s)(next_addr s := p)"
  "next_addr (added p ps s) = Suc (next_addr s)" "processes (added p ps s) = ps"
  "readyQueue (added p ps s) = readyQueue s" "ioQueue (added p ps s) = ioQueue s"
  "currentProcess (added p ps s) = currentProcess s" "currentTime (added p ps s) = currentTime s"
  "ganttChart (added p ps s) = ganttChart s" "events (added p ps s) = events s"
  "contextSwitches (added p ps s) = contextSwitches s" "sim_state (added p ps s) = sim_state s"
  "totalIdleTime (added p ps s) = totalIdleTime s" "timeQuantumUsed (added p ps s) = timeQuantumUsed s"
  by (simp_all add: added_def)

lemma added_base:
  assumes "base_inv s" "fresh p" "mset ps = mset (processes s @ [next_addr s])"
  shows "base_inv (added p ps s)"
proof -
  have set: "set ps = insert (next_addr s) (set (processes s))"
    using mset_eq_setD [OF assms(3)] by simp
  have new: "next_addr s \<notin> set (processes s)" using assms(1) by (auto simp: base_inv_def)
  have "distinct ps"
    using assms(1) new by (subst mset_eq_imp_distinct_iff [OF assms(3)]) (simp add: base_inv_def sim_inv_def)
  moreover have "placed (added p ps s) a" if "a \<in> set ps" for a
    using that assms(1) new freshD(1) [OF assms(2)] set by (auto simp: base_inv_def sim_inv_def placed_def)
  ultimately show ?thesis
    using assms fresh_pwf [OF assms(2)] set new fresh_def [of p] unfolding base_inv_def sim_inv_def
    by (auto simp: less_Suc_eq)
qed


lemma AddProcess_added:
  assumes "slice_sort sortSlice"
  obtains ps where "Simulator_AddProcess sortSlice p s = added p ps s"
    "mset ps = mset (processes s @ [next_addr s])"
proof
  show "Simulator_AddProcess sortSlice p s =
    added p (sortSlice (\<lambda>a. ArrivalTime (((heap s)(next_addr s := p)) a)) (processes s @ [next_addr s])) s"
    by (simp add: Simulator_AddProcess_def added_def Let_def)
qed (simp add: slice_sort.sort_perm [OF assms])

lemma AddProcesses_frame [simp]:
  "sim_state (Simulator_AddProcesses sortSlice ps s) = sim_state s"
  "scheduler (Simulator_AddProcesses sortSlice ps s) = scheduler s"
  "currentTime (Simulator_AddProcesses sortSlice ps s) = currentTime s"
  by (induction ps arbitrary: s) (simp_all add: Simulator_AddProcess_def Let_def)

section \<open>Ticks and resets keep the invariant\<close>

lemma executeTimeUnit_total:
  assumes "sim_inv s" "currentTime s < MaxInt64"
  obtains s' where "executeTimeUnit s = Some s'" "sim_inv s'" "processes s' = processes s"
    "currentTime s' = currentTime s + 1" "sim_state s' = sim_state s" "static s s'"
  using assms
proof (cases rule: tick_cases)
  case (idle s3 s')
  have "quiet s s3" using quiet_trans [OF settled_quiet only_moves_quiet [OF idle(3)]] .
  then show ?thesis using that [OF idle(6,7)] idle(8,9) by (simp add: quiet_def)
next
  case (busy s3 c q s4 s5 s6 s')
  have "quiet s4 s6" using quiet_trans [OF busy(15) only_moves_quiet [OF busy(18)]] .
  then show ?thesis using that [OF busy(20,21)] busy by (simp add: quiet_def)
qed

lemma executeTimeUnit_base:
  assumes "base_inv s" "currentTime s < MaxInt64" "executeTimeUnit s = Some s'"
  shows "base_inv s'" "static s s'" "currentTime s' = currentTime s + 1"
proof -
  have "sim_inv s" using assms(1) by (simp add: base_inv_def)
  from executeTimeUnit_total [OF this assms(2)] assms(3)
  have s': "sim_inv s'" "static s s'" "currentTime s' = currentTime s + 1" by auto
  then show "static s s'" "currentTime s' = currentTime s + 1" by auto
  show "base_inv s'" using s'(1,2) assms(1) by (simp add: base_inv_def static_def)
qed

lemma resetProcess_idem [simp]: "resetProcess (resetProcess p) = resetProcess p"
  by (simp add: resetProcess_def comp_def)

lemma resetProcesses_frame:
  "resetProcesses ps s = s\<lparr>heap := (\<lambda>a. if a \<in> set ps then resetProcess (heap s a) else heap s a)\<rparr>"
  by (induction ps arbitrary: s) (auto simp: upd_def fun_eq_iff)

lemma Stop_fields:
  "Stop taken s = s\<lparr>sim_state := SimStateIdle, stopChan := stopChan (Stop taken s)\<rparr>"
  by (cases "sim_state s") (simp_all add: Stop_def)

lemma Reset_eq:
  "Reset taken s = s\<lparr>scheduler := sched_Reset (scheduler s),
     heap := (\<lambda>a. if a \<in> set (processes s) then resetProcess (heap s a) else heap s a),
     readyQueue := [], ioQueue := [], currentProcess := None, currentTime := 0, ganttChart := [], events := [],
     contextSwitches := 0, sim_state := SimStateIdle, pauseChan := False, stopChan := False,
     lastGanttUpdate := 0, totalIdleTime := 0, timeQuantumUsed := 0\<rparr>"
  unfolding Reset_def Let_def
  by (subst Stop_fields) (simp add: resetState_def Let_def resetProcesses_frame cong: if_cong)

lemma Reset_frame [simp]:
  "scheduler (Reset taken s) = sched_Reset (scheduler s)" "processes (Reset taken s) = processes s"
  "readyQueue (Reset taken s) = []" "ioQueue (Reset taken s) = []" "currentProcess (Reset taken s) = None"
  "currentTime (Reset taken s) = 0" "ganttChart (Reset taken s) = []" "events (Reset taken s) = []"
  "contextSwitches (Reset taken s) = 0" "sim_state (Reset taken s) = SimStateIdle"
  "totalIdleTime (Reset taken s) = 0" "timeQuantumUsed (Reset taken s) = 0"
  "next_addr (Reset taken s) = next_addr s" "speed (Reset taken s) = speed s"
  "heap (Reset taken s) = (\<lambda>a. if a \<in> set (processes s) then resetProcess (heap s a) else heap s a)"
  by (simp_all add: Reset_eq)

lemma Reset_base:
  assumes "base_inv s"
  shows "base_inv (Reset taken s)"
proof -
  have f: "fresh (resetProcess (heap s a))" if "a \<in> set (processes s)" for a
    using assms that by (simp add: base_inv_def)
  have "placed (Reset taken s) a" if "a \<in> set (processes s)" for a
    using freshD(1) [OF f [OF that]] that by (simp add: placed_def)
  moreover have "sched_ok (sched_Reset (scheduler s))"
    using assms by (simp add: base_inv_def sim_inv_def sched.Reset_ok)
  ultimately show ?thesis
    using assms f fresh_pwf [OF f] by (simp add: base_inv_def sim_inv_def)
qed

section \<open>Reachable states\<close>

text \<open>
  The states that a sequence of calls reaches: a new simulator, \<^verbatim>\<open>AddProcess\<close> at any moment,
  turns of the run loop, \<^verbatim>\<open>Step\<close>, \<^verbatim>\<open>SetSpeed\<close> and \<^verbatim>\<open>Reset\<close>, in any order. The clock
  counts single ticks from 0, so its last value before an overflow is not reached in practice;
  a tick there is excluded.
\<close>

inductive reachable :: "((addr \<Rightarrow> int) \<Rightarrow> addr list \<Rightarrow> addr list) \<Rightarrow> Simulator \<Rightarrow> bool"
  for sortSlice where
  new: "sched_ok sch \<Longrightarrow> reachable sortSlice (NewSimulator sch)"
| add: "reachable sortSlice s \<Longrightarrow> fresh p \<Longrightarrow> reachable sortSlice (Simulator_AddProcess sortSlice p s)"
| tick: "reachable sortSlice s \<Longrightarrow> currentTime s < MaxInt64 \<Longrightarrow> runTick s = Some s' \<Longrightarrow> reachable sortSlice s'"
| step: "reachable sortSlice s \<Longrightarrow> currentTime s < MaxInt64 \<Longrightarrow> Step s = Some s' \<Longrightarrow> reachable sortSlice s'"
| speed: "reachable sortSlice s \<Longrightarrow> reachable sortSlice (SetSpeed v s)"
| reset: "reachable sortSlice s \<Longrightarrow> reachable sortSlice (Reset taken s)"
| start: "reachable sortSlice s \<Longrightarrow> reachable sortSlice (snd (Start s))"
| pause: "reachable sortSlice s \<Longrightarrow> reachable sortSlice (Pause s)"
| resume: "reachable sortSlice s \<Longrightarrow> reachable sortSlice (Resume s)"
| stop: "reachable sortSlice s \<Longrightarrow> reachable sortSlice (Stop taken s)"

lemma base_inv_control [simp]:
  "base_inv (s\<lparr>sim_state := st\<rparr>) = base_inv s" "base_inv (s\<lparr>speed := v\<rparr>) = base_inv s"
  "base_inv (s\<lparr>pauseChan := b\<rparr>) = base_inv s" "base_inv (s\<lparr>stopChan := b\<rparr>) = base_inv s"
  using inv_cong [of "s\<lparr>speed := v\<rparr>" s] inv_cong [of "s\<lparr>pauseChan := b\<rparr>" s] inv_cong [of "s\<lparr>stopChan := b\<rparr>" s]
  by (simp_all add: base_inv_def)

text \<open>
  The interface between an invariant and the engine: what an invariant has to promise about
  single operations to hold in every reachable state.
\<close>

locale engine_invariant =
  fixes I :: "Simulator \<Rightarrow> bool"
  assumes new: "sched_ok sch \<Longrightarrow> I (NewSimulator sch)"
    and added: "base_inv s \<Longrightarrow> I s \<Longrightarrow> fresh p \<Longrightarrow> mset ps = mset (processes s @ [next_addr s]) \<Longrightarrow>
                I (added p ps s)"
    and tick: "base_inv s \<Longrightarrow> I s \<Longrightarrow> currentTime s < MaxInt64 \<Longrightarrow> executeTimeUnit s = Some s' \<Longrightarrow> I s'"
    and reset: "base_inv s \<Longrightarrow> I s \<Longrightarrow> I (Reset taken s)"
    and I_state: "I (s\<lparr>sim_state := st\<rparr>) = I s"
    and I_speed: "I (s\<lparr>speed := v\<rparr>) = I s"
    and I_pauseChan: "I (s\<lparr>pauseChan := b\<rparr>) = I s"
    and I_stopChan: "I (s\<lparr>stopChan := b\<rparr>) = I s"
begin

lemmas I_control = I_state I_speed I_pauseChan I_stopChan

lemma runTick_inv:
  assumes "base_inv s" "I s" "currentTime s < MaxInt64" "runTick s = Some s'"
  shows "base_inv s' \<and> I s'"
proof -
  obtain u where u: "executeTimeUnit s = Some u" "s' = u \<or> s' = u\<lparr>sim_state := SimStateComplete\<rparr>"
    using assms(4) by (auto simp: runTick_def bind_eq_Some_conv split: if_splits)
  have "base_inv u" "I u"
    using executeTimeUnit_base(1) [OF assms(1,3) u(1)] tick [OF assms(1-3) u(1)] by auto
  then show ?thesis using u(2) I_state by (auto simp: base_inv_def)
qed

lemma Step_inv:
  assumes "base_inv s" "I s" "currentTime s < MaxInt64" "Step s = Some s'"
  shows "base_inv s' \<and> I s'"
proof -
  have "base_inv (s\<lparr>sim_state := st\<rparr>) \<and> I (s\<lparr>sim_state := st\<rparr>)" for st
    using assms(1,2) I_state by (simp add: base_inv_def)
  then show ?thesis
    using assms runTick_inv [of s s'] runTick_inv [of "s\<lparr>sim_state := SimStatePaused\<rparr>" s']
    by (auto simp: Step_def split: if_splits)
qed

lemma reachable_inv:
  assumes "slice_sort sortSlice"
  shows "reachable sortSlice s \<Longrightarrow> base_inv s \<and> I s"
proof (induction rule: reachable.induct)
  case (add s p)
  obtain ps where "Simulator_AddProcess sortSlice p s = Engine_Run.added p ps s"
    "mset ps = mset (processes s @ [next_addr s])"
    by (rule AddProcess_added [OF assms])
  then show ?case using add added_base added by simp
next
  case (stop s taken)
  then show ?case using I_control by (cases "sim_state s") (simp_all add: Stop_def)
next
  case (tick s s')
  then show ?case by (blast intro: runTick_inv [THEN conjunct1] runTick_inv [THEN conjunct2])
next
  case (step s s')
  then show ?case by (blast intro: Step_inv [THEN conjunct1] Step_inv [THEN conjunct2])
qed (simp_all add: NewSimulator_base new Reset_base reset SetSpeed_def Let_def Start_def Pause_def Resume_def I_control)

end

interpretation structural: engine_invariant base_inv
  by unfold_locales (blast intro: NewSimulator_base added_base executeTimeUnit_base(1) Reset_base
      base_inv_control [THEN iffD1] base_inv_control [THEN iffD2])+


section \<open>Runs\<close>

context engine_invariant
begin

lemma runTicks_inv:
  "base_inv s \<Longrightarrow> I s \<Longrightarrow> currentTime s + int n \<le> MaxInt64 \<Longrightarrow> \<exists>s'. runTicks n s = Some s' \<and> base_inv s' \<and> I s'"
proof (induction n arbitrary: s)
  case (Suc n)
  have t: "currentTime s < MaxInt64" using Suc.prems(3) by simp
  obtain u where u: "executeTimeUnit s = Some u" "currentTime u = currentTime s + 1"
    using executeTimeUnit_total [OF _ t] Suc.prems(1) by (metis base_inv_def)
  let ?s = "if isComplete u then u\<lparr>sim_state := SimStateComplete\<rparr> else u"
  have r: "runTick s = Some ?s" using u(1) by (simp add: runTick_def)
  have "base_inv ?s" "I ?s" using runTick_inv [OF Suc.prems(1,2) t r] by auto
  moreover have "currentTime ?s + int n \<le> MaxInt64" using u(2) Suc.prems(3) by simp
  ultimately show ?case using Suc.IH r by simp
qed simp

end

interpretation stable: slice_sort "\<lambda>key. sort_key key"
  by unfold_locales simp_all

text \<open>
  C2: In every state that calls of the public operations reach, every process is in exactly the
  place that its state names (ready queue, I/O queue, CPU, or none of them while new or
  terminated), the queues hold no process twice, and every control block is consistent; and the
  next tick does not panic.
\<close>

theorem reachable_structure:
  assumes "slice_sort sortSlice" "reachable sortSlice s"
  shows "sim_inv s \<and> (currentTime s < MaxInt64 \<longrightarrow> executeTimeUnit s \<noteq> None)"
proof -
  have "sim_inv s" using structural.reachable_inv [OF assms] by (simp add: base_inv_def)
  then show ?thesis using executeTimeUnit_total by (metis option.distinct(1))
qed

text \<open>A small workload, used to exercise the properties.\<close>

definition demo :: "scheduler \<Rightarrow> Simulator" where
  "demo sch = Simulator_AddProcesses (\<lambda>key. sort_key key)
     [NewProcess 1 ''a'' 0 2 1, NewProcess 2 ''b'' 1 1 0] (NewSimulator sch)"

lemma demo_reachable: "sched_ok sch \<Longrightarrow> reachable (\<lambda>key. sort_key key) (demo sch)"
  unfolding demo_def Simulator_AddProcesses.simps
  by (intro reachable.intros fresh_NewProcess) simp_all

lemma reachable_runTicks:
  "reachable sortSlice s \<Longrightarrow> sim_inv s \<Longrightarrow> currentTime s + int n \<le> MaxInt64 \<Longrightarrow> runTicks n s = Some s' \<Longrightarrow>
   reachable sortSlice s'"
proof (induction n arbitrary: s)
  case (Suc n)
  have t: "currentTime s < MaxInt64" using Suc.prems(3) by simp
  obtain u where u: "executeTimeUnit s = Some u" "sim_inv u" "currentTime u = currentTime s + 1"
    using executeTimeUnit_total [OF Suc.prems(2) t] by metis
  let ?s = "if isComplete u then u\<lparr>sim_state := SimStateComplete\<rparr> else u"
  have r: "runTick s = Some ?s" using u(1) by (simp add: runTick_def)
  have "reachable sortSlice ?s" by (rule reachable.tick [OF Suc.prems(1) t r])
  moreover have "sim_inv ?s" "currentTime ?s + int n \<le> MaxInt64" using u(2,3) Suc.prems(3) by simp_all
  ultimately show ?case using Suc.IH [of ?s] Suc.prems(4) r by (auto split: if_splits)
qed simp

lemma demo_run:
  assumes "sched_ok sch" "int n \<le> MaxInt64"
  shows "\<exists>s. runTicks n (demo sch) = Some s \<and> reachable (\<lambda>key. sort_key key) s"
proof -
  note r = demo_reachable [OF assms(1)]
  have b: "base_inv (demo sch)" using structural.reachable_inv [OF stable.slice_sort_axioms r] by blast
  have t: "currentTime (demo sch) + int n \<le> MaxInt64"
    using assms(2) by (simp add: demo_def Simulator_AddProcess_def NewSimulator_def Let_def)
  obtain s where "runTicks n (demo sch) = Some s"
    using structural.runTicks_inv [OF b b t] by blast
  then show ?thesis using reachable_runTicks [OF r _ t] b by (auto simp: base_inv_def)
qed

theorem reachable_structure_witness:
  "sim_inv (demo (FCFS NewFCFSScheduler)) \<and> executeTimeUnit (demo (FCFS NewFCFSScheduler)) \<noteq> None"
proof -
  have t: "currentTime (demo (FCFS NewFCFSScheduler)) < MaxInt64"
    by (simp add: demo_def Simulator_AddProcess_def NewSimulator_def Let_def)
  from reachable_structure [OF stable.slice_sort_axioms demo_reachable [OF constructors_ok(1)]] t
  show ?thesis by (simp only: simp_thms)
qed

end
