(* ===== verification/Engine_Accounting.thy ===== *)
theory Engine_Accounting
  imports Engine_Run
begin

text \<open>
  Where the time goes. Every tick either is idle or gives one unit to one process, so executed
  units and idle units add up to the clock; the Gantt chart is a gap-free, merged record of the
  same ticks; and the times recorded at a process's completion follow from its arrival, burst
  and completion.
\<close>

section \<open>The effect of a tick on the processes\<close>

text \<open>
  \<open>tallies p q\<close>: \<open>q\<close> has the identity and the accounting fields of \<open>p\<close>. The waiting time counts
  only once the process has finished, when \<^verbatim>\<open>Execute\<close> has written its final value.
\<close>

definition tallies :: "process \<Rightarrow> process \<Rightarrow> bool" where
  "tallies p q \<longleftrightarrow>
     strip (q\<lparr>WaitingTime := 0\<rparr>) = strip (p\<lparr>WaitingTime := 0\<rparr>) \<and>
     (RemainingTime p = 0 \<longrightarrow> WaitingTime q = WaitingTime p)"

lemma talliesD:
  assumes "tallies p q"
  shows "PID q = PID p" "ArrivalTime q = ArrivalTime p" "BurstTime q = BurstTime p"
    "RemainingTime q = RemainingTime p" "HasStarted q = HasStarted p" "StartTime q = StartTime p"
    "CompletionTime q = CompletionTime p" "TurnaroundTime q = TurnaroundTime p"
    "ResponseTime q = ResponseTime p" "RemainingTime p = 0 \<Longrightarrow> WaitingTime q = WaitingTime p"
  using assms strip_eqD [of "q\<lparr>WaitingTime := 0\<rparr>" "p\<lparr>WaitingTime := 0\<rparr>"] by (simp_all add: tallies_def)

lemma tallies_strip: "strip q = strip p \<Longrightarrow> tallies p q"
proof -
  assume a: "strip q = strip p"
  have "strip (x\<lparr>WaitingTime := 0\<rparr>) = (strip x)\<lparr>WaitingTime := 0\<rparr>" for x by (simp add: strip_def)
  with a show ?thesis using strip_eqD(7) [OF a] by (simp add: tallies_def)
qed

lemma tallies_trans: "tallies p q \<Longrightarrow> tallies q r \<Longrightarrow> tallies p r"
  using talliesD(4) [of p q] by (simp add: tallies_def)

lemma updateWaiting_only_ready:
  "State (heap s a) \<noteq> StateReady \<Longrightarrow> heap (updateWaiting ps s) a = heap s a"
proof (induction ps arbitrary: s)
  case (Cons p ps)
  then show ?case by (cases "p = a") auto
qed simp

lemma updateWaiting_tallies:
  assumes "pwf (heap s a)"
  shows "tallies (heap s a) (heap (updateWaiting ps s) a)"
proof -
  have "(heap (updateWaiting ps s) a)\<lparr>WaitingTime := 0\<rparr> = (heap s a)\<lparr>WaitingTime := 0\<rparr>"
    by simp
  moreover have "RemainingTime (heap s a) = 0 \<Longrightarrow> State (heap s a) = StateTerminated"
    using assms by (simp add: pwf_def)
  ultimately show ?thesis using updateWaiting_only_ready [of s a ps] by (auto simp: tallies_def)
qed

lemma Execute_strip:
  assumes "strip p' = strip p" "Execute t d p' = Some q'"
  obtains q where "Execute t d p = Some q" "strip q' = strip q"
proof -
  have e: "map_option strip (Execute t d p) = map_option strip (Execute t d (strip p))" for p
    by (simp add: Execute_def strip_def Let_def go_div_def)
  have "map_option strip (Execute t d p) = Some (strip q')"
    using assms e [of p] e [of p'] by simp
  then show ?thesis using that by auto
qed

text \<open>The work of a tick: the unit that the running process executes, or idling.\<close>

definition works :: "Simulator \<Rightarrow> addr option \<Rightarrow> Simulator \<Rightarrow> bool" where
  "works s c s' \<longleftrightarrow>
     (\<forall>a\<in>set (processes s).
        tallies (if c = Some a then the (Execute (currentTime s) 1 (heap s a)) else heap s a) (heap s' a))"

lemma tick_work [consumes 3, case_names idle busy]:
  assumes "sim_inv s" "currentTime s < MaxInt64" "executeTimeUnit s = Some s'"
  obtains (idle) "works s None s'" "totalIdleTime s' = i64 (totalIdleTime s + 1)"
      "ganttChart s' = ganttChart (addGanttEntry (-1) ''IDLE'' (currentTime s) (currentTime s + 1) ''#2C3E50'' s)"
  | (busy) c where "works s (Some c) s'" "totalIdleTime s' = totalIdleTime s"
      "c \<in> set (processes s)" "0 < RemainingTime (heap s c)" "ArrivalTime (heap s c) \<le> currentTime s"
      "ganttChart s' = ganttChart (addGanttEntry (PID (heap s c)) (Name (heap s c)) (currentTime s)
         (currentTime s + 1) (Color (heap s c)) s)"
  using assms(1,2)
proof (cases rule: tick_cases)
  case (idle s3 u)
  have q3: "quiet s s3" using quiet_trans [OF settled_quiet only_moves_quiet [OF idle(3)]] .
  then have "works s None s'"
    using idle(6,8) assms(3) by (simp add: works_def quiet_def tallies_strip)
  then show ?thesis using that(1) q3 idle(6,8) assms(3) by (simp add: quiet_def addGanttEntry_def)
next
  case (busy s3 c q s4 s5 s6 u)
  have q3: "quiet s s3" using quiet_trans [OF settled_quiet only_moves_quiet [OF busy(3)]] .
  have q6: "quiet s4 s6" using quiet_trans [OF busy(15) only_moves_quiet [OF busy(18)]] .
  have u: "u = s'" using busy(20) assms(3) by simp
  note c = inv_current [OF busy(2,4)]
  have c3: "strip (heap s3 c) = strip (heap s c)" using q3 by (simp add: quiet_def)
  obtain q0 where q0: "Execute (currentTime s) 1 (heap s c) = Some q0" "strip q = strip q0"
    using Execute_strip [OF c3 busy(5)] .
  have "tallies (if Some c = Some a then the (Execute (currentTime s) 1 (heap s a)) else heap s a) (heap s' a)"
    if a: "a \<in> set (processes s)" for a
  proof -
    have "strip (heap s6 a) = strip (if a = c then q0 else heap s a)"
      using q6 q3 busy(6) q0(2) by (simp add: quiet_def)
    moreover have "pwf (heap s6 a)"
      using busy(19) a q6 busy(9) by (simp add: sim_inv_def quiet_def)
    ultimately have "tallies (if a = c then q0 else heap s a) (heap s' a)"
      using tallies_trans [OF tallies_strip updateWaiting_tallies] busy(22) u by simp
    then show ?thesis using q0(1) by auto
  qed
  then have "works s (Some c) s'" by (simp add: works_def)
  moreover have "totalIdleTime s' = totalIdleTime s" "ganttChart s' = ganttChart s4"
    using busy(22) q6 busy(10) u by (simp_all add: quiet_def)
  ultimately show ?thesis
    using that(2) [of c] c(1,4,7) busy(14) q3 strip_eqD [OF c3] by (simp add: quiet_def)
qed

section \<open>Conservation of time\<close>

definition executed :: "process \<Rightarrow> int" where
  "executed p = BurstTime p - RemainingTime p"

definition busy_time :: "Simulator \<Rightarrow> int" where
  "busy_time s = (\<Sum>a\<in>set (processes s). executed (heap s a))"

definition cpu_time :: "int \<Rightarrow> Simulator \<Rightarrow> int" where
  "cpu_time pid s = (\<Sum>a\<in>set (processes s). if PID (heap s a) = pid then executed (heap s a) else 0)"

text \<open>Sums over the processes of anything that is unchanged but for the unit of the running one.\<close>

lemma works_sum:
  assumes w: "works s c s'" and p: "processes s' = processes s"
    and c: "\<And>a. c = Some a \<Longrightarrow> a \<in> set (processes s) \<and> 0 < RemainingTime (heap s a) \<and> pwf (heap s a)"
  shows "(\<Sum>a\<in>set (processes s'). if P (PID (heap s' a)) then executed (heap s' a) else 0) =
         (\<Sum>a\<in>set (processes s). if P (PID (heap s a)) then executed (heap s a) else 0) +
         (case c of None \<Rightarrow> 0 | Some a \<Rightarrow> if P (PID (heap s a)) then 1 else 0)"
proof -
  have e: "(if P (PID (heap s' a)) then executed (heap s' a) else 0) =
      (if P (PID (heap s a)) then executed (heap s a) else 0) + (if c = Some a \<and> P (PID (heap s a)) then 1 else 0)"
    if a: "a \<in> set (processes s)" for a
  proof (cases "c = Some a")
    case True
    then have "0 < RemainingTime (heap s a)" "RemainingTime (heap s a) \<le> MaxInt64" "0 < Weight (heap s a)"
      using c [of a] by (auto simp: pwf_def)
    note ex = Execute_1 [OF this(3,1,2), of "currentTime s"]
    have "tallies (the (Execute (currentTime s) 1 (heap s a))) (heap s' a)"
      using w a True by (auto simp: works_def)
    from talliesD(1,3,4) [OF this] show ?thesis using True by (simp add: ex Let_def executed_def)
  next
    case False
    then have "tallies (heap s a) (heap s' a)" using w a by (auto simp: works_def)
    from talliesD(1,3,4) [OF this] show ?thesis using False by (simp add: executed_def)
  qed
  have "(\<Sum>a\<in>set (processes s). if c = Some a \<and> P (PID (heap s a)) then 1 else 0) =
      (case c of None \<Rightarrow> 0 :: int | Some a \<Rightarrow> if P (PID (heap s a)) then 1 else 0)"
  proof (cases c)
    case (Some a)
    have "(\<Sum>x\<in>set (processes s). if c = Some x \<and> P (PID (heap s x)) then 1 else (0::int)) =
        (\<Sum>x\<in>set (processes s). if a = x then (if P (PID (heap s a)) then 1 else 0) else 0)"
      using Some by (intro sum.cong) auto
    then show ?thesis using Some c [OF Some] by simp
  qed simp
  then show ?thesis using e by (simp add: p sum.distrib cong: sum.cong)
qed

lemma works_busy_time:
  assumes "works s c s'" "processes s' = processes s"
    "\<And>a. c = Some a \<Longrightarrow> a \<in> set (processes s) \<and> 0 < RemainingTime (heap s a) \<and> pwf (heap s a)"
  shows "busy_time s' = busy_time s + (case c of None \<Rightarrow> 0 | Some a \<Rightarrow> 1)"
    "cpu_time i s' = cpu_time i s + (case c of None \<Rightarrow> 0 | Some a \<Rightarrow> if PID (heap s a) = i then 1 else 0)"
  using works_sum [OF assms, of "\<lambda>_. True"] works_sum [OF assms, of "\<lambda>pid. pid = i"]
  by (simp_all add: busy_time_def cpu_time_def)

lemma sum_executed_added:
  assumes "base_inv s" "fresh p" "mset ps = mset (processes s @ [next_addr s])"
  shows "(\<Sum>a\<in>set (processes (added p ps s)). if P (PID (heap (added p ps s) a)) then executed (heap (added p ps s) a) else 0) =
         (\<Sum>a\<in>set (processes s). if P (PID (heap s a)) then executed (heap s a) else 0)"
proof -
  have set: "set ps = insert (next_addr s) (set (processes s))" using mset_eq_setD [OF assms(3)] by simp
  have new: "next_addr s \<notin> set (processes s)" using assms(1) by (auto simp: base_inv_def)
  have "executed p = 0" using freshD(2) [OF assms(2)] by (simp add: executed_def)
  moreover have "(\<Sum>a\<in>set (processes s). if P (PID (((heap s)(next_addr s := p)) a)) then executed (((heap s)(next_addr s := p)) a) else 0) =
     (\<Sum>a\<in>set (processes s). if P (PID (heap s a)) then executed (heap s a) else 0)"
    using new by (intro sum.cong) auto
  ultimately show ?thesis using new by (simp add: set cong: if_cong)
qed

lemma executed_reset [simp]: "executed (resetProcess p) = 0" and PID_reset [simp]: "PID (resetProcess p) = PID p"
  by (simp_all add: executed_def resetProcess_def)

lemma busy_time_ops:
  "base_inv s \<Longrightarrow> fresh p \<Longrightarrow> mset ps = mset (processes s @ [next_addr s]) \<Longrightarrow> busy_time (added p ps s) = busy_time s"
  "base_inv s \<Longrightarrow> fresh p \<Longrightarrow> mset ps = mset (processes s @ [next_addr s]) \<Longrightarrow> cpu_time i (added p ps s) = cpu_time i s"
  "busy_time (Reset taken s) = 0" "cpu_time i (Reset taken s) = 0"
  "busy_time (NewSimulator sch) = 0" "cpu_time i (NewSimulator sch) = 0"
  using sum_executed_added [of s p ps "\<lambda>_. True"] sum_executed_added [of s p ps "\<lambda>pid. pid = i"]
  by (simp_all add: busy_time_def cpu_time_def NewSimulator_def sum.neutral)

lemma busy_time_chans [simp]:
  "busy_time (s\<lparr>pauseChan := b\<rparr>) = busy_time s" "busy_time (s\<lparr>stopChan := b\<rparr>) = busy_time s"
  "cpu_time i (s\<lparr>pauseChan := b\<rparr>) = cpu_time i s" "cpu_time i (s\<lparr>stopChan := b\<rparr>) = cpu_time i s"
  by (simp_all add: busy_time_def cpu_time_def cong: if_cong)

lemma busy_time_nonneg: "sim_inv s \<Longrightarrow> 0 \<le> busy_time s"
  unfolding busy_time_def by (rule sum_nonneg) (auto simp: sim_inv_def pwf_def executed_def)

definition time_inv :: "Simulator \<Rightarrow> bool" where
  "time_inv s \<longleftrightarrow> 0 \<le> totalIdleTime s \<and> busy_time s + totalIdleTime s = currentTime s"

lemma time_inv_tick:
  assumes "base_inv s" "time_inv s" "currentTime s < MaxInt64" "executeTimeUnit s = Some s'"
  shows "time_inv s'"
proof -
  have inv: "sim_inv s" using assms(1) by (simp add: base_inv_def)
  have p: "processes s' = processes s" "currentTime s' = currentTime s + 1"
    using executeTimeUnit_base [OF assms(1,3,4)] by (simp_all add: static_def)
  from inv assms(3,4) show ?thesis
  proof (cases rule: tick_work)
    case idle
    have "i64 (totalIdleTime s + 1) = totalIdleTime s + 1"
      using assms(2,3) busy_time_nonneg [OF inv] by (intro i64_succ) (auto simp: time_inv_def)
    then show ?thesis
      using works_busy_time(1) [OF idle(1) p(1)] idle(2) assms(2) p(2) by (simp add: time_inv_def)
  next
    case (busy c)
    have "pwf (heap s c)" using inv busy(3) by (simp add: sim_inv_def)
    then show ?thesis
      using works_busy_time(1) [OF busy(1) p(1)] busy(2-4) assms(2) p(2) by (simp add: time_inv_def)
  qed
qed

lemma busy_time_cong [simp]: "busy_time (s\<lparr>sim_state := st\<rparr>) = busy_time s" "busy_time (s\<lparr>speed := v\<rparr>) = busy_time s"
  "cpu_time i (s\<lparr>sim_state := st\<rparr>) = cpu_time i s" "cpu_time i (s\<lparr>speed := v\<rparr>) = cpu_time i s"
  by (simp_all add: busy_time_def cpu_time_def cong: if_cong)

interpretation conservation: engine_invariant time_inv
proof unfold_locales
  show "time_inv (NewSimulator sch)" for sch
    by (simp add: time_inv_def busy_time_ops) (simp add: NewSimulator_def)
qed (simp_all add: time_inv_tick, simp_all add: time_inv_def busy_time_ops)

text \<open>
  C7: Time is conserved: in every reachable state the units that the processes have executed
  plus the idle units are exactly the current time.
\<close>

theorem time_conserved:
  assumes "slice_sort sortSlice" "reachable sortSlice s"
  shows "(\<Sum>a\<in>set (processes s). BurstTime (heap s a) - RemainingTime (heap s a)) + totalIdleTime s = currentTime s"
  using conservation.reachable_inv [OF assms] by (simp add: time_inv_def busy_time_def executed_def)

theorem time_conserved_witness:
  "\<exists>s. runTicks 3 (demo (RoundRobin (NewRoundRobinScheduler 2))) = Some s \<and>
     (\<Sum>a\<in>set (processes s). BurstTime (heap s a) - RemainingTime (heap s a)) + totalIdleTime s = currentTime s"
  using demo_run [OF constructors_ok(4), of 3 2] time_conserved [OF stable.slice_sort_axioms] by fastforce

end
