(* ===== verification/Engine_Gantt.thy ===== *)
theory Engine_Gantt
  imports Engine_Accounting
begin

text \<open>
  The Gantt chart as a record of the run: it covers the time from 0 to the clock without gaps
  or overlaps, neighbouring entries belong to different processes, and the time it shows for
  each PID is the time that the processes with this PID have executed.
\<close>

fun contiguous :: "int \<Rightarrow> GanttEntry list \<Rightarrow> int \<Rightarrow> bool" where
  "contiguous t [] t' \<longleftrightarrow> t = t'"
| "contiguous t (g # gs) t' \<longleftrightarrow> g_StartTime g = t \<and> t < g_EndTime g \<and> contiguous (g_EndTime g) gs t'"

definition gantt_time :: "int \<Rightarrow> GanttEntry list \<Rightarrow> int" where
  "gantt_time pid gs = (\<Sum>g\<leftarrow>gs. if g_PID g = pid then g_EndTime g - g_StartTime g else 0)"

lemma contiguous_append: "contiguous t (gs @ hs) t' \<longleftrightarrow> (\<exists>m. contiguous t gs m \<and> contiguous m hs t')"
  by (induction gs arbitrary: t) auto

lemma gantt_time_append [simp]: "gantt_time i (gs @ hs) = gantt_time i gs + gantt_time i hs"
  by (simp add: gantt_time_def)

lemma gantt_time_Cons [simp]:
  "gantt_time i (g # gs) = (if g_PID g = i then g_EndTime g - g_StartTime g else 0) + gantt_time i gs"
  "gantt_time i [] = 0"
  by (simp_all add: gantt_time_def)

text \<open>One unit appended at the end of the chart.\<close>

lemma addGanttEntry_unit:
  assumes c: "contiguous 0 (ganttChart s) t" and d: "distinct_adj (map g_PID (ganttChart s))"
  shows "contiguous 0 (ganttChart (addGanttEntry pid name t (t + 1) color s)) (t + 1)"
    "distinct_adj (map g_PID (ganttChart (addGanttEntry pid name t (t + 1) color s)))"
    "gantt_time i (ganttChart (addGanttEntry pid name t (t + 1) color s)) =
       gantt_time i (ganttChart s) + (if pid = i then 1 else 0)"
proof -
  let ?new = "\<lparr>g_PID = pid, g_Name = name, g_StartTime = t, g_EndTime = t + 1, g_Color = color\<rparr>"
  let ?r = "ganttChart (addGanttEntry pid name t (t + 1) color s)"
  have "contiguous 0 ?r (t + 1) \<and> distinct_adj (map g_PID ?r) \<and>
    gantt_time i ?r = gantt_time i (ganttChart s) + (if pid = i then 1 else 0)"
  proof (cases "ganttChart s" rule: rev_cases)
    case Nil
    then show ?thesis using c by (simp add: addGanttEntry_def)
  next
    case (snoc gs g)
    obtain m where m: "contiguous 0 gs m" "g_StartTime g = m" "m < g_EndTime g" "g_EndTime g = t"
      using c snoc by (auto simp: contiguous_append)
    have len: "gantt_time i [g\<lparr>g_EndTime := t + 1\<rparr>] = gantt_time i [g] + (if g_PID g = i then 1 else 0)"
      using m(4) by simp
    show ?thesis
    proof (cases "g_PID g = pid")
      case True
      then have r: "?r = gs @ [g\<lparr>g_EndTime := t + 1\<rparr>]"
        using snoc m(4) by (simp add: addGanttEntry_def)
      show ?thesis unfolding r using m d snoc True len by (auto simp: contiguous_append)
    next
      case False
      then have r: "?r = (gs @ [g]) @ [?new]" using snoc by (simp add: addGanttEntry_def)
      have "distinct_adj (map g_PID (gs @ [g]) @ [pid])"
        using d snoc False unfolding distinct_adj_append_iff by simp
      then show ?thesis unfolding r using c snoc by (auto simp: contiguous_append)
    qed
  qed
  then show "contiguous 0 ?r (t + 1)" "distinct_adj (map g_PID ?r)"
    "gantt_time i ?r = gantt_time i (ganttChart s) + (if pid = i then 1 else 0)" by auto
qed

definition gantt_inv :: "Simulator \<Rightarrow> bool" where
  "gantt_inv s \<longleftrightarrow>
     contiguous 0 (ganttChart s) (currentTime s) \<and> distinct_adj (map g_PID (ganttChart s)) \<and>
     (\<forall>i. gantt_time i (ganttChart s) = cpu_time i s + (if i = -1 then totalIdleTime s else 0))"

lemma gantt_inv_tick:
  assumes "base_inv s" "time_inv s \<and> gantt_inv s" "currentTime s < MaxInt64" "executeTimeUnit s = Some s'"
  shows "gantt_inv s'"
proof -
  have inv: "sim_inv s" using assms(1) by (simp add: base_inv_def)
  have p: "processes s' = processes s" "currentTime s' = currentTime s + 1"
    using executeTimeUnit_base [OF assms(1,3,4)] by (simp_all add: static_def)
  have g: "contiguous 0 (ganttChart s) (currentTime s)" "distinct_adj (map g_PID (ganttChart s))"
    "gantt_time i (ganttChart s) = cpu_time i s + (if i = -1 then totalIdleTime s else 0)" for i
    using assms(2) by (simp_all add: gantt_inv_def)
  note unit = addGanttEntry_unit [OF g(1,2)]
  from inv assms(3,4) show ?thesis
  proof (cases rule: tick_work)
    case idle
    have "i64 (totalIdleTime s + 1) = totalIdleTime s + 1"
      using assms(2,3) busy_time_nonneg [OF inv] by (intro i64_succ) (auto simp: time_inv_def)
    then show ?thesis unfolding gantt_inv_def idle(2,3) p(2)
      using unit works_busy_time(2) [OF idle(1) p(1)] g(3) by simp
  next
    case (busy c)
    have "pwf (heap s c)" using inv busy(3) by (simp add: sim_inv_def)
    then show ?thesis unfolding gantt_inv_def busy(2,6) p(2)
      using unit works_busy_time(2) [OF busy(1) p(1)] busy(3,4) g(3) by simp
  qed
qed

interpretation gantt: engine_invariant "\<lambda>s. time_inv s \<and> gantt_inv s"
proof unfold_locales
  show "time_inv (NewSimulator sch) \<and> gantt_inv (NewSimulator sch)" if "sched_ok sch" for sch
    using conservation.new [OF that] by (simp add: gantt_inv_def busy_time_ops) (simp add: NewSimulator_def)
  show "time_inv (added p ps s) \<and> gantt_inv (added p ps s)"
    if "base_inv s" "time_inv s \<and> gantt_inv s" "fresh p" "mset ps = mset (processes s @ [next_addr s])" for s p ps
    using that conservation.added by (simp add: gantt_inv_def busy_time_ops)
  show "time_inv s' \<and> gantt_inv s'"
    if "base_inv s" "time_inv s \<and> gantt_inv s" "currentTime s < MaxInt64" "executeTimeUnit s = Some s'" for s s'
    using that gantt_inv_tick time_inv_tick by blast
  show "time_inv (Reset taken s) \<and> gantt_inv (Reset taken s)"
    if "base_inv s" "time_inv s \<and> gantt_inv s" for s taken
    using that conservation.reset by (simp add: gantt_inv_def busy_time_ops)
qed (simp_all add: gantt_inv_def time_inv_def)

text \<open>
  C9: In every reachable state the Gantt chart covers exactly the time from 0 to now: entries
  are non-empty, each starts where the one before ends, and two neighbours have different PIDs.
\<close>

theorem gantt_covers_time:
  assumes "slice_sort sortSlice" "reachable sortSlice s"
  shows "contiguous 0 (ganttChart s) (currentTime s) \<and> distinct_adj (map g_PID (ganttChart s))"
  using gantt.reachable_inv [OF assms] by (simp add: gantt_inv_def)

theorem gantt_covers_time_witness:
  "\<exists>s. runTicks 3 (demo (SRTF NewSRTFScheduler)) = Some s \<and> contiguous 0 (ganttChart s) (currentTime s)"
  using demo_run [OF constructors_ok(3), of 3] gantt_covers_time [OF stable.slice_sort_axioms] by fastforce

text \<open>
  C8: The chart agrees with the processes: the time it shows for a PID is the sum of the units
  that the processes with this PID have executed, and the PID -1 also has the idle time.
\<close>

theorem gantt_matches_cpu_time:
  assumes "slice_sort sortSlice" "reachable sortSlice s"
  shows "gantt_time pid (ganttChart s) =
    (\<Sum>a\<in>set (processes s). if PID (heap s a) = pid then BurstTime (heap s a) - RemainingTime (heap s a) else 0) +
    (if pid = -1 then totalIdleTime s else 0)"
  using gantt.reachable_inv [OF assms] by (simp add: gantt_inv_def cpu_time_def executed_def cong: if_cong)

theorem gantt_matches_cpu_time_witness:
  "\<exists>s. runTicks 3 (demo (CFS NewCFSScheduler)) = Some s \<and>
     gantt_time 2 (ganttChart s) =
       (\<Sum>a\<in>set (processes s). if PID (heap s a) = 2 then BurstTime (heap s a) - RemainingTime (heap s a) else 0)"
  using demo_run [OF constructors_ok(6), of 3] gantt_matches_cpu_time [OF stable.slice_sort_axioms, of _ 2]
  by fastforce

end
