(* ===== verification/Engine_Progress.thy ===== *)
theory Engine_Progress
  imports Engine_Accounting
begin

text \<open>
  Every run ends. The units of CPU and I/O that the processes still owe never grow; a tick in
  which they do not shrink is an idle one before the last arrival. So with any of the ten
  schedulers a workload completes within its last arrival time plus all its bursts.
\<close>

definition owed :: "process \<Rightarrow> int" where
  "owed p = RemainingTime p + io_left p"

definition work_left :: "Simulator \<Rightarrow> int" where
  "work_left s = (\<Sum>a\<in>set (processes s). owed (heap s a))"

lemma owed_State [simp]: "owed (p\<lparr>State := st\<rparr>) = owed p"
  and owed_Waiting [simp]: "owed (p\<lparr>WaitingTime := w\<rparr>) = owed p"
  by (simp_all add: owed_def io_left_def)

lemma owed_nonneg: "pwf p \<Longrightarrow> 0 \<le> owed p"
  by (simp add: owed_def io_left_def pwf_def pending_io_nonneg)

section \<open>What each part of a tick pays off\<close>

lemma checkArrivals_loop_owed: "owed (heap (checkArrivals_loop ps s) a) = owed (heap s a)"
proof (induction ps arbitrary: s)
  case (Cons p ps)
  show ?case unfolding checkArrivals_loop.simps Cons.IH by (simp add: Let_def)
qed simp

lemma checkArrivals_owed: "owed (heap (checkArrivals s) a) = owed (heap s a)"
  by (simp add: checkArrivals_def checkArrivals_loop_owed)

lemma tickIOQueue_loop_owed:
  "sim_inv (s\<lparr>ioQueue := live @ ps\<rparr>) \<Longrightarrow>
   owed (heap (snd (tickIOQueue_loop ps live s)) a) = owed (heap s a) - (if a \<in> set ps then 1 else 0)"
proof (induction ps arbitrary: live s)
  case (Cons p ps)
  note r = inv_io_positive [OF Cons.prems]
  then have r1: "i64 (IORemaining (heap s p) - 1) = IORemaining (heap s p) - 1" by (rule i64_pred)
  have d: "p \<notin> set ps" using Cons.prems by (auto simp: sim_inv_def)
  show ?case
  proof (cases "IORemaining (heap s p) = 1")
    case True
    have "sched_ok (sched_AddProcess (scheduler s) (heap (io_done p s)) p)"
      using sched.AddProcess_ok [OF inv_sched_ok [OF Cons.prems]] by simp
    note inv_scheduler [OF inv_io_done [OF Cons.prems] this]
    then have "sim_inv (io_done p s\<lparr>ioQueue := live @ ps\<rparr>)"
      by (rule inv_cong [THEN iffD2, rotated -1]) (simp_all add: io_done_def Let_def)
    from Cons.IH [OF this] show ?thesis using True d
      by (auto simp: tickIOQueue_loop_Cons owed_def io_left_def)
  next
    case False
    with r have g: "1 < IORemaining (heap s p)" by simp
    from inv_io_tick [OF Cons.prems g]
    have "sim_inv (io_tick p s\<lparr>ioQueue := (live @ [p]) @ ps\<rparr>)" by (simp add: io_tick_def)
    from Cons.IH [OF this] show ?thesis using g d
      by (auto simp: tickIOQueue_loop_Cons r1 owed_def io_left_def)
  qed
qed simp

lemma settled_owed:
  assumes "sim_inv s"
  shows "owed (heap (settled s) a) = owed (heap s a) - (if a \<in> set (ioQueue s) then 1 else 0)"
proof -
  have "sim_inv (checkArrivals s\<lparr>ioQueue := [] @ ioQueue s\<rparr>)"
    using checkArrivals_inv [OF assms] by (rule inv_cong [THEN iffD2, rotated -1]) simp_all
  from tickIOQueue_loop_owed [OF this] show ?thesis
    by (simp add: tickIOQueue_def case_prod_beta checkArrivals_owed)
qed

lemma only_moves_owed: "only_moves s s' \<Longrightarrow> owed (heap s' a) = owed (heap s a)"
  using only_movesD(7) [of s s' a] owed_State by metis

lemma Execute_owed:
  assumes "Execute t 1 p = Some q" "RemainingTime q = RemainingTime p - 1"
  shows "owed q = owed p - 1"
  using assms(2) Execute_frame(8-10) [OF assms(1)] by (simp add: owed_def io_left_def)

lemma io_checked_owed:
  assumes "io_checked c s s'"
  shows "owed (heap s' a) = owed (heap s a)"
proof -
  have "strip (heap s' a) = strip (heap s a)" using assms by (simp add: io_checked_def quiet_def)
  then have "RemainingTime (heap s' a) = RemainingTime (heap s a)" by (rule strip_eqD(5))
  then show ?thesis using assms by (cases "a = c") (simp_all add: io_checked_def owed_def)
qed

lemma updateWaiting_owed: "owed (heap (updateWaiting ps s) a) = owed (heap s a)"
  by (subst updateWaiting_heap) simp

section \<open>Idle ticks\<close>

lemma dispatch_idle:
  assumes "sim_inv s" "dispatch s = Some s'" "currentProcess s' = None"
  shows "s' = s \<and> readyQueue s = [] \<and> currentProcess s = None"
proof -
  have start: "currentProcess (scheduleNextProcess u) \<noteq> None"
    if "currentProcess u = None" "readyQueue u \<noteq> []" for u
    using scheduleNextProcess_start [OF that] start_on_frame(4) by (metis option.distinct(1))
  show ?thesis
  proof (cases "currentProcess s")
    case None
    then show ?thesis using assms(2,3) start [of s] scheduleNextProcess_empty [of s] by (auto simp: dispatch_def)
  next
    case (Some c)
    note p = preemptCurrentProcess_inv [OF assms(1) Some]
    show ?thesis
      using assms(2,3) Some start [OF p(3)] p(4) inv_current(8) [OF assms(1) Some]
      by (auto simp: dispatch_def bind_eq_Some_conv split: if_splits)
  qed
qed

lemma checkArrivals_loop_new:
  "State (heap (checkArrivals_loop ps s) a) = StateNew \<Longrightarrow>
   State (heap s a) = StateNew \<and> (a \<in> set ps \<longrightarrow> currentTime s < ArrivalTime (heap s a))"
proof (induction ps arbitrary: s)
  case (Cons p ps)
  let ?s = "if ArrivalTime (heap s p) \<le> currentTime s \<and> State (heap s p) = StateNew
        then let s = upd p (\<lambda>q. q\<lparr>State := StateReady\<rparr>) s;
                 s = s\<lparr>readyQueue := readyQueue s @ [p]\<rparr>;
                 s = s\<lparr>scheduler := sched_AddProcess (scheduler s) (heap s) p\<rparr>
             in addEvent ''arrival'' (PID (heap s p)) (sprintf_d ''Process '' (PID (heap s p)) '' arrived'') s
        else s"
  have "State (heap ?s a) = StateNew" "a \<in> set ps \<longrightarrow> currentTime ?s < ArrivalTime (heap ?s a)"
    using Cons.IH [of ?s] Cons.prems by simp_all
  then show ?case by (auto simp: Let_def split: if_splits)
qed simp

text \<open>
  A tick in which the CPU and the I/O queue are idle although some process is not finished:
  a process has not arrived yet.
\<close>

lemma idle_waits_for_arrival:
  assumes inv: "sim_inv s" and idle: "dispatch (settled s) = Some s3" "currentProcess s3 = None"
    and io: "ioQueue s = []" and a: "a \<in> set (processes s)" "\<not> IsComplete (heap s a)"
  shows "currentTime s < ArrivalTime (heap s a)"
proof -
  have "tickIOQueue (checkArrivals s) = checkArrivals s\<lparr>ioQueue := ioQueue (checkArrivals s)\<rparr>"
    using io by (simp add: tickIOQueue_def)
  then have st: "settled s = checkArrivals s" by simp
  have q: "readyQueue (checkArrivals s) = []" "currentProcess (checkArrivals s) = None"
    using dispatch_idle [OF settled_inv [OF inv] idle] unfolding st by simp_all
  have a': "pwf (heap (checkArrivals s) a)" "placed (checkArrivals s) a"
    using checkArrivals_inv [OF inv] a(1) by (simp_all add: sim_inv_def)
  have "strip (heap (checkArrivals s) a) = strip (heap s a)" using checkArrivals_quiet [of s] by (simp add: quiet_def)
  then have "RemainingTime (heap (checkArrivals s) a) = RemainingTime (heap s a)" by (rule strip_eqD(5))
  moreover have "RemainingTime (heap s a) \<noteq> 0" using a(2) by (auto simp: IsComplete_def)
  ultimately have "State (heap (checkArrivals s) a) \<noteq> StateTerminated" using a'(1) by (simp add: pwf_def)
  then have "State (heap (checkArrivals s) a) = StateNew"
    using a'(2) q io by (cases "State (heap (checkArrivals s) a)") (auto simp: placed_def)
  then show ?thesis using checkArrivals_loop_new a(1) by (simp add: checkArrivals_def)
qed

section \<open>The measure\<close>

lemma sum_owed:
  assumes "finite A" "set is \<subseteq> A" "distinct is" "\<And>a. a \<in> A \<Longrightarrow> f' a = f a - (if a \<in> set is then 1 else 0) - g a"
  shows "(\<Sum>a\<in>A. f' a) = (\<Sum>a\<in>A. f a) - int (length is) - (\<Sum>a\<in>A. (g a :: int))"
proof -
  have "(\<Sum>a\<in>A. if a \<in> set is then 1 else 0 :: int) = int (length is)"
    using assms(1-3) by (simp add: sum.If_cases Int_absorb1 distinct_card)
  then show ?thesis using assms(4) by (simp add: sum_subtractf cong: sum.cong)
qed

lemma tick_work_left:
  assumes inv: "sim_inv s" and t: "currentTime s < MaxInt64" and ex: "executeTimeUnit s = Some s'"
  shows "work_left s' \<le> work_left s - int (length (ioQueue s))"
    "\<not> isComplete s \<Longrightarrow> work_left s' < work_left s \<or> (\<exists>a\<in>set (processes s). currentTime s < ArrivalTime (heap s a))"
proof -
  have io: "set (ioQueue s) \<subseteq> set (processes s)" "distinct (ioQueue s)" using inv by (simp_all add: sim_inv_def)
  have p: "processes s' = processes s" using executeTimeUnit_total [OF inv t] ex by auto
  have "work_left s' \<le> work_left s - int (length (ioQueue s)) \<and>
    (\<not> isComplete s \<longrightarrow> work_left s' < work_left s \<or> (\<exists>a\<in>set (processes s). currentTime s < ArrivalTime (heap s a)))"
    using inv t
  proof (cases rule: tick_cases)
    case (idle s3 u)
    have "owed (heap s' a) = owed (heap s a) - (if a \<in> set (ioQueue s) then 1 else 0) - 0" for a
      using idle(6,8) ex only_moves_owed [OF idle(3)] settled_owed [OF inv] by simp
    from sum_owed [OF _ io this]
    have "work_left s' = work_left s - int (length (ioQueue s))" by (simp add: work_left_def p)
    moreover have "\<exists>a\<in>set (processes s). currentTime s < ArrivalTime (heap s a)" if "ioQueue s = []" "\<not> isComplete s"
      using idle_waits_for_arrival [OF inv idle(1,4) that(1)] that(2) by (auto simp: isComplete_def list_all_iff)
    ultimately show ?thesis by (cases "ioQueue s = []") auto
  next
    case (busy s3 c q s4 s5 s6 u)
    have u: "u = s'" using busy(20) ex by simp
    have c: "c \<in> set (processes s)"
      using inv_current(1) [OF busy(2,4)] only_movesD(1) [OF busy(3)] by simp
    have "owed (heap s' a) = owed (heap s a) - (if a \<in> set (ioQueue s) then 1 else 0) - (if a = c then 1 else 0)" for a
    proof -
      have "owed (heap s' a) = owed (heap s5 a)"
        using busy(22) u updateWaiting_owed only_moves_owed [OF busy(18)] by simp
      also have "\<dots> = owed (heap s4 a)" using busy(17) io_checked_owed by auto
      also have "\<dots> = owed (heap s3 a) - (if a = c then 1 else 0)"
        using busy(6) Execute_owed [OF busy(5,7)] by simp
      also have "owed (heap s3 a) = owed (heap s a) - (if a \<in> set (ioQueue s) then 1 else 0)"
        using only_moves_owed [OF busy(3)] settled_owed [OF inv] by simp
      finally show ?thesis .
    qed
    from sum_owed [OF _ io this] c
    show ?thesis by (simp add: work_left_def p)
  qed
  then show "work_left s' \<le> work_left s - int (length (ioQueue s))"
    "\<not> isComplete s \<Longrightarrow> work_left s' < work_left s \<or> (\<exists>a\<in>set (processes s). currentTime s < ArrivalTime (heap s a))"
    by auto
qed

section \<open>Termination\<close>

text \<open>A loop whose body fails never and either finishes or makes a measure smaller.\<close>

fun iterate :: "('s \<Rightarrow> 's option) \<Rightarrow> ('s \<Rightarrow> bool) \<Rightarrow> nat \<Rightarrow> 's \<Rightarrow> 's option" where
  "iterate body stop 0 s = Some s"
| "iterate body stop (Suc n) s = do { s \<leftarrow> body s; if stop s then Some s else iterate body stop n s }"

locale terminating_loop =
  fixes body :: "'s \<Rightarrow> 's option" and stop :: "'s \<Rightarrow> bool" and I :: "'s \<Rightarrow> bool" and m :: "'s \<Rightarrow> nat"
  assumes body_decreases: "I s \<Longrightarrow> \<exists>s'. body s = Some s' \<and> (stop s' \<or> I s' \<and> m s' < m s)"
begin

lemma iterate_stops: "I s \<Longrightarrow> m s < n \<Longrightarrow> \<exists>s'. iterate body stop n s = Some s' \<and> stop s'"
proof (induction n arbitrary: s)
  case (Suc n)
  obtain s' where s': "body s = Some s'" "stop s' \<or> I s' \<and> m s' < m s"
    using body_decreases [OF Suc.prems(1)] by blast
  then show ?case using Suc.IH [of s'] Suc.prems(2) by (cases "stop s'") auto
qed simp

end

lemma runTicks_iterate: "runTicks n s = iterate runTick (\<lambda>s. sim_state s = SimStateComplete) n s"
  by (induction n arbitrary: s) (simp_all cong: if_cong)

definition ticks_left :: "int \<Rightarrow> Simulator \<Rightarrow> nat" where
  "ticks_left lastArrival s = nat (work_left s + max 0 (lastArrival - currentTime s)) - 1"

definition running_inv :: "int \<Rightarrow> Simulator \<Rightarrow> bool" where
  "running_inv lastArrival s \<longleftrightarrow>
     base_inv s \<and> (\<forall>a\<in>set (processes s). ArrivalTime (heap s a) \<le> lastArrival) \<and>
     currentTime s + int (ticks_left lastArrival s) < MaxInt64"

lemma static_ArrivalTime:
  assumes "static s s'"
  shows "ArrivalTime (heap s' a) = ArrivalTime (heap s a)"
proof -
  have "ArrivalTime (resetProcess (heap s' a)) = ArrivalTime (resetProcess (heap s a))"
    using assms by (simp add: static_def)
  then show ?thesis by (simp add: resetProcess_def)
qed

lemma isComplete_iff:
  assumes "sim_inv s"
  shows "isComplete s \<longleftrightarrow> (\<forall>a\<in>set (processes s). RemainingTime (heap s a) = 0)"
proof -
  have "IsComplete (heap s a) \<longleftrightarrow> RemainingTime (heap s a) = 0" if "a \<in> set (processes s)" for a
  proof -
    have "pwf (heap s a)" using assms that by (simp add: sim_inv_def)
    then show ?thesis by (auto simp: pwf_def IsComplete_def)
  qed
  then show ?thesis by (simp add: isComplete_def list_all_iff)
qed

lemma complete_stays:
  assumes "sim_inv s" "currentTime s < MaxInt64" "executeTimeUnit s = Some s'" "isComplete s"
  shows "isComplete s'"
proof -
  have s': "sim_inv s'" "processes s' = processes s" using executeTimeUnit_total [OF assms(1,2)] assms(3) by auto
  have z: "RemainingTime (heap s a) = 0" if "a \<in> set (processes s)" for a
    using that assms(4) by (simp add: isComplete_iff [OF assms(1)])
  from assms(1-3) have "RemainingTime (heap s' a) = 0" if a: "a \<in> set (processes s)" for a
  proof (cases rule: tick_work)
    case idle
    then have "tallies (heap s a) (heap s' a)" using a by (auto simp: works_def)
    then show ?thesis using talliesD(4) z [OF a] by metis
  next
    case (busy c)
    then show ?thesis using z by simp
  qed
  then show ?thesis by (simp add: isComplete_iff [OF s'(1)] s'(2))
qed

lemma incomplete_owes:
  assumes "sim_inv s" "\<not> isComplete s"
  shows "1 \<le> work_left s"
proof -
  obtain a where a: "a \<in> set (processes s)" "RemainingTime (heap s a) \<noteq> 0"
    using assms isComplete_iff by blast
  have p: "pwf (heap s b)" if "b \<in> set (processes s)" for b using assms(1) that by (simp add: sim_inv_def)
  have "1 \<le> owed (heap s a)"
    using p [OF a(1)] a(2) pending_io_nonneg [of "drop (nat (CurrentIOIndex (heap s a))) (IOBursts (heap s a))"]
    unfolding owed_def io_left_def pwf_def by linarith
  also have "\<dots> \<le> work_left s"
    unfolding work_left_def using a(1) owed_nonneg [OF p] by (intro member_le_sum) auto
  finally show ?thesis .
qed

lemma tick_decreases:
  assumes "running_inv L s"
  shows "\<exists>s'. runTick s = Some s' \<and> (sim_state s' = SimStateComplete \<or> running_inv L s' \<and> ticks_left L s' < ticks_left L s)"
proof -
  have b: "base_inv s" "sim_inv s" and t: "currentTime s < MaxInt64"
    and arr: "\<forall>a\<in>set (processes s). ArrivalTime (heap s a) \<le> L"
    using assms by (auto simp: running_inv_def base_inv_def)
  obtain u where u: "executeTimeUnit s = Some u" using executeTimeUnit_total [OF b(2) t] by blast
  note bu = executeTimeUnit_base [OF b(1) t u]
  show ?thesis
  proof (cases "isComplete u")
    case True
    then show ?thesis using u by (simp add: runTick_def)
  next
    case False
    then have inc: "\<not> isComplete s" using complete_stays [OF b(2) t u] by blast
    have "sim_inv u" using bu(1) by (simp add: base_inv_def)
    from incomplete_owes [OF this False] have w: "1 \<le> work_left u" .
    have "work_left u < work_left s \<or> currentTime s < L \<and> work_left u \<le> work_left s"
      using tick_work_left [OF b(2) t u] inc arr by fastforce
    then have less: "ticks_left L u < ticks_left L s"
      using w bu(3) unfolding ticks_left_def by linarith
    have "running_inv L u"
      using assms bu static_ArrivalTime [OF bu(2)] less by (simp add: running_inv_def static_def)
    then show ?thesis using u False less by (simp add: runTick_def)
  qed
qed

interpretation run: terminating_loop runTick "\<lambda>s. sim_state s = SimStateComplete" "running_inv L" "ticks_left L" for L
  by unfold_locales (rule tick_decreases)

text \<open>The work of a workload that has just been added.\<close>

definition demand :: "process \<Rightarrow> int" where
  "demand p = BurstTime p + (\<Sum>b\<leftarrow>IOBursts p. max 0 (Duration b))"

lemma owed_fresh:
  assumes "fresh p"
  shows "owed p = demand p"
proof -
  have eq: "resetProcess p = p" using assms by (simp add: fresh_def)
  have "IOBursts (resetProcess p) = map (\<lambda>b. b\<lparr>Completed := False\<rparr>) (IOBursts p)"
    by (simp add: resetProcess_def)
  then have "map (\<lambda>b. b\<lparr>Completed := False\<rparr>) (IOBursts p) = IOBursts p" unfolding eq by (rule sym)
  then have "\<not> Completed b" if "b \<in> set (IOBursts p)" for b
    using that by (metis IOBurst.select_convs(3) IOBurst.surjective IOBurst.update_convs(3) in_set_conv_nth length_map nth_map)
  then have "pending_io (IOBursts p) = (\<Sum>b\<leftarrow>IOBursts p. max 0 (Duration b))"
    unfolding pending_io_def by (intro arg_cong [where f = sum_list] map_cong) auto
  then show ?thesis using freshD [OF assms] by (simp add: owed_def io_left_def demand_def)
qed

lemma work_left_added:
  assumes "base_inv s" "fresh p" "mset ps = mset (processes s @ [next_addr s])"
  shows "work_left (added p ps s) = work_left s + demand p"
proof -
  have set: "set ps = insert (next_addr s) (set (processes s))" using mset_eq_setD [OF assms(3)] by simp
  have new: "next_addr s \<notin> set (processes s)" using assms(1) by (auto simp: base_inv_def)
  have "(\<Sum>a\<in>set (processes s). owed (((heap s)(next_addr s := p)) a)) = work_left s"
    unfolding work_left_def using new by (intro sum.cong) auto
  then show ?thesis using new owed_fresh [OF assms(2)] by (simp add: work_left_def set)
qed

lemma AddProcesses_work:
  assumes "slice_sort sortSlice"
  shows "base_inv s \<Longrightarrow> \<forall>p\<in>set ps. fresh p \<and> ArrivalTime p \<le> L \<Longrightarrow>
    \<forall>a\<in>set (processes s). ArrivalTime (heap s a) \<le> L \<Longrightarrow>
    base_inv (Simulator_AddProcesses sortSlice ps s) \<and>
    currentTime (Simulator_AddProcesses sortSlice ps s) = currentTime s \<and>
    (\<forall>a\<in>set (processes (Simulator_AddProcesses sortSlice ps s)).
       ArrivalTime (heap (Simulator_AddProcesses sortSlice ps s) a) \<le> L) \<and>
    work_left (Simulator_AddProcesses sortSlice ps s) = work_left s + (\<Sum>p\<leftarrow>ps. demand p)"
proof (induction ps arbitrary: s)
  case (Cons p ps)
  obtain as where as: "Simulator_AddProcess sortSlice p s = added p as s" "mset as = mset (processes s @ [next_addr s])"
    by (rule AddProcess_added [OF assms])
  have f: "fresh p" "ArrivalTime p \<le> L" using Cons.prems(2) by simp_all
  have "base_inv (added p as s)" by (rule added_base [OF Cons.prems(1) f(1) as(2)])
  moreover have "\<forall>a\<in>set (processes (added p as s)). ArrivalTime (heap (added p as s) a) \<le> L"
    using f(2) Cons.prems(3) mset_eq_setD [OF as(2)] by auto
  ultimately show ?case
    using Cons.IH [of "added p as s"] Cons.prems(2) work_left_added [OF Cons.prems(1) f(1) as(2)]
    by (simp add: as(1))
qed simp

lemma complete_runTicks:
  "runTicks n s = Some s' \<Longrightarrow> sim_state s \<noteq> SimStateComplete \<Longrightarrow> sim_inv s \<Longrightarrow> currentTime s + int n \<le> MaxInt64 \<Longrightarrow>
   sim_state s' = SimStateComplete \<Longrightarrow> isComplete s'"
proof (induction n arbitrary: s)
  case (Suc n)
  have t: "currentTime s < MaxInt64" using Suc.prems(4) by simp
  obtain u where u: "executeTimeUnit s = Some u" "sim_inv u" "currentTime u = currentTime s + 1" "sim_state u = sim_state s"
    using executeTimeUnit_total [OF Suc.prems(3) t] by metis
  show ?case
  proof (cases "isComplete u")
    case True
    then have "s' = u\<lparr>sim_state := SimStateComplete\<rparr>"
      using Suc.prems(1) u(1) by (simp add: runTick_def)
    then show ?thesis using True by (simp add: isComplete_def)
  next
    case False
    then show ?thesis using Suc.IH [of u] Suc.prems u by (simp add: runTick_def)
  qed
qed simp

lemma running_inv_control [simp]:
  "ticks_left L (s\<lparr>sim_state := st\<rparr>) = ticks_left L s" "ticks_left L (s\<lparr>speed := v\<rparr>) = ticks_left L s"
  "running_inv L (s\<lparr>sim_state := st\<rparr>) = running_inv L s" "running_inv L (s\<lparr>speed := v\<rparr>) = running_inv L s"
  by (simp_all add: running_inv_def ticks_left_def work_left_def)

lemma completes:
  assumes "slice_sort sortSlice" "sched_ok sch" "\<forall>p\<in>set ps. fresh p \<and> ArrivalTime p \<le> lastArrival"
    and "0 \<le> lastArrival" "1 \<le> n" "lastArrival + (\<Sum>p\<leftarrow>ps. demand p) \<le> int n" "int n \<le> MaxInt64"
    and "st \<noteq> SimStateComplete"
  shows "\<exists>s. runTicks n (Simulator_AddProcesses sortSlice ps (NewSimulator sch)\<lparr>sim_state := st, speed := v\<rparr>) = Some s \<and>
    sim_state s = SimStateComplete \<and> isComplete s"
proof -
  let ?s = "Simulator_AddProcesses sortSlice ps (NewSimulator sch)"
  let ?r = "?s\<lparr>sim_state := st, speed := v\<rparr>"
  have new: "work_left (NewSimulator sch) = 0" "currentTime (NewSimulator sch) = 0"
    "processes (NewSimulator sch) = []"
    by (simp_all add: work_left_def NewSimulator_def)
  note s = AddProcesses_work [OF assms(1) NewSimulator_base [OF assms(2)] assms(3), unfolded new]
  have tl: "ticks_left lastArrival ?s < n"
    using s assms(4-6) unfolding ticks_left_def by auto
  then have "running_inv lastArrival ?r" "ticks_left lastArrival ?r < n"
    using s assms(7) by (simp_all add: running_inv_def)
  from run.iterate_stops [OF this] obtain s' where s': "runTicks n ?r = Some s'" "sim_state s' = SimStateComplete"
    by (auto simp: runTicks_iterate)
  have "base_inv ?r" using s by simp
  then have "isComplete s'"
    using complete_runTicks [OF s'(1) _ _ _ s'(2)] s assms(7,8) by (simp add: base_inv_def)
  with s' show ?thesis by blast
qed

end
