(* ===== verification/Engine_Report.thy ===== *)
theory Engine_Report
  imports Engine_Gantt Engine_Progress
begin

text \<open>
  What a whole run does, for the clients of the engine: the workload that was handed over is kept
  through every run, a started simulator completes in time, and the chart and the clock of the
  final state account for exactly this workload.
\<close>

text \<open>The configuration of the processes, as it was handed over, is kept through every run.\<close>

definition workload :: "Simulator \<Rightarrow> process multiset" where
  "workload s = image_mset (\<lambda>a. resetProcess (heap s a)) (mset (processes s))"

lemma workload_added:
  assumes "base_inv s" "fresh p" "mset ps = mset (processes s @ [next_addr s])"
  shows "workload (added p ps s) = add_mset p (workload s)"
proof -
  have new: "next_addr s \<notin> set (processes s)" using assms(1) by (auto simp: base_inv_def)
  have "image_mset (\<lambda>a. resetProcess (((heap s)(next_addr s := p)) a)) (mset (processes s)) = workload s"
    unfolding workload_def using new by (intro image_mset_cong) auto
  then show ?thesis using assms(2,3) by (simp add: workload_def fresh_def)
qed

lemma AddProcesses_workload:
  assumes "slice_sort sortSlice"
  shows "reachable sortSlice s \<Longrightarrow> \<forall>p\<in>set ps. fresh p \<Longrightarrow>
    reachable sortSlice (Simulator_AddProcesses sortSlice ps s) \<and>
    workload (Simulator_AddProcesses sortSlice ps s) = mset ps + workload s"
proof (induction ps arbitrary: s)
  case (Cons p ps)
  obtain as where as: "Simulator_AddProcess sortSlice p s = added p as s" "mset as = mset (processes s @ [next_addr s])"
    by (rule AddProcess_added [OF assms])
  have b: "base_inv s" using structural.reachable_inv [OF assms Cons.prems(1)] by blast
  have "reachable sortSlice (Simulator_AddProcess sortSlice p s)" using Cons.prems by (intro reachable.add) auto
  then show ?case using Cons.IH [of "Simulator_AddProcess sortSlice p s"] Cons.prems(2) workload_added [OF b _ as(2)]
    by (simp add: as(1))
qed simp

lemma runTicks_workload:
  "base_inv s \<Longrightarrow> currentTime s + int n \<le> MaxInt64 \<Longrightarrow> runTicks n s = Some s' \<Longrightarrow> workload s' = workload s"
proof (induction n arbitrary: s)
  case (Suc n)
  have t: "currentTime s < MaxInt64" using Suc.prems(2) by simp
  obtain u where u: "executeTimeUnit s = Some u"
    using executeTimeUnit_total [OF _ t] Suc.prems(1) by (metis base_inv_def)
  note b = executeTimeUnit_base [OF Suc.prems(1) t u]
  let ?s = "if isComplete u then u\<lparr>sim_state := SimStateComplete\<rparr> else u"
  have r: "runTick s = Some ?s" using u by (simp add: runTick_def)
  have eq: "workload ?s = workload s" using b(2) by (simp add: workload_def static_def)
  have "base_inv ?s" "currentTime ?s + int n \<le> MaxInt64"
    using b Suc.prems(2) by simp_all
  from Suc.IH [OF this] Suc.prems(3) r eq show ?case by (auto split: if_splits)
qed simp

lemma sum_complete_workload:
  assumes "sim_inv s" "isComplete s" "workload s = mset ps"
  shows "(\<Sum>a\<in>set (processes s). if P (PID (heap s a)) then BurstTime (heap s a) - RemainingTime (heap s a) else 0) =
         (\<Sum>p\<leftarrow>ps. if P (PID p) then BurstTime p else 0)"
proof -
  let ?f = "\<lambda>p. if P (PID p) then BurstTime p else 0"
  have "(\<Sum>a\<in>set (processes s). if P (PID (heap s a)) then BurstTime (heap s a) - RemainingTime (heap s a) else 0) =
      (\<Sum>a\<in>set (processes s). ?f (resetProcess (heap s a)))"
    using assms(2) isComplete_iff [OF assms(1)] by (intro sum.cong) (auto simp: resetProcess_def)
  also have "\<dots> = (\<Sum>a\<leftarrow>processes s. ?f (resetProcess (heap s a)))"
    using assms(1) by (simp add: sum_list_distinct_conv_sum_set sim_inv_def)
  also have "\<dots> = sum_mset (image_mset ?f (workload s))"
    by (simp only: workload_def sum_mset_sum_list [symmetric] mset_map multiset.map_comp comp_def)
  also have "\<dots> = (\<Sum>p\<leftarrow>ps. ?f p)"
    by (simp only: assms(3) mset_map [symmetric] sum_mset_sum_list)
  finally show ?thesis .
qed

text \<open>
  A run of a started simulator, at any speed: it completes in time, its final state is reachable
  and still has the given workload, and chart and clock account for every burst.
\<close>

lemma run_report:
  assumes "slice_sort sortSlice" "sched_ok sch" "\<forall>p\<in>set ps. fresh p \<and> ArrivalTime p \<le> lastArrival"
    and "0 \<le> lastArrival" "1 \<le> n" "lastArrival + (\<Sum>p\<leftarrow>ps. demand p) \<le> int n" "int n \<le> MaxInt64"
    and start: "s0 = Simulator_AddProcesses sortSlice ps (NewSimulator sch)\<lparr>sim_state := SimStateRunning, speed := v\<rparr>"
    and reach: "reachable sortSlice s0"
  shows "\<exists>s. runTicks n s0 = Some s \<and> sim_state s = SimStateComplete \<and> isComplete s \<and>
    reachable sortSlice s \<and> workload s = mset ps \<and>
    (\<forall>pid. pid \<noteq> -1 \<longrightarrow> gantt_time pid (ganttChart s) = (\<Sum>p\<leftarrow>ps. if PID p = pid then BurstTime p else 0)) \<and>
    currentTime s = (\<Sum>p\<leftarrow>ps. BurstTime p) + totalIdleTime s"
proof -
  have w0: "workload (NewSimulator sch) = {#}" by (simp add: workload_def NewSimulator_def)
  have "reachable sortSlice (NewSimulator sch)" by (rule reachable.new [OF assms(2)])
  then have w: "workload s0 = mset ps"
    using AddProcesses_workload [OF assms(1), of "NewSimulator sch" ps] assms(3) w0 by (auto simp: start workload_def)
  have b0: "base_inv s0" using structural.reachable_inv [OF assms(1) reach] by blast
  have t0: "currentTime s0 + int n \<le> MaxInt64" using assms(7) by (simp add: start NewSimulator_def)
  obtain s where s: "runTicks n s0 = Some s" "sim_state s = SimStateComplete" "isComplete s"
    using completes [OF assms(1-7), of SimStateRunning v] by (auto simp: start)
  have r: "reachable sortSlice s" using reachable_runTicks [OF reach _ t0 s(1)] b0 by (simp add: base_inv_def)
  have inv: "sim_inv s" "time_inv s" "gantt_inv s"
    using gantt.reachable_inv [OF assms(1) r] by (auto simp: base_inv_def)
  have ws: "workload s = mset ps" using runTicks_workload [OF b0 t0 s(1)] w by simp
  note sum = sum_complete_workload [OF inv(1) s(3) ws]
  have "gantt_time pid (ganttChart s) = (\<Sum>p\<leftarrow>ps. if PID p = pid then BurstTime p else 0)" if "pid \<noteq> -1" for pid
    using sum [of "\<lambda>i. i = pid"] inv(3) that by (simp add: gantt_inv_def cpu_time_def executed_def cong: if_cong)
  moreover have "currentTime s = (\<Sum>p\<leftarrow>ps. BurstTime p) + totalIdleTime s"
    using sum [of "\<lambda>_. True"] inv(2) by (simp add: time_inv_def busy_time_def executed_def)
  ultimately show ?thesis using s r ws by blast
qed

end
