(* ===== verification/Engine_Times.thy ===== *)
theory Engine_Times
  imports Engine_Accounting
begin

text \<open>
  The times a process records: first start and response, and at its completion the turnaround
  and waiting time.
\<close>

definition times_ok :: "int \<Rightarrow> process \<Rightarrow> bool" where
  "times_ok t p \<longleftrightarrow>
     (HasStarted p \<longleftrightarrow> RemainingTime p < BurstTime p) \<and>
     (HasStarted p \<longrightarrow> ArrivalTime p \<le> StartTime p \<and> StartTime p + executed p \<le> t \<and>
        ResponseTime p = StartTime p - ArrivalTime p) \<and>
     (RemainingTime p = 0 \<longrightarrow> StartTime p + BurstTime p \<le> CompletionTime p \<and> CompletionTime p \<le> t \<and>
        TurnaroundTime p = CompletionTime p - ArrivalTime p \<and>
        WaitingTime p = TurnaroundTime p - BurstTime p)"

lemma times_ok_tallies: "tallies p q \<Longrightarrow> times_ok t p \<Longrightarrow> times_ok t q"
  using talliesD [of p q] by (simp add: times_ok_def executed_def)

lemma times_ok_later: "times_ok t p \<Longrightarrow> t \<le> t' \<Longrightarrow> times_ok t' p"
  by (auto simp: times_ok_def)

lemma times_ok_Execute:
  assumes ok: "times_ok t p" and p: "pwf p" "0 < RemainingTime p" "ArrivalTime p \<le> t" and t: "0 \<le> t" "t < MaxInt64"
  shows "times_ok (t + 1) (the (Execute t 1 p))"
proof -
  have w: "0 < Weight p" "RemainingTime p \<le> MaxInt64" "0 \<le> ArrivalTime p" "1 \<le> BurstTime p"
      "BurstTime p \<le> MaxInt64" "RemainingTime p \<le> BurstTime p"
    using p(1) by (auto simp: pwf_def)
  have a: "i64 (t + 1) = t + 1" "i64 (t - ArrivalTime p) = t - ArrivalTime p"
      "i64 (t + 1 - ArrivalTime p) = t + 1 - ArrivalTime p"
      "i64 (t + 1 - ArrivalTime p - BurstTime p) = t + 1 - ArrivalTime p - BurstTime p"
    using t p w by (auto intro!: i64_succ i64_diff_nonneg)
  show ?thesis
    using ok p(2,3) w(4,6)
    by (cases "HasStarted p"; cases "RemainingTime p = 1")
      (auto simp: Execute_1 [OF w(1) p(2) w(2)] Let_def a times_ok_def executed_def)
qed

definition times_inv :: "Simulator \<Rightarrow> bool" where
  "times_inv s \<longleftrightarrow> (\<forall>a\<in>set (processes s). times_ok (currentTime s) (heap s a))"

lemma times_ok_fresh: "fresh p \<Longrightarrow> times_ok t p"
  using freshD [of p] by (simp add: times_ok_def)

lemma times_inv_tick:
  assumes "base_inv s" "times_inv s" "currentTime s < MaxInt64" "executeTimeUnit s = Some s'"
  shows "times_inv s'"
proof -
  have inv: "sim_inv s" using assms(1) by (simp add: base_inv_def)
  have p: "processes s' = processes s" "currentTime s' = currentTime s + 1"
    using executeTimeUnit_base [OF assms(1,3,4)] by (simp_all add: static_def)
  have ok: "times_ok (currentTime s) (heap s a)" "pwf (heap s a)" if "a \<in> set (processes s)" for a
    using that assms(2) inv by (simp_all add: times_inv_def sim_inv_def)
  have t: "0 \<le> currentTime s" using inv by (simp add: sim_inv_def)
  obtain c where c: "works s c s'"
    "\<And>a. c = Some a \<Longrightarrow> 0 < RemainingTime (heap s a) \<and> ArrivalTime (heap s a) \<le> currentTime s"
    using tick_work [OF inv assms(3,4)] by (metis option.distinct(1) option.inject)
  have "times_ok (currentTime s + 1) (heap s' a)" if a: "a \<in> set (processes s)" for a
  proof (cases "c = Some a")
    case True
    then have "times_ok (currentTime s + 1) (the (Execute (currentTime s) 1 (heap s a)))"
      using c(2) ok [OF a] t assms(3) by (intro times_ok_Execute) auto
    then show ?thesis using c(1) a True times_ok_tallies by (auto simp: works_def)
  next
    case False
    then have "tallies (heap s a) (heap s' a)" using c(1) a by (auto simp: works_def)
    then show ?thesis using times_ok_tallies times_ok_later [OF ok(1) [OF a]] by simp
  qed
  then show ?thesis by (simp add: times_inv_def p)
qed

interpretation times: engine_invariant times_inv
proof unfold_locales
  show "times_inv (NewSimulator sch)" for sch by (simp add: times_inv_def NewSimulator_def)
  show "times_inv (added p ps s)"
    if "base_inv s" "times_inv s" "fresh p" "mset ps = mset (processes s @ [next_addr s])" for s p ps
    using that(2) times_ok_fresh [OF that(3)] mset_eq_setD [OF that(4)] by (auto simp: times_inv_def)
  show "times_inv (Reset taken s)" if "base_inv s" for s taken
    using that times_ok_fresh by (simp add: times_inv_def base_inv_def)
qed (simp_all add: times_inv_tick, simp_all add: times_inv_def)

text \<open>
  C22: The times of a finished process are consistent: it started at or after its arrival, its
  response time is the distance from arrival to first start, the turnaround time the distance
  from arrival to completion, the waiting time is turnaround minus burst, and the waiting time
  is at least the response time, so none of the times is negative.
\<close>

theorem completion_times:
  assumes "slice_sort sortSlice" "reachable sortSlice s" "a \<in> set (processes s)" "IsComplete (heap s a)"
  shows "ResponseTime (heap s a) = StartTime (heap s a) - ArrivalTime (heap s a) \<and>
    TurnaroundTime (heap s a) = CompletionTime (heap s a) - ArrivalTime (heap s a) \<and>
    WaitingTime (heap s a) = TurnaroundTime (heap s a) - BurstTime (heap s a) \<and>
    0 \<le> ResponseTime (heap s a) \<and> ResponseTime (heap s a) \<le> WaitingTime (heap s a) \<and>
    CompletionTime (heap s a) \<le> currentTime s"
proof -
  have inv: "base_inv s" "times_inv s" using times.reachable_inv [OF assms(1,2)] by auto
  then have p: "pwf (heap s a)" "times_ok (currentTime s) (heap s a)"
    using assms(3) by (auto simp: base_inv_def sim_inv_def times_inv_def)
  then have "RemainingTime (heap s a) = 0" using assms(4) by (auto simp: IsComplete_def pwf_def)
  with p show ?thesis by (auto simp: times_ok_def pwf_def)
qed

theorem completion_times_witness:
  "\<exists>s a. runTicks 3 (demo (FCFS NewFCFSScheduler)) = Some s \<and> a \<in> set (processes s) \<and> IsComplete (heap s a) \<and>
     WaitingTime (heap s a) = TurnaroundTime (heap s a) - BurstTime (heap s a)"
proof -
  obtain s where s: "runTicks 3 (demo (FCFS NewFCFSScheduler)) = Some s" "reachable (\<lambda>key. sort_key key) s"
    using demo_run [OF constructors_ok(1), of 3] by auto
  have "map_option (\<lambda>s. (processes s, IsComplete (heap s 0))) (runTicks 3 (demo (FCFS NewFCFSScheduler))) =
      Some ([0, 1], True)"
    by code_simp
  then have c: "0 \<in> set (processes s)" "IsComplete (heap s 0)" using s(1) by auto
  show ?thesis using completion_times [OF stable.slice_sort_axioms s(2) c] s(1) c by blast
qed

end
