(* ===== verification/Engine_Metrics.thy ===== *)
theory Engine_Metrics
  imports Engine_Times
begin

text \<open>
  The read-only side of the engine: \<^verbatim>\<open>calculateMetrics\<close> and \<^verbatim>\<open>snapshotState\<close>. The floating
  point numbers are computed as the hardware rounds them (\<open>Float64\<close>); the time stamp is an
  argument. The lemmas show that a snapshot shows every arrived process exactly once, and that
  the metrics stay in their ranges in spite of rounding.
\<close>

section \<open>Model\<close>

text \<open>The loop of \<^verbatim>\<open>calculateMetrics\<close> with its four counters: completed, turnaround, waiting, response.\<close>

fun metrics_loop :: "heap \<Rightarrow> addr list \<Rightarrow> int \<times> int \<times> int \<times> int \<Rightarrow> int \<times> int \<times> int \<times> int" where
  "metrics_loop h [] acc = acc"
| "metrics_loop h (p # ps) (completed, totalTurnaround, totalWaiting, totalResponse) =
     metrics_loop h ps
       (if IsComplete (h p)
        then (i64 (completed + 1), i64 (totalTurnaround + TurnaroundTime (h p)),
              i64 (totalWaiting + WaitingTime (h p)), i64 (totalResponse + ResponseTime (h p)))
        else (completed, totalTurnaround, i64 (totalWaiting + WaitingTime (h p)), totalResponse))"

definition calculateMetrics :: "int \<Rightarrow> Simulator \<Rightarrow> SchedulingMetrics" where
  "calculateMetrics now s =
     (let totalProcesses = int (length (processes s));
          (completed, totalTurnaround, totalWaiting, totalResponse) = metrics_loop (heap s) (processes s) (0, 0, 0, 0);
          avgWaiting = (if 0 < totalProcesses then fdiv (float64 totalWaiting) (float64 totalProcesses) else 0);
          avgTurnaround = (if 0 < completed then fdiv (float64 totalTurnaround) (float64 completed) else 0);
          avgResponse = (if 0 < completed then fdiv (float64 totalResponse) (float64 completed) else 0);
          cpuUtil = (if 0 < currentTime s
                     then fmul (fdiv (float64 (i64 (currentTime s - totalIdleTime s))) (float64 (currentTime s))) 100
                     else 0);
          throughput = (if 0 < currentTime s then fdiv (float64 completed) (float64 (currentTime s)) else 0)
      in \<lparr>m_TotalProcesses = totalProcesses, m_CompletedProcesses = completed,
          m_AverageTurnaroundTime = avgTurnaround, m_AverageWaitingTime = avgWaiting,
          m_AverageResponseTime = avgResponse, m_CPUUtilization = cpuUtil, m_Throughput = throughput,
          m_ContextSwitches = contextSwitches s, m_TotalTime = currentTime s,
          m_Algorithm = sched_Name (scheduler s), m_Timestamp = now\<rparr>)"

definition snapshotState :: "int \<Rightarrow> Simulator \<Rightarrow> SimulationUpdate" where
  "snapshotState now s =
     \<lparr>u_CurrentTime = currentTime s,
      u_CurrentProcess = map_option (\<lambda>c. Clone (heap s c)) (currentProcess s),
      u_ReadyQueue = map (\<lambda>p. Clone (heap s p)) (readyQueue s),
      u_WaitingQueue = map (\<lambda>p. Clone (heap s p)) (ioQueue s),
      u_CompletedProcesses = map (\<lambda>p. Clone (heap s p)) (filter (\<lambda>p. IsComplete (heap s p)) (processes s)),
      u_GanttChart = ganttChart s, u_Events = events s,
      u_Metrics = calculateMetrics now s, u_State = sim_state s, u_Algorithm = sched_Name (scheduler s)\<rparr>"

section \<open>Snapshots\<close>

lemma mset_place:
  assumes "distinct xs" "distinct ps" "\<And>a. a \<in> set xs \<longleftrightarrow> a \<in> set ps \<and> P a"
  shows "mset xs = filter_mset P (mset ps)"
proof -
  have "mset xs = mset (filter P ps)"
    using assms by (intro set_eq_iff_mset_eq_distinct [THEN iffD1]) auto
  then show ?thesis by simp
qed

lemma inv_places:
  assumes "sim_inv s"
  shows "mset (readyQueue s) = {#a \<in># mset (processes s). State (heap s a) = StateReady#}"
    "mset (ioQueue s) = {#a \<in># mset (processes s). State (heap s a) = StateWaiting#}"
    "(case currentProcess s of None \<Rightarrow> {#} | Some c \<Rightarrow> {#c#}) = {#a \<in># mset (processes s). State (heap s a) = StateRunning#}"
    "{#a \<in># mset (processes s). IsComplete (heap s a)#} = {#a \<in># mset (processes s). State (heap s a) = StateTerminated#}"
proof -
  have d: "distinct (processes s)" "distinct (readyQueue s)" "distinct (ioQueue s)"
    and pl: "\<And>a. a \<in> set (processes s) \<Longrightarrow> placed s a \<and> pwf (heap s a)"
    and sub: "set (readyQueue s) \<subseteq> set (processes s)" "set (ioQueue s) \<subseteq> set (processes s)"
      "set_option (currentProcess s) \<subseteq> set (processes s)"
    using assms by (auto simp: sim_inv_def)
  show "mset (readyQueue s) = {#a \<in># mset (processes s). State (heap s a) = StateReady#}"
    using pl sub by (intro mset_place d) (auto simp: placed_def)
  show "mset (ioQueue s) = {#a \<in># mset (processes s). State (heap s a) = StateWaiting#}"
    using pl sub by (intro mset_place d) (auto simp: placed_def)
  have "mset (case currentProcess s of None \<Rightarrow> [] | Some c \<Rightarrow> [c]) = {#a \<in># mset (processes s). State (heap s a) = StateRunning#}"
    using pl sub inv_current(3) [OF assms] by (intro mset_place d) (auto simp: placed_def split: option.splits)
  then show "(case currentProcess s of None \<Rightarrow> {#} | Some c \<Rightarrow> {#c#}) = {#a \<in># mset (processes s). State (heap s a) = StateRunning#}"
    by (auto split: option.splits)
  show "{#a \<in># mset (processes s). IsComplete (heap s a)#} = {#a \<in># mset (processes s). State (heap s a) = StateTerminated#}"
  proof (rule filter_mset_cong [OF refl])
    fix a assume "a \<in># mset (processes s)"
    then have "pwf (heap s a)" using pl by simp
    then show "IsComplete (heap s a) \<longleftrightarrow> State (heap s a) = StateTerminated" by (auto simp: IsComplete_def pwf_def)
  qed
qed

lemma arrived_split:
  "{#a \<in># M. State (h a) \<noteq> StateNew#} =
     {#a \<in># M. State (h a) = StateReady#} + {#a \<in># M. State (h a) = StateWaiting#} +
     {#a \<in># M. State (h a) = StateRunning#} + {#a \<in># M. State (h a) = StateTerminated#}"
proof (induction M)
  case (add a M)
  then show ?case by (cases "State (h a)") simp_all
qed simp

text \<open>
  C31: A snapshot of a reachable state is complete and free of duplicates: its ready queue, I/O
  queue, running process and completed list together hold every process that has arrived
  exactly once, and no other.
\<close>

theorem snapshot_partition:
  assumes "slice_sort sortSlice" "reachable sortSlice s"
  shows "mset (u_ReadyQueue (snapshotState now s)) + mset (u_WaitingQueue (snapshotState now s)) +
     (case u_CurrentProcess (snapshotState now s) of None \<Rightarrow> {#} | Some p \<Rightarrow> {#p#}) +
     mset (u_CompletedProcesses (snapshotState now s)) =
   image_mset (heap s) {#a \<in># mset (processes s). State (heap s a) \<noteq> StateNew#}"
proof -
  have inv: "sim_inv s" using structural.reachable_inv [OF assms] by (simp add: base_inv_def)
  have "(case map_option (heap s) (currentProcess s) of None \<Rightarrow> {#} | Some p \<Rightarrow> {#p#}) =
      image_mset (heap s) (case currentProcess s of None \<Rightarrow> {#} | Some c \<Rightarrow> {#c#})"
    by (auto split: option.splits)
  then show ?thesis
    by (simp add: snapshotState_def arrived_split inv_places [OF inv])
qed

theorem snapshot_partition_witness:
  "\<exists>s. runTicks 2 (demo (RoundRobin (NewRoundRobinScheduler 1))) = Some s \<and>
     mset (u_ReadyQueue (snapshotState 0 s)) + mset (u_WaitingQueue (snapshotState 0 s)) +
     (case u_CurrentProcess (snapshotState 0 s) of None \<Rightarrow> {#} | Some p \<Rightarrow> {#p#}) +
     mset (u_CompletedProcesses (snapshotState 0 s)) =
     image_mset (heap s) {#a \<in># mset (processes s). State (heap s a) \<noteq> StateNew#}"
  using demo_run [OF constructors_ok(4), of 2 1] snapshot_partition [OF stable.slice_sort_axioms, of _ 0] by fastforce

section \<open>Ranges of the metrics\<close>

lemma fdiv_mono: "x \<le> y \<Longrightarrow> 0 \<le> z \<Longrightarrow> fdiv x z \<le> fdiv y z"
  unfolding fdiv_def by (intro fround_mono divide_right_mono)

lemma fdiv_nonneg: "0 \<le> x \<Longrightarrow> 0 \<le> y \<Longrightarrow> 0 \<le> fdiv x y"
  unfolding fdiv_def by (intro fround_nonneg divide_nonneg_nonneg)

lemma float64_nonneg: "0 \<le> n \<Longrightarrow> 0 \<le> float64 n"
  using float64_mono [of 0 n] by (simp add: float64_def)

lemma fround_int: "\<bar>n\<bar> < 2 ^ 53 \<Longrightarrow> fround (of_int n) = of_int n"
  using float64_exact by (simp add: float64_def)

lemma percentage_range:
  assumes "0 \<le> a" "a \<le> b" "0 < b"
  shows "0 \<le> fmul (fdiv (float64 a) (float64 b)) 100" "fmul (fdiv (float64 a) (float64 b)) 100 \<le> 100"
    "a = b \<Longrightarrow> fmul (fdiv (float64 a) (float64 b)) 100 = 100"
proof -
  have one: "fround 1 = 1" "fround 100 = 100" using fround_int [of 1] fround_int [of 100] by simp_all
  have b: "0 < float64 b" using assms(3) by (rule float64_pos)
  have "float64 a / float64 b \<le> 1" using float64_mono [OF assms(2)] b by simp
  then have d: "fdiv (float64 a) (float64 b) \<le> 1" unfolding fdiv_def using fround_mono one(1) by fastforce
  have d0: "0 \<le> fdiv (float64 a) (float64 b)"
    using float64_nonneg [OF assms(1)] b by (intro fdiv_nonneg) auto
  show "0 \<le> fmul (fdiv (float64 a) (float64 b)) 100"
    unfolding fmul_def using d0 by (intro fround_nonneg) simp
  show "fmul (fdiv (float64 a) (float64 b)) 100 \<le> 100"
    unfolding fmul_def using fround_mono [of "fdiv (float64 a) (float64 b) * 100" 100] d one(2) by simp
  show "fmul (fdiv (float64 a) (float64 b)) 100 = 100" if "a = b"
    using that b one by (simp add: fdiv_def fmul_def)
qed

text \<open>
  C33: The CPU utilisation of a reachable state is a percentage: it lies between 0 and 100 with all
  its rounding, and it is exactly 100 when time has passed and no tick was idle.
\<close>

theorem cpu_utilization_range:
  assumes "slice_sort sortSlice" "reachable sortSlice s" "currentTime s \<le> MaxInt64"
  shows "0 \<le> m_CPUUtilization (calculateMetrics now s) \<and> m_CPUUtilization (calculateMetrics now s) \<le> 100 \<and>
    (0 < currentTime s \<and> totalIdleTime s = 0 \<longrightarrow> m_CPUUtilization (calculateMetrics now s) = 100)"
proof -
  have inv: "sim_inv s" "time_inv s"
    using conservation.reachable_inv [OF assms(1,2)] by (auto simp: base_inv_def)
  then have i: "0 \<le> totalIdleTime s" "totalIdleTime s \<le> currentTime s"
    using busy_time_nonneg [OF inv(1)] by (auto simp: time_inv_def)
  then have "i64 (currentTime s - totalIdleTime s) = currentTime s - totalIdleTime s"
    using assms(3) by (intro i64_diff_nonneg) auto
  then have u: "m_CPUUtilization (calculateMetrics now s) = (if 0 < currentTime s
      then fmul (fdiv (float64 (currentTime s - totalIdleTime s)) (float64 (currentTime s))) 100 else 0)"
    by (simp add: calculateMetrics_def case_prod_beta Let_def)
  show ?thesis unfolding u
    using percentage_range [of "currentTime s - totalIdleTime s" "currentTime s"] i by auto
qed

theorem cpu_utilization_range_witness:
  "\<exists>s. runTicks 2 (demo (FCFS NewFCFSScheduler)) = Some s \<and> m_CPUUtilization (calculateMetrics 0 s) \<le> 100"
proof -
  obtain s where s: "runTicks 2 (demo (FCFS NewFCFSScheduler)) = Some s" "reachable (\<lambda>key. sort_key key) s"
    using demo_run [OF constructors_ok(1), of 2] by auto
  have "map_option currentTime (runTicks 2 (demo (FCFS NewFCFSScheduler))) = Some 2" by code_simp
  then have "currentTime s \<le> MaxInt64" using s(1) by simp
  from cpu_utilization_range [OF stable.slice_sort_axioms s(2) this, of 0] s(1) show ?thesis by blast
qed

text \<open>When every process has finished, the counters are plain sums, unless the sums overflow.\<close>

lemma metrics_loop_complete:
  assumes "\<And>p. p \<in> set ps \<Longrightarrow> IsComplete (h p) \<and> 1 \<le> TurnaroundTime (h p) \<and> 0 \<le> WaitingTime (h p) \<and>
      WaitingTime (h p) \<le> TurnaroundTime (h p) \<and> 0 \<le> ResponseTime (h p) \<and> ResponseTime (h p) \<le> WaitingTime (h p)"
    and "0 \<le> c" "c \<le> t" "0 \<le> w" "w \<le> t" "0 \<le> r" "r \<le> t" "t + (\<Sum>p\<leftarrow>ps. TurnaroundTime (h p)) \<le> MaxInt64"
  shows "metrics_loop h ps (c, t, w, r) =
    (c + int (length ps), t + (\<Sum>p\<leftarrow>ps. TurnaroundTime (h p)), w + (\<Sum>p\<leftarrow>ps. WaitingTime (h p)), r + (\<Sum>p\<leftarrow>ps. ResponseTime (h p)))"
  using assms
proof (induction ps arbitrary: c t w r)
  case (Cons p ps)
  let ?p = "h p"
  have p: "IsComplete ?p" "1 \<le> TurnaroundTime ?p" "0 \<le> WaitingTime ?p" "WaitingTime ?p \<le> TurnaroundTime ?p"
      "0 \<le> ResponseTime ?p" "ResponseTime ?p \<le> WaitingTime ?p"
    using Cons.prems(1) [of p] by auto
  have "0 \<le> (\<Sum>p\<leftarrow>ps. TurnaroundTime (h p))"
    using Cons.prems(1) by (intro sum_list_nonneg) fastforce
  then have m: "t + TurnaroundTime ?p \<le> MaxInt64" using Cons.prems(8) by simp
  have eq: "i64 (c + 1) = c + 1" "i64 (t + TurnaroundTime ?p) = t + TurnaroundTime ?p"
      "i64 (w + WaitingTime ?p) = w + WaitingTime ?p" "i64 (r + ResponseTime ?p) = r + ResponseTime ?p"
    using m p Cons.prems(2-7) by (auto intro!: i64_id simp: in64_def)
  have "metrics_loop h ps (c + 1, t + TurnaroundTime ?p, w + WaitingTime ?p, r + ResponseTime ?p) =
    (c + 1 + int (length ps), t + TurnaroundTime ?p + (\<Sum>p\<leftarrow>ps. TurnaroundTime (h p)),
     w + WaitingTime ?p + (\<Sum>p\<leftarrow>ps. WaitingTime (h p)), r + ResponseTime ?p + (\<Sum>p\<leftarrow>ps. ResponseTime (h p)))"
  proof (rule Cons.IH)
    show "c + 1 \<le> t + TurnaroundTime ?p" "w + WaitingTime ?p \<le> t + TurnaroundTime ?p"
      "r + ResponseTime ?p \<le> t + TurnaroundTime ?p"
      using p Cons.prems(2-7) by linarith+
  qed (use p Cons.prems in \<open>auto simp: add.assoc\<close>)
  then show ?case using p(1) by (simp add: eq)
qed simp

text \<open>
  C32: The averages of a completed simulation are ordered: 0 \<open>\<le>\<close> response \<open>\<le>\<close> waiting \<open>\<le>\<close> turnaround, each
  the rounded quotient of the sum over all processes and their number, as long as the sum of
  the turnaround times fits in an int.
\<close>

theorem averages_ordered:
  assumes "slice_sort sortSlice" "reachable sortSlice s" "isComplete s"
    and "(\<Sum>p\<leftarrow>processes s. TurnaroundTime (heap s p)) \<le> MaxInt64"
  shows "0 \<le> m_AverageResponseTime (calculateMetrics now s) \<and>
    m_AverageResponseTime (calculateMetrics now s) \<le> m_AverageWaitingTime (calculateMetrics now s) \<and>
    m_AverageWaitingTime (calculateMetrics now s) \<le> m_AverageTurnaroundTime (calculateMetrics now s) \<and>
    (processes s \<noteq> [] \<longrightarrow> m_AverageTurnaroundTime (calculateMetrics now s) =
       fdiv (float64 (\<Sum>p\<leftarrow>processes s. TurnaroundTime (heap s p))) (float64 (int (length (processes s)))))"
proof -
  have inv: "base_inv s" "times_inv s" using times.reachable_inv [OF assms(1,2)] by auto
  have q: "IsComplete (heap s p) \<and> 1 \<le> TurnaroundTime (heap s p) \<and> 0 \<le> WaitingTime (heap s p) \<and>
      WaitingTime (heap s p) \<le> TurnaroundTime (heap s p) \<and> 0 \<le> ResponseTime (heap s p) \<and>
      ResponseTime (heap s p) \<le> WaitingTime (heap s p)" if p: "p \<in> set (processes s)" for p
  proof -
    have "pwf (heap s p)" "times_ok (currentTime s) (heap s p)" "IsComplete (heap s p)"
      using p inv assms(3) by (auto simp: base_inv_def sim_inv_def times_inv_def isComplete_def list_all_iff)
    then show ?thesis by (auto simp: times_ok_def pwf_def IsComplete_def)
  qed
  let ?n = "int (length (processes s))" and ?S = "\<lambda>f. \<Sum>p\<leftarrow>processes s. f (heap s p)"
  have loop: "metrics_loop (heap s) (processes s) (0, 0, 0, 0) = (?n, ?S TurnaroundTime, ?S WaitingTime, ?S ResponseTime)"
    using metrics_loop_complete [of "processes s" "heap s" 0 0 0 0] q assms(4) by simp
  have le: "0 \<le> ?S ResponseTime" "?S ResponseTime \<le> ?S WaitingTime" "?S WaitingTime \<le> ?S TurnaroundTime"
    using q by (auto intro!: sum_list_nonneg sum_list_mono)
  have n: "0 \<le> float64 ?n" by (intro float64_nonneg) simp
  let ?avg = "\<lambda>f. if processes s \<noteq> [] then fdiv (float64 (?S f)) (float64 ?n) else 0"
  have "m_AverageResponseTime (calculateMetrics now s) = ?avg ResponseTime"
    "m_AverageWaitingTime (calculateMetrics now s) = ?avg WaitingTime"
    "m_AverageTurnaroundTime (calculateMetrics now s) = ?avg TurnaroundTime"
    by (simp_all add: calculateMetrics_def loop Let_def)
  then show ?thesis
    using fdiv_mono [OF float64_mono [OF le(2)] n] fdiv_mono [OF float64_mono [OF le(3)] n]
      fdiv_nonneg [OF float64_nonneg [OF le(1)] n]
    by simp
qed

theorem averages_ordered_witness:
  "\<exists>s. runTicks 3 (demo (FCFS NewFCFSScheduler)) = Some s \<and> isComplete s \<and>
     m_AverageResponseTime (calculateMetrics 0 s) \<le> m_AverageWaitingTime (calculateMetrics 0 s)"
proof -
  obtain s where s: "runTicks 3 (demo (FCFS NewFCFSScheduler)) = Some s" "reachable (\<lambda>key. sort_key key) s"
    using demo_run [OF constructors_ok(1), of 3] by auto
  have "map_option (\<lambda>s. (isComplete s, \<Sum>p\<leftarrow>processes s. TurnaroundTime (heap s p))) (runTicks 3 (demo (FCFS NewFCFSScheduler))) =
      Some (True, 4)"
    by code_simp
  then have c: "isComplete s" "(\<Sum>p\<leftarrow>processes s. TurnaroundTime (heap s p)) \<le> MaxInt64" using s(1) by simp_all
  from averages_ordered [OF stable.slice_sort_axioms s(2) c, of 0] s(1) c(1) show ?thesis by blast
qed

end
