(* ===== verification/Engine_Reset.thy ===== *)
theory Engine_Reset
  imports Engine_Run
begin

text \<open>
  \<^verbatim>\<open>Reset\<close> undoes a run: whatever ticks a simulator has executed, resetting it gives the state
  that resetting before the run would have given; and a simulator that has only been loaded
  with processes is restored exactly, so that the same run can be repeated.
\<close>

lemma Reset_control [simp]:
  "\<not> pauseChan (Reset taken s)" "\<not> stopChan (Reset taken s)" "lastGanttUpdate (Reset taken s) = 0"
  by (simp_all add: Reset_eq)

lemma Reset_static:
  assumes st: "static s s'" and r: "replays (scheduler s)"
  shows "Reset taken s' = Reset taken s"
proof (rule Simulator.equality)
  show "scheduler (Reset taken s') = scheduler (Reset taken s)"
    unfolding Reset_frame using st by (intro replay.Reset_restores [OF _ r]) (simp add: static_def)
  show "heap (Reset taken s') = heap (Reset taken s)"
    using st by (auto simp: static_def)
qed (use st in \<open>simp_all add: static_def\<close>)

lemma Reset_sim_state [simp]: "Reset taken (s\<lparr>sim_state := st\<rparr>) = Reset taken s"
  by (rule Simulator.equality) (simp_all cong: if_cong)

lemma static_replays: "static s s' \<Longrightarrow> replays (scheduler s') = replays (scheduler s)"
  using replay.config_rewindable by (metis static_def)

lemma runTicks_Reset:
  "base_inv s \<Longrightarrow> currentTime s + int n \<le> MaxInt64 \<Longrightarrow> replays (scheduler s) \<Longrightarrow> runTicks n s = Some s' \<Longrightarrow>
   Reset taken s' = Reset taken s"
proof (induction n arbitrary: s)
  case (Suc n)
  have t: "currentTime s < MaxInt64" using Suc.prems(2) by simp
  obtain u where u: "executeTimeUnit s = Some u"
    using executeTimeUnit_total [OF _ t] Suc.prems(1) by (metis base_inv_def)
  note b = executeTimeUnit_base [OF Suc.prems(1) t u]
  let ?s = "if isComplete u then u\<lparr>sim_state := SimStateComplete\<rparr> else u"
  have r: "runTick s = Some ?s" using u by (simp add: runTick_def)
  have eq: "Reset taken ?s = Reset taken s" using Reset_static [OF b(2) Suc.prems(3)] by simp
  have "base_inv ?s" "currentTime ?s + int n \<le> MaxInt64" "replays (scheduler ?s)"
    using b static_replays [OF b(2)] Suc.prems(2,3) by (simp_all add: base_inv_control)
  from Suc.IH [OF this] Suc.prems(4) r eq show ?case by (auto split: if_splits)
qed simp

text \<open>A simulator that is already in its initial state.\<close>

definition initial :: "Simulator \<Rightarrow> bool" where
  "initial s \<longleftrightarrow> base_inv s \<and> (\<forall>taken. Reset taken s = s)"

lemma initial_new:
  assumes "sched_ok sch" "sched_Reset sch = sch"
  shows "initial (NewSimulator sch)"
proof -
  have "Reset taken (NewSimulator sch) = NewSimulator sch" for taken
    by (rule Simulator.equality) (simp_all add: NewSimulator_def assms(2))
  then show ?thesis using NewSimulator_base [OF assms(1)] by (simp add: initial_def)
qed

lemma initialD:
  assumes "initial s"
  shows "sched_Reset (scheduler s) = scheduler s" "readyQueue s = []" "ioQueue s = []" "currentProcess s = None"
    "currentTime s = 0" "ganttChart s = []" "events s = []" "contextSwitches s = 0" "sim_state s = SimStateIdle"
    "totalIdleTime s = 0" "timeQuantumUsed s = 0" "lastGanttUpdate s = 0" "\<not> pauseChan s" "\<not> stopChan s"
    "a \<in> set (processes s) \<Longrightarrow> resetProcess (heap s a) = heap s a"
proof -
  have eq: "Reset True s = s" using assms by (simp add: initial_def)
  show "sched_Reset (scheduler s) = scheduler s" "readyQueue s = []" "ioQueue s = []" "currentProcess s = None"
    "currentTime s = 0" "ganttChart s = []" "events s = []" "contextSwitches s = 0" "sim_state s = SimStateIdle"
    "totalIdleTime s = 0" "timeQuantumUsed s = 0" "lastGanttUpdate s = 0" "\<not> pauseChan s" "\<not> stopChan s"
    using Reset_frame [of True s] Reset_control [of True s] unfolding eq by simp_all
  show "resetProcess (heap s a) = heap s a" if "a \<in> set (processes s)"
    using fun_cong [OF Reset_frame(15) [of True s], of a] that unfolding eq by simp
qed

lemma initial_added:
  assumes "initial s" "fresh p" "mset ps = mset (processes s @ [next_addr s])"
  shows "initial (added p ps s)"
proof -
  have b: "base_inv (added p ps s)" using assms added_base by (simp add: initial_def)
  have "Reset taken (added p ps s) = added p ps s" for taken
  proof (rule Simulator.equality)
    show "heap (Reset taken (added p ps s)) = heap (added p ps s)"
      using initialD(15) [OF assms(1)] mset_eq_setD [OF assms(3)] assms(2) by (auto simp: fresh_def)
  qed (use initialD [OF assms(1)] in \<open>simp_all add: added_def [of p ps s]\<close>)
  with b show ?thesis by (simp add: initial_def)
qed

lemma initial_AddProcesses:
  assumes "slice_sort sortSlice"
  shows "initial s \<Longrightarrow> \<forall>p\<in>set ps. fresh p \<Longrightarrow> initial (Simulator_AddProcesses sortSlice ps s)"
proof (induction ps arbitrary: s)
  case (Cons p ps)
  obtain as where "Simulator_AddProcess sortSlice p s = added p as s" "mset as = mset (processes s @ [next_addr s])"
    by (rule AddProcess_added [OF assms])
  then show ?case using Cons initial_added by simp
qed simp

text \<open>
  C17: Reset restores the starting point: after any number of ticks, \<^verbatim>\<open>Reset\<close> gives back exactly
  the simulator that was loaded with the processes, for every scheduler in its initial state but
  a lottery with a generator of the caller's own; resetting and running again therefore repeats
  the same run.
\<close>

theorem reset_restores:
  assumes "slice_sort sortSlice" "sched_ok sch" "sched_Reset sch = sch" "replays sch"
    and "\<forall>p\<in>set ps. fresh p" "int n \<le> MaxInt64"
    and "s = Simulator_AddProcesses sortSlice ps (NewSimulator sch)" "runTicks n s = Some s'"
  shows "Reset taken s' = s"
proof -
  have i: "initial s"
    unfolding assms(7) by (rule initial_AddProcesses [OF assms(1) initial_new [OF assms(2,3)] assms(5)])
  have "scheduler s = sch" unfolding assms(7) by (simp add: NewSimulator_def)
  then show ?thesis
    using i runTicks_Reset [of s n s' taken] initialD(5) [OF i] assms(4,6,8) by (simp add: initial_def)
qed

theorem reset_restores_witness:
  "\<exists>s'. runTicks 2 (demo (MLFQ NewMLFQScheduler)) = Some s' \<and> Reset True s' = demo (MLFQ NewMLFQScheduler)"
proof -
  obtain s' where s': "runTicks 2 (demo (MLFQ NewMLFQScheduler)) = Some s'"
    using demo_run [OF constructors_ok(7), of 2] by auto
  have "Reset True s' = demo (MLFQ NewMLFQScheduler)"
    by (rule reset_restores [OF stable.slice_sort_axioms constructors_ok(7) _ _ _ _ demo_def s'])
      (simp_all add: fresh_NewProcess MLFQ_Reset_def NewMLFQScheduler_def)
  with s' show ?thesis by blast
qed

end
