(* ===== verification/Engine_Policy.thy ===== *)
theory Engine_Policy
  imports Engine_Run
begin

text \<open>
  The policies at work in the engine. Under a preemptive policy the process that runs in a tick
  is never outranked by one that is ready; under a non-preemptive one it keeps the CPU until it
  finishes or starts I/O; under a policy with time slices it never exceeds its quantum.
\<close>

section \<open>Levels of the multi-level queue\<close>

text \<open>
  \<^verbatim>\<open>MLQScheduler\<close> selects by the level it computes from the priority, but preempts by the level
  it stored in \<^verbatim>\<open>AddProcess\<close>. The two agree for every process that has arrived and not finished.
\<close>

definition active :: "Simulator \<Rightarrow> addr set" where
  "active s = set (readyQueue s) \<union> set (ioQueue s) \<union> set_option (currentProcess s)"

definition levels_ok :: "Simulator \<Rightarrow> bool" where
  "levels_ok s \<longleftrightarrow>
     (\<forall>x. scheduler s = MLQ x \<longrightarrow> (\<forall>a\<in>active s. mlq_levels x a = Some (levelFor x (heap s a))))"

lemma levelFor_cong:
  "Priority q = Priority p \<Longrightarrow> mlq_numLevels y = mlq_numLevels x \<Longrightarrow> levelFor y q = levelFor x p"
  by (simp add: levelFor_def Let_def)

lemma levels_mono:
  assumes "levels_ok s" "scheduler s' = scheduler s" "active s' \<subseteq> active s"
    "\<And>a. Priority (heap s' a) = Priority (heap s a)"
  shows "levels_ok s'"
  using assms levelFor_cong [OF assms(4)] unfolding levels_ok_def by (metis subsetD)

lemma levels_add:
  assumes "levels_ok s" "scheduler s' = sched_AddProcess (scheduler s) (heap s') p" "active s' \<subseteq> insert p (active s)"
    "\<And>a. Priority (heap s' a) = Priority (heap s a)"
  shows "levels_ok s'"
  unfolding levels_ok_def
proof (intro allI impI ballI)
  fix y a assume y: "scheduler s' = MLQ y" and a: "a \<in> active s'"
  then obtain x where x: "scheduler s = MLQ x" "y = MLQ_AddProcess x (heap s') p"
    using assms(2) by (cases "scheduler s") auto
  have "levelFor y (heap s' a) = levelFor x (heap s a)"
    using assms(4) x(2) by (intro levelFor_cong) (simp_all add: MLQ_AddProcess_def)
  moreover have "levelFor x (heap s' a) = levelFor x (heap s a)" using assms(4) by (intro levelFor_cong) simp_all
  moreover have "a \<noteq> p \<Longrightarrow> mlq_levels x a = Some (levelFor x (heap s a))"
    using assms(1,3) x(1) a by (auto simp: levels_ok_def)
  ultimately show "mlq_levels y a = Some (levelFor y (heap s' a))"
    using x(2) by (auto simp: MLQ_AddProcess_def)
qed

lemma levels_remove:
  assumes "levels_ok s" "scheduler s' = sched_RemoveProcess (scheduler s) p" "active s' \<subseteq> active s - {p}"
    "\<And>a. Priority (heap s' a) = Priority (heap s a)"
  shows "levels_ok s'"
  unfolding levels_ok_def
proof (intro allI impI ballI)
  fix y a assume y: "scheduler s' = MLQ y" and a: "a \<in> active s'"
  then obtain x where x: "scheduler s = MLQ x" "y = MLQ_RemoveProcess x p"
    using assms(2) by (cases "scheduler s") auto
  have "levelFor y (heap s' a) = levelFor x (heap s a)"
    using assms(4) x(2) by (intro levelFor_cong) (simp_all add: MLQ_RemoveProcess_def)
  then show "mlq_levels y a = Some (levelFor y (heap s' a))"
    using assms(1,3) x a by (auto simp: levels_ok_def MLQ_RemoveProcess_def)
qed

lemma checkArrivals_loop_levels: "levels_ok s \<Longrightarrow> levels_ok (checkArrivals_loop ps s)"
proof (induction ps arbitrary: s)
  case (Cons p ps)
  let ?s = "upd p (\<lambda>q. q\<lparr>State := StateReady\<rparr>) s\<lparr>readyQueue := readyQueue s @ [p]\<rparr>"
  have "levels_ok (addEvent e i d (?s\<lparr>scheduler := sched_AddProcess (scheduler s) (heap ?s) p\<rparr>))" for e i d
    by (rule levels_add [OF Cons.prems]) (auto simp: active_def)
  then show ?case using Cons by (simp add: Let_def)
qed simp

lemma tickIOQueue_loop_levels:
  "levels_ok (s\<lparr>ioQueue := live @ ps\<rparr>) \<Longrightarrow>
   levels_ok (snd (tickIOQueue_loop ps live s)\<lparr>ioQueue := fst (tickIOQueue_loop ps live s)\<rparr>)"
proof (induction ps arbitrary: live s)
  case (Cons p ps)
  have "levels_ok (io_done p s\<lparr>ioQueue := live @ ps\<rparr>)"
    by (rule levels_add [OF Cons.prems, of _ p]) (auto simp: active_def io_done_def Let_def)
  moreover have "levels_ok (io_tick p s\<lparr>ioQueue := (live @ [p]) @ ps\<rparr>)"
    by (rule levels_mono [OF Cons.prems]) (auto simp: active_def io_tick_def)
  ultimately show ?case using Cons.IH by (simp add: tickIOQueue_loop_Cons)
qed simp

lemma settled_levels:
  assumes "levels_ok s"
  shows "levels_ok (settled s)"
proof -
  have "levels_ok (checkArrivals s\<lparr>ioQueue := [] @ ioQueue (checkArrivals s)\<rparr>)"
    using checkArrivals_loop_levels [OF assms] by (simp add: checkArrivals_def)
  from tickIOQueue_loop_levels [OF this] show ?thesis by (simp add: tickIOQueue_def case_prod_beta)
qed

lemma Schedule_MLQ: "fst (sched_Schedule (MLQ x) h rq t) = Some a \<Longrightarrow> snd (sched_Schedule (MLQ x) h rq t) = MLQ x"
  by simp

lemma scheduleNextProcess_levels:
  assumes "levels_ok s" "currentProcess s = None"
  shows "levels_ok (scheduleNextProcess s)"
proof (cases "readyQueue s = []")
  case True
  then show ?thesis using assms by (simp add: scheduleNextProcess_empty)
next
  case False
  obtain a sch where sel: "sched_Schedule (scheduler s) (heap s) (readyQueue s) (currentTime s) = (Some a, sch)"
      "a \<in> set (readyQueue s)" "scheduleNextProcess s = start_on a sch s"
    using scheduleNextProcess_start [OF assms(2) False] by metis
  have act: "active (start_on a sch s) \<subseteq> active s" using sel(2) set_remove1_subset [of a] by (auto simp: active_def)
  show ?thesis
  proof (cases "\<exists>x. scheduler s = MLQ x")
    case True
    then have "sch = scheduler s" using sel(1) by auto
    then show ?thesis unfolding sel(3) using act by (intro levels_mono [OF assms(1)]) auto
  next
    case nomlq: False
    have "sched_config sch = sched_config (scheduler s)"
      using replay.Schedule_config [of "scheduler s" "heap s" "readyQueue s" "currentTime s"] sel(1) by simp
    then have "\<nexists>x. sch = MLQ x" using nomlq by (cases "scheduler s") auto
    then show ?thesis by (simp add: sel(3) levels_ok_def)
  qed
qed

lemma preempt_levels:
  assumes "levels_ok s" "currentProcess s = Some c"
  shows "levels_ok (preemptCurrentProcess s)"
  by (rule levels_mono [OF assms(1)]) (auto simp: preemptCurrentProcess_def assms(2) Let_def active_def)

lemma dispatch_levels:
  assumes "sim_inv s" "levels_ok s" "dispatch s = Some s'"
  shows "levels_ok s'"
proof (cases "currentProcess s")
  case None
  then show ?thesis using assms scheduleNextProcess_levels [of s] by (auto simp: dispatch_def)
next
  case (Some c)
  show ?thesis
    using assms(2,3) Some inv_current(8) [OF assms(1) Some] preempt_levels [OF assms(2) Some]
      scheduleNextProcess_levels preemptCurrentProcess_inv(3) [OF assms(1) Some]
    by (auto simp: dispatch_def bind_eq_Some_conv)
qed

lemma expire_levels:
  assumes "levels_ok s" "currentProcess s = Some c"
  shows "levels_ok (expire c s)"
proof (cases "\<exists>x. scheduler s = MLQ x")
  case True
  then show ?thesis using assms(2)
    by (intro levels_mono [OF assms(1)]) (auto simp: active_def)
next
  case False
  then have "\<nexists>x. sched_OnQuantumExpired (scheduler s) (Some c) = MLQ x" by (cases "scheduler s") auto
  then show ?thesis by (simp add: levels_ok_def)
qed

lemma checkQuantum_levels:
  assumes "sim_inv s" "levels_ok s" "checkQuantum s = Some s'"
  shows "levels_ok s'"
  using assms(2,3) expire_levels scheduleNextProcess_levels
  by (auto simp: checkQuantum_eq [OF assms(1)] split: option.splits if_splits)

lemma executeProcess_levels:
  assumes "sim_inv s" "levels_ok s" "executeProcess 1 s = Some s'"
  shows "levels_ok s'"
proof (cases "currentProcess s")
  case (Some c)
  obtain q where q: "Execute (currentTime s) 1 (heap s c) = Some q"
    using executeProcess_inv [OF assms(1) Some] by blast
  have pr: "Priority q = Priority (heap s c)" using Execute_frame(5) [OF q] .
  have c: "c \<notin> set (readyQueue s)" "c \<notin> set (ioQueue s)"
    using assms(1) inv_current(1,3) [OF assms(1) Some] by (auto simp: sim_inv_def placed_def)
  show ?thesis
  proof (cases "IsComplete q")
    case True
    then show ?thesis using assms(3) Some q pr c
      by (intro levels_remove [OF assms(2), of _ c]) (auto simp: executeProcess_def Let_def active_def)
  next
    case False
    then show ?thesis using assms(3) Some q pr
      by (intro levels_mono [OF assms(2)]) (auto simp: executeProcess_def Let_def active_def)
  qed
qed (use assms in \<open>simp add: executeProcess_def\<close>)

lemma io_checked_levels:
  assumes "io_checked c s s'" "levels_ok s" "currentProcess s = Some c"
  shows "levels_ok s'"
proof -
  have "strip (heap s' a) = strip (heap s a)" for a using assms(1) by (simp add: io_checked_def quiet_def)
  then have "Priority (heap s' a) = Priority (heap s a)" for a by (rule strip_eqD(6))
  then show ?thesis using assms(1,3)
    by (intro levels_mono [OF assms(2)]) (auto simp: io_checked_def active_def)
qed

lemma checkIOBurst_levels:
  assumes "sim_inv s" "levels_ok s" "checkIOBurst s = Some s'"
  shows "levels_ok s'"
proof -
  obtain u where u: "checkIOBurst s = Some u" "currentProcess s = None \<Longrightarrow> u = s"
    "\<And>c. currentProcess s = Some c \<Longrightarrow> io_checked c s u"
    using checkIOBurst_inv [OF assms(1)] by metis
  then show ?thesis using assms(2,3) io_checked_levels by (cases "currentProcess s") auto
qed

lemma levels_ok_cong:
  "scheduler s' = scheduler s \<Longrightarrow> active s' = active s \<Longrightarrow> heap s' = heap s \<Longrightarrow> levels_ok s' = levels_ok s"
  by (simp add: levels_ok_def)

lemma updateWaiting_Priority: "Priority (heap (updateWaiting ps s) a) = Priority (heap s a)"
  by (subst updateWaiting_heap) simp

lemma levels_ok_tick:
  assumes "base_inv s" "levels_ok s" "currentTime s < MaxInt64" "executeTimeUnit s = Some s'"
  shows "levels_ok s'"
proof -
  have inv: "sim_inv s" using assms(1) by (simp add: base_inv_def)
  note l3 = dispatch_levels [OF settled_inv [OF inv] settled_levels [OF assms(2)]]
  from inv assms(3) show ?thesis
  proof (cases rule: tick_cases)
    case (idle s3 u)
    have "levels_ok u"
      unfolding idle(8) using l3 [OF idle(1)]
      by (rule levels_ok_cong [THEN iffD2, rotated -1]) (simp_all add: active_def)
    then show ?thesis using idle(6) assms(4) by (simp only: option.inject)
  next
    case (busy s3 c q s4 s5 s6 u)
    obtain e where e: "executeProcess 1 s3 = Some e" "s4 = e\<lparr>timeQuantumUsed := i64 (timeQuantumUsed s3 + 1)\<rparr>"
      using busy(24) by blast
    have "levels_ok s4"
      using executeProcess_levels [OF busy(2) l3 [OF busy(1)] e(1)]
      by (rule levels_ok_cong [THEN iffD2, rotated -1]) (simp_all add: e(2) active_def)
    then have "levels_ok s5"
      using checkIOBurst_levels [OF busy(8) _ busy(25)] by simp
    then have "levels_ok s6" using checkQuantum_levels [OF busy(16) _ busy(26)] by simp
    then have "levels_ok (updateWaiting (readyQueue s6) (s6\<lparr>currentTime := currentTime s + 1\<rparr>))"
      by (rule levels_mono) (simp_all add: active_def updateWaiting_Priority)
    then show ?thesis using busy(20,22) assms(4) by (simp only: option.inject)
  qed
qed

interpretation levels: engine_invariant levels_ok
proof unfold_locales
  show "levels_ok (NewSimulator sch)" for sch by (simp add: levels_ok_def active_def NewSimulator_def)
  show "levels_ok (added p ps s)" if "base_inv s" "levels_ok s" for s p ps
  proof -
    have "active s \<subseteq> set (processes s)"
      using that(1) by (auto simp: base_inv_def sim_inv_def active_def)
    then have "next_addr s \<notin> active s" using that(1) by (auto simp: base_inv_def)
    then show ?thesis using that(2) by (fastforce simp: levels_ok_def active_def)
  qed
  show "levels_ok (Reset taken s)" for s taken by (simp add: levels_ok_def active_def)
qed (rule levels_ok_tick, assumption+, simp_all add: levels_ok_def active_def)

section \<open>Preemptive policies\<close>

text \<open>The schedulers that take the CPU away from a process as soon as one with a better rank is ready.\<close>

fun preempts_by_rank :: "scheduler \<Rightarrow> bool" where
  "preempts_by_rank (SRTF x) \<longleftrightarrow> True"
| "preempts_by_rank (PriorityS x) \<longleftrightarrow> preemptive x"
| "preempts_by_rank (MLFQ x) \<longleftrightarrow> True"
| "preempts_by_rank (MLQ x) \<longleftrightarrow> True"
| "preempts_by_rank _ \<longleftrightarrow> False"

definition rank :: "Simulator \<Rightarrow> addr \<Rightarrow> int" where
  "rank s a = fst (policy_key (scheduler s) (heap s) (currentTime s) a)"

lemma policy_key_State:
  "fst (policy_key sch (\<lambda>a. (h a)\<lparr>State := f a\<rparr>) t a) = fst (policy_key sch h t a)"
  by (cases sch) (simp_all add: effectivePriority_def levelFor_def Let_def)

lemma rank_only_moves:
  assumes "only_moves s s'" "scheduler s' = scheduler s"
  shows "rank s' a = rank s a"
proof -
  have "heap s' = (\<lambda>a. (heap s a)\<lparr>State := State (heap s' a)\<rparr>)"
    using only_movesD(7) [OF assms(1)] by (rule ext)
  then show ?thesis using policy_key_State only_movesD(2) [OF assms(1)] assms(2) by (metis rank_def)
qed

text \<open>A scheduler of this kind answers no only if no ready process has a better rank.\<close>

lemma no_preempt_rank:
  assumes "preempts_by_rank (scheduler s)" "levels_ok s" "currentProcess s = Some c" "a \<in> set (readyQueue s)"
    and "a \<noteq> c" "PID (heap s a) \<noteq> PID (heap s c)" "shouldPreempt s = Some False"
  shows "rank s c \<le> rank s a"
proof (cases "scheduler s")
  case (MLQ x)
  then have "mlq_levels x a = Some (levelFor x (heap s a))" "mlq_levels x c = Some (levelFor x (heap s c))"
    using assms(2-4) by (auto simp: levels_ok_def active_def)
  then show ?thesis using MLQ assms
    by (auto simp: shouldPreempt_def MLQ_Preempt_def levels_Preempt_def rank_def list_ex_iff map_get_def)
qed (use assms in \<open>auto simp: shouldPreempt_def SRTF_Preempt_def Priority_Preempt_def MLFQ_Preempt_def
       levels_Preempt_def rank_def list_ex_iff Let_def\<close>)

lemma scheduled_rank:
  assumes "sim_inv s" "currentProcess s = None" "\<not> is_lottery (scheduler s)"
    and "currentProcess (scheduleNextProcess s) = Some c" "a \<in> set (readyQueue (scheduleNextProcess s))"
  shows "rank (scheduleNextProcess s) c \<le> rank (scheduleNextProcess s) a"
proof (cases "readyQueue s = []")
  case True
  then show ?thesis using assms by (simp add: scheduleNextProcess_empty)
next
  case False
  obtain b sch where sel: "sched_Schedule (scheduler s) (heap s) (readyQueue s) (currentTime s) = (Some b, sch)"
      "scheduleNextProcess s = start_on b sch s"
    using scheduleNextProcess_start [OF assms(2) False] by metis
  note sch = Schedule_select [OF inv_sched_ok [OF assms(1)] assms(3), of "heap s" "readyQueue s" "currentTime s"]
  have eq: "select (\<lambda>p q. policy_key (scheduler s) (heap s) (currentTime s) p <
                      policy_key (scheduler s) (heap s) (currentTime s) q) (readyQueue s) = Some b" "sch = scheduler s"
    using sch sel(1) by simp_all
  have a: "a \<in> set (readyQueue s)" "b = c"
    using assms(4,5) sel(2) by (auto dest: notin_set_remove1 [rotated] in_set_remove1 [THEN iffD1, rotated] set_remove1_subset [THEN subsetD])
  have "policy_key (scheduler s) (heap s) (currentTime s) b \<le> policy_key (scheduler s) (heap s) (currentTime s) a"
    using policy.select_key_le [OF eq(1) a(1)] .
  then have "rank s b \<le> rank s a" unfolding rank_def by (auto simp: less_eq_prod_def)
  moreover have "rank (scheduleNextProcess s) x = rank s x" for x
    using scheduleNextProcess_inv(2) [OF assms(1,2)] sel(2) eq(2) by (intro rank_only_moves) simp_all
  ultimately show ?thesis using a(2) by simp
qed

lemma dispatch_rank:
  assumes inv: "sim_inv s" and lv: "levels_ok s" and pre: "preempts_by_rank (scheduler s)"
    and inj: "inj_on (\<lambda>a. PID (heap s a)) (set (processes s))"
    and d: "dispatch s = Some s'" and c: "currentProcess s' = Some c" and a: "a \<in> set (readyQueue s')"
  shows "rank s' c \<le> rank s' a"
proof -
  have nl: "\<not> is_lottery (scheduler s)" using pre by (cases "scheduler s") auto
  show ?thesis
  proof (cases "currentProcess s")
    case None
    then have "s' = scheduleNextProcess s" using d by (simp add: dispatch_def)
    then show ?thesis using scheduled_rank [OF inv None nl] c a by simp
  next
    case (Some x)
    note x = inv_current [OF inv Some]
    note p = preemptCurrentProcess_inv [OF inv Some]
    obtain b where b: "shouldPreempt s = Some b"
        "s' = (if b then scheduleNextProcess (preemptCurrentProcess s) else s)"
      using d Some x(8) by (auto simp: dispatch_def bind_eq_Some_conv)
    show ?thesis
    proof (cases b)
      case True
      then show ?thesis using scheduled_rank [OF p(1,3)] b(2) c a nl p(6) by simp
    next
      case False
      then have eq: "s' = s" "x = c" using b(2) c Some by auto
      have "a \<in> set (processes s)" "State (heap s a) = StateReady"
        using inv a eq(1) by (auto simp: sim_inv_def placed_def)
      then have "a \<noteq> c" "PID (heap s a) \<noteq> PID (heap s c)"
        using x(1,3) eq(2) inj by (auto simp: inj_on_def)
      then show ?thesis using no_preempt_rank [OF pre lv] c a b(1) False eq by simp
    qed
  qed
qed

text \<open>
  C12: Strict preemption: with SRTF, preemptive priority, MLFQ or MLQ, and processes with different
  PIDs, the process that gets the CPU in a tick is never outranked by one in the ready queue (no
  shorter remaining time, no better aged priority, no lower level).
\<close>

theorem running_process_has_best_rank:
  assumes "slice_sort sortSlice" "reachable sortSlice s" "preempts_by_rank (scheduler s)"
    and "inj_on (\<lambda>a. PID (heap s a)) (set (processes s))"
    and "dispatch (tickIOQueue (checkArrivals s)) = Some s'" "currentProcess s' = Some c" "a \<in> set (readyQueue s')"
  shows "fst (policy_key (scheduler s') (heap s') (currentTime s') c) \<le>
         fst (policy_key (scheduler s') (heap s') (currentTime s') a)"
proof -
  have inv: "sim_inv s" "levels_ok s" using levels.reachable_inv [OF assms(1,2)] by (auto simp: base_inv_def)
  have st: "static s (settled s)" by (rule settled_static [OF inv(1)])
  have "sched_config (scheduler (settled s)) = sched_config (scheduler s)" using st by (simp add: static_def)
  then have pre: "preempts_by_rank (scheduler (settled s))"
    using assms(3) by (cases "scheduler s"; cases "scheduler (settled s)") auto
  have "strip (heap (settled s) x) = strip (heap s x)" for x using settled_quiet [of s] by (simp add: quiet_def)
  then have "PID (heap (settled s) x) = PID (heap s x)" for x by (rule strip_eqD(1))
  then have inj: "inj_on (\<lambda>a. PID (heap (settled s) a)) (set (processes (settled s)))" using assms(4) by simp
  show ?thesis
    using dispatch_rank [OF settled_inv [OF inv(1)] settled_levels [OF inv(2)] pre inj assms(5-7)]
    by (simp add: rank_def)
qed

theorem running_process_has_best_rank_witness:
  "\<exists>s s' c a. runTicks 1 (demo (SRTF NewSRTFScheduler)) = Some s \<and>
     dispatch (tickIOQueue (checkArrivals s)) = Some s' \<and> currentProcess s' = Some c \<and> a \<in> set (readyQueue s') \<and>
     fst (policy_key (scheduler s') (heap s') (currentTime s') c) \<le>
     fst (policy_key (scheduler s') (heap s') (currentTime s') a)"
proof -
  obtain s where s: "runTicks 1 (demo (SRTF NewSRTFScheduler)) = Some s" "reachable (\<lambda>key. sort_key key) s"
    using demo_run [OF constructors_ok(3), of 1] by auto
  have "map_option (\<lambda>s. (preempts_by_rank (scheduler s), processes s, PID (heap s 0), PID (heap s 1),
        map_option (\<lambda>s'. (currentProcess s', readyQueue s')) (dispatch (tickIOQueue (checkArrivals s)))))
      (runTicks 1 (demo (SRTF NewSRTFScheduler))) = Some (True, [0, 1], 1, 2, Some (Some 0, [1]))"
    by code_simp
  then obtain s' where s': "preempts_by_rank (scheduler s)" "inj_on (\<lambda>a. PID (heap s a)) (set (processes s))"
      "dispatch (tickIOQueue (checkArrivals s)) = Some s'" "currentProcess s' = Some 0" "1 \<in> set (readyQueue s')"
    using s(1) by (auto simp: inj_on_def)
  from running_process_has_best_rank [OF stable.slice_sort_axioms s(2) s'] s(1) s'(3-5) show ?thesis by blast
qed

end
