(* ===== verification/Engine_Quantum.thy ===== *)
theory Engine_Quantum
  imports Engine_Run
begin

text \<open>
  Time slices. The counter \<^verbatim>\<open>timeQuantumUsed\<close> stays below the quantum of the running process, so
  that a slice never exceeds the quantum; and a scheduler that neither preempts nor has a quantum
  leaves the CPU to a process until it finishes or starts I/O.
\<close>

section \<open>The slice stays within the quantum\<close>

definition within_quantum :: "Simulator \<Rightarrow> bool" where
  "within_quantum s \<longleftrightarrow>
     (\<forall>c q. currentProcess s = Some c \<longrightarrow> sched_QuantumFor (scheduler s) (Some c) = Some q \<longrightarrow> 0 < q \<longrightarrow>
        timeQuantumUsed s < q)"

lemma AddProcess_quantum [simp]: "sched_QuantumFor (sched_AddProcess sch h p) c = sched_QuantumFor sch c"
  by (cases sch) (auto simp: MLFQ_QuantumFor_def MLFQ_AddProcess_def map_get_def MLQ_AddProcess_def
      split: option.splits)

lemma checkArrivals_loop_quantum [simp]:
  "sched_QuantumFor (scheduler (checkArrivals_loop ps s)) c = sched_QuantumFor (scheduler s) c"
proof (induction ps arbitrary: s)
  case (Cons p ps)
  show ?case unfolding checkArrivals_loop.simps Cons.IH by (simp add: Let_def)
qed simp

lemma io_done_scheduler:
  "scheduler (io_done p s) = sched_AddProcess (scheduler s) (heap (io_done p s)) p"
  "scheduler (io_tick p s) = scheduler s"
  by (simp_all add: io_done_def io_tick_def Let_def)

lemma tickIOQueue_loop_quantum [simp]:
  "sched_QuantumFor (scheduler (snd (tickIOQueue_loop ps live s))) c = sched_QuantumFor (scheduler s) c"
proof (induction ps arbitrary: live s)
  case (Cons p ps)
  then show ?case by (simp add: tickIOQueue_loop_Cons io_done_scheduler del: io_done_frame)
qed simp

lemma settled_quantum [simp]: "sched_QuantumFor (scheduler (settled s)) c = sched_QuantumFor (scheduler s) c"
  by (simp add: tickIOQueue_def checkArrivals_def case_prod_beta)

lemma scheduleNextProcess_quantum:
  assumes "currentProcess s = None"
  shows "within_quantum (scheduleNextProcess s)"
    "timeQuantumUsed (scheduleNextProcess s) = (if readyQueue s = [] then timeQuantumUsed s else 0)"
proof -
  have "within_quantum (scheduleNextProcess s) \<and>
    timeQuantumUsed (scheduleNextProcess s) = (if readyQueue s = [] then timeQuantumUsed s else 0)"
  proof (cases "readyQueue s = []")
    case True
    then show ?thesis using assms by (simp add: scheduleNextProcess_empty within_quantum_def)
  next
    case False
    obtain a sch where "scheduleNextProcess s = start_on a sch s"
      using scheduleNextProcess_start [OF assms False] by metis
    then show ?thesis using False by (simp add: within_quantum_def)
  qed
  then show "within_quantum (scheduleNextProcess s)"
    "timeQuantumUsed (scheduleNextProcess s) = (if readyQueue s = [] then timeQuantumUsed s else 0)" by blast+
qed

lemma dispatch_quantum:
  assumes "sim_inv s" "within_quantum s" "dispatch s = Some s'"
  shows "within_quantum s' \<and> (timeQuantumUsed s' = timeQuantumUsed s \<or> timeQuantumUsed s' = 0)"
proof (cases "currentProcess s")
  case None
  then have "s' = scheduleNextProcess s" using assms(3) by (simp add: dispatch_def)
  then show ?thesis using scheduleNextProcess_quantum [OF None] by (auto split: if_splits)
next
  case (Some c)
  note p = preemptCurrentProcess_inv [OF assms(1) Some]
  consider "s' = s" | "s' = scheduleNextProcess (preemptCurrentProcess s)"
    using assms(3) Some inv_current(8) [OF assms(1) Some]
    by (auto simp: dispatch_def bind_eq_Some_conv split: if_splits)
  then show ?thesis
    using assms(2) scheduleNextProcess_quantum [OF p(3)] p(4) by cases auto
qed

lemma checkQuantum_within:
  assumes "sim_inv s" "checkQuantum s = Some s'"
  shows "within_quantum s' \<and> (timeQuantumUsed s' = timeQuantumUsed s \<or> timeQuantumUsed s' = 0)"
proof (cases "currentProcess s")
  case None
  then show ?thesis using assms(2) by (simp add: checkQuantum_eq [OF assms(1)] within_quantum_def)
next
  case (Some c)
  show ?thesis
  proof (cases "quantum_expired s c")
    case True
    then show ?thesis
      using assms(2) Some scheduleNextProcess_quantum [OF expire_frame(3)]
      by (auto simp: checkQuantum_eq [OF assms(1)])
  next
    case False
    then show ?thesis using assms(2) Some
      by (auto simp: checkQuantum_eq [OF assms(1)] within_quantum_def quantum_expired_def)
  qed
qed

definition slice_inv :: "Simulator \<Rightarrow> bool" where
  "slice_inv s \<longleftrightarrow> within_quantum s \<and> 0 \<le> timeQuantumUsed s \<and> timeQuantumUsed s \<le> currentTime s"

lemma checkIOBurst_used:
  assumes "sim_inv s" "checkIOBurst s = Some s'"
  shows "timeQuantumUsed s' = timeQuantumUsed s \<or> timeQuantumUsed s' = 0"
proof -
  obtain u where u: "checkIOBurst s = Some u" "currentProcess s = None \<Longrightarrow> u = s"
    "\<And>c. currentProcess s = Some c \<Longrightarrow> io_checked c s u"
    using checkIOBurst_inv [OF assms(1)] by metis
  then show ?thesis using assms(2) by (cases "currentProcess s") (auto simp: io_checked_def)
qed

lemma checkIOBurst_outcome:
  assumes "sim_inv s" "currentProcess s = Some c" "checkIOBurst s = Some s'"
  shows "currentProcess s' = Some c \<or> currentProcess s' = None \<and> c \<in> set (ioQueue s')"
proof -
  obtain u where "checkIOBurst s = Some u" "\<And>c. currentProcess s = Some c \<Longrightarrow> io_checked c s u"
    using checkIOBurst_inv [OF assms(1)] by metis
  then show ?thesis using assms(2,3) by (auto simp: io_checked_def)
qed

lemma slice_inv_tick:
  assumes "base_inv s" "slice_inv s" "currentTime s < MaxInt64" "executeTimeUnit s = Some s'"
  shows "slice_inv s'"
proof -
  have inv: "sim_inv s" using assms(1) by (simp add: base_inv_def)
  have w: "within_quantum (settled s)" using assms(2) by (simp add: slice_inv_def within_quantum_def)
  note d = dispatch_quantum [OF settled_inv [OF inv] w]
  have u: "0 \<le> timeQuantumUsed s" "timeQuantumUsed s \<le> currentTime s" using assms(2) by (auto simp: slice_inv_def)
  from inv assms(3) show ?thesis
  proof (cases rule: tick_cases)
    case (idle s3 v)
    have "slice_inv v" unfolding idle(8) using d [OF idle(1)] u idle(4) by (auto simp: slice_inv_def within_quantum_def)
    then show ?thesis using idle(6) assms(4) by (simp only: option.inject)
  next
    case (busy s3 c q s4 s5 s6 v)
    have t4: "timeQuantumUsed s4 = timeQuantumUsed s3 + 1"
      using busy(24) d [OF busy(1)] u assms(3) by (auto simp: i64_succ)
    have "0 \<le> timeQuantumUsed s6 \<and> timeQuantumUsed s6 \<le> currentTime s + 1"
      using t4 checkIOBurst_used [OF busy(8,25)] checkQuantum_within [OF busy(16,26)] d [OF busy(1)] u by auto
    then have "slice_inv v" unfolding busy(22)
      using checkQuantum_within [OF busy(16,26)] by (auto simp: slice_inv_def within_quantum_def)
    then show ?thesis using busy(20) assms(4) by (simp only: option.inject)
  qed
qed

interpretation slices: engine_invariant slice_inv
proof unfold_locales
  show "slice_inv (NewSimulator sch)" for sch by (simp add: slice_inv_def within_quantum_def NewSimulator_def)
  show "slice_inv s'"
    if "base_inv s" "slice_inv s" "currentTime s < MaxInt64" "executeTimeUnit s = Some s'" for s s'
    using that by (rule slice_inv_tick)
qed (simp_all add: slice_inv_def within_quantum_def)



section \<open>Non-preemptive schedulers\<close>

fun non_preemptive :: "scheduler \<Rightarrow> bool" where
  "non_preemptive (FCFS x) \<longleftrightarrow> True"
| "non_preemptive (SJF x) \<longleftrightarrow> True"
| "non_preemptive (PriorityS x) \<longleftrightarrow> \<not> preemptive x"
| "non_preemptive _ \<longleftrightarrow> False"

lemma non_preemptive_ops:
  assumes "non_preemptive sch"
  shows "sched_Preempt sch h c rq t = Some False" "sched_QuantumFor sch c = Some 0"
    "sched_config sch' = sched_config sch \<Longrightarrow> non_preemptive sch'"
  using assms by (cases sch; cases sch'; auto simp: Priority_Preempt_def split: option.splits)+

text \<open>
  C24: Non-preemptive schedulers (FCFS, SJF, non-preemptive priority) let a process run: one that
  holds the CPU before a tick is executed in that tick, and afterwards holds it still, unless it
  has finished or has started I/O.
\<close>

theorem non_preemptive_keeps_cpu:
  assumes "slice_sort sortSlice" "reachable sortSlice s" "currentTime s < MaxInt64" "non_preemptive (scheduler s)"
    and "currentProcess s = Some c" "executeTimeUnit s = Some s'"
  shows "RemainingTime (heap s' c) = RemainingTime (heap s c) - 1 \<and>
    (currentProcess s' = Some c \<or> State (heap s' c) = StateTerminated \<or> State (heap s' c) = StateWaiting)"
proof -
  have inv: "sim_inv s" using structural.reachable_inv [OF assms(1,2)] by (simp add: base_inv_def)
  have si: "sim_inv (settled s)" by (rule settled_inv [OF inv])
  have st: "sched_config (scheduler (settled s)) = sched_config (scheduler s)"
    using settled_static [OF inv] by (simp add: static_def)
  have cur: "currentProcess (settled s) = Some c" using assms(5) by simp
  have d: "dispatch (settled s) = Some (settled s)"
    using inv_current(8) [OF si cur] cur non_preemptive_ops(1) [OF non_preemptive_ops(3) [OF assms(4) st]]
    by (simp add: dispatch_def shouldPreempt_def)
  show ?thesis
    using inv assms(3)
  proof (cases rule: tick_cases)
    case (idle s3 u)
    then show ?thesis using d cur by simp
  next
    case (busy s3 c' q s4 s5 s6 u)
    have eq: "s3 = settled s" "c' = c" "u = s'" using busy(1,4,20) d cur assms(6) by simp_all
    have r: "strip (heap (settled s) c) = strip (heap s c)" using settled_quiet [of s] by (simp add: quiet_def)
    have "strip (heap s6 c) = strip (heap s4 c)"
      using quiet_trans [OF busy(15) only_moves_quiet [OF busy(18)]] by (simp add: quiet_def)
    then have rem: "RemainingTime (heap s6 c) = RemainingTime (heap s c) - 1"
      using strip_eqD(5) [OF r] strip_eqD(5) [of "heap s6 c" "heap s4 c"] busy(6,7) eq by simp
    have w: "heap s' c = heap s6 c\<lparr>WaitingTime := WaitingTime (heap s' c)\<rparr>" "currentProcess s' = currentProcess s6"
      using updateWaiting_heap [of "readyQueue s6" "s6\<lparr>currentTime := currentTime s + 1\<rparr>" c] busy(22) eq(3) by simp_all
    have rem': "RemainingTime (heap s' c) = RemainingTime (heap s c) - 1" by (subst w(1)) (simp add: rem)
    obtain e where e: "executeProcess 1 s3 = Some e" "s4 = e\<lparr>timeQuantumUsed := i64 (timeQuantumUsed s3 + 1)\<rparr>"
      using busy(24) by blast
    have "static s3 s4" using executeProcess_static [OF busy(2) e(1)] e(2) by simp
    then have "sched_config (scheduler s5) = sched_config (scheduler (settled s))"
      using static_trans [OF _ checkIOBurst_static [OF busy(8,25)]] eq(1) by (simp add: static_def)
    then have q0: "\<not> quantum_expired s5 c"
      using non_preemptive_ops(2) [OF non_preemptive_ops(3) [OF assms(4)]] st by (simp add: quantum_expired_def)
    have c6: "c \<in> set (processes s6)"
      using inv_current(1) [OF busy(2,4)] eq only_movesD(1) [OF busy(18)] busy(9,15) by (simp add: quiet_def)
    then have p6: "pwf (heap s6 c)" "placed s6 c" using busy(19) by (simp_all add: sim_inv_def)
    have "currentProcess s6 = Some c \<or> State (heap s6 c) = StateTerminated \<or> State (heap s6 c) = StateWaiting"
    proof (cases "RemainingTime (heap s6 c) = 0")
      case True
      then show ?thesis using p6(1) by (simp add: pwf_def)
    next
      case False
      then have "currentProcess s4 = Some c"
        using busy(13) rem strip_eqD(5) [OF r] eq by (simp split: if_splits)
      from checkIOBurst_outcome [OF busy(8) this busy(25)] show ?thesis
        using q0 busy(26) p6(2) by (auto simp: checkQuantum_eq [OF busy(16)] placed_def)
    qed
    then show ?thesis using rem' w by (metis process.select_convs(7) process.surjective process.update_convs(10))
  qed
qed

theorem non_preemptive_keeps_cpu_witness:
  "\<exists>s s'. runTicks 1 (demo (FCFS NewFCFSScheduler)) = Some s \<and> executeTimeUnit s = Some s' \<and>
     RemainingTime (heap s' 0) = RemainingTime (heap s 0) - 1"
proof -
  obtain s where s: "runTicks 1 (demo (FCFS NewFCFSScheduler)) = Some s" "reachable (\<lambda>key. sort_key key) s"
    using demo_run [OF constructors_ok(1), of 1] by auto
  have "map_option (\<lambda>s. (currentTime s, non_preemptive (scheduler s), currentProcess s, executeTimeUnit s \<noteq> None))
      (runTicks 1 (demo (FCFS NewFCFSScheduler))) = Some (1, True, Some 0, True)"
    by code_simp
  then obtain s' where s': "currentTime s < MaxInt64" "non_preemptive (scheduler s)" "currentProcess s = Some 0"
      "executeTimeUnit s = Some s'"
    using s(1) by auto
  from non_preemptive_keeps_cpu [OF stable.slice_sort_axioms s(2) s'] s(1) s'(4) show ?thesis by blast
qed

section \<open>Context switches\<close>

text \<open>
  \<^verbatim>\<open>scheduleNextProcess\<close> means to count a switch when it replaces a process by another, but the
  engine only calls it with an idle CPU, so that only preemptions and expired quanta are counted.
\<close>

lemma scheduleNextProcess_switches:
  assumes "currentProcess s = None"
  shows "contextSwitches (scheduleNextProcess s) = contextSwitches s"
proof (cases "readyQueue s = []")
  case True
  then show ?thesis using assms by (simp add: scheduleNextProcess_empty)
next
  case False
  obtain a sch where "scheduleNextProcess s = start_on a sch s"
    using scheduleNextProcess_start [OF assms False] by metis
  then show ?thesis by simp
qed

lemma executeProcess_switches:
  "executeProcess d s = Some s' \<Longrightarrow> contextSwitches s' = contextSwitches s"
  by (auto simp: executeProcess_def bind_eq_Some_conv Let_def split: option.splits if_splits)

lemma checkIOBurst_loop_switches:
  "checkIOBurst_loop p cpuUsed s = Some s' \<Longrightarrow> contextSwitches s' = contextSwitches s"
proof (induction p cpuUsed s rule: checkIOBurst_loop.induct)
  case (1 p cpuUsed s)
  let ?i = "CurrentIOIndex (heap s p)" and ?bs = "IOBursts (heap s p)"
  show ?case
  proof (cases "?i < int (length ?bs) \<and> \<not> ?i < 0 \<and> Completed (?bs ! nat ?i)")
    case True
    then have "contextSwitches s' = contextSwitches (upd p (\<lambda>q. q\<lparr>CurrentIOIndex := ?i + 1\<rparr>) s)"
      using "1.prems" by (intro "1.IH" [OF refl]) (auto simp: checkIOBurst_loop.simps [of p cpuUsed s])
    then show ?thesis by simp
  next
    case False
    then show ?thesis using "1.prems"
      by (auto simp: checkIOBurst_loop.simps [of p cpuUsed s] Let_def split: if_splits)
  qed
qed

lemma checkIOBurst_switches: "checkIOBurst s = Some s' \<Longrightarrow> contextSwitches s' = contextSwitches s"
  by (auto simp: checkIOBurst_def Let_def checkIOBurst_loop_switches split: option.splits if_splits)

definition uncounted :: "Simulator \<Rightarrow> bool" where
  "uncounted s \<longleftrightarrow> (non_preemptive (scheduler s) \<longrightarrow> contextSwitches s = 0)"

lemma uncounted_tick:
  assumes "base_inv s" "uncounted s" "currentTime s < MaxInt64" "executeTimeUnit s = Some s'"
  shows "uncounted s'"
proof (cases "non_preemptive (scheduler s)")
  case False
  have "sched_config (scheduler s) = sched_config (scheduler s')"
    using executeTimeUnit_base(2) [OF assms(1,3,4)] by (simp add: static_def)
  from non_preemptive_ops(3) [OF _ this] False show ?thesis unfolding uncounted_def by blast
next
  case np: True
  have inv: "sim_inv s" using assms(1) by (simp add: base_inv_def)
  have si: "sim_inv (settled s)" by (rule settled_inv [OF inv])
  have keep: "non_preemptive (scheduler u)" if "static s u" for u
    using that non_preemptive_ops(3) [OF np] by (simp add: static_def)
  have d: "contextSwitches s3 = contextSwitches s" if "dispatch (settled s) = Some s3" for s3
  proof (cases "currentProcess (settled s)")
    case None
    then show ?thesis using that scheduleNextProcess_switches [OF None] by (auto simp: dispatch_def)
  next
    case (Some c)
    then have "s3 = settled s"
      using that inv_current(8) [OF si Some] non_preemptive_ops(1) [OF keep [OF settled_static [OF inv]]]
      by (simp add: dispatch_def shouldPreempt_def)
    then show ?thesis by simp
  qed
  have z: "contextSwitches s = 0" using assms(2) np by (simp add: uncounted_def)
  from inv assms(3) show ?thesis
  proof (cases rule: tick_cases)
    case (idle s3 u)
    then show ?thesis using d [OF idle(1)] z assms(4) by (simp add: uncounted_def)
  next
    case (busy s3 c q s4 s5 s6 u)
    obtain e where e: "executeProcess 1 s3 = Some e" "s4 = e\<lparr>timeQuantumUsed := i64 (timeQuantumUsed s3 + 1)\<rparr>"
      using busy(24) by blast
    have "static s s3" by (rule static_trans [OF settled_static [OF inv] dispatch_static [OF si busy(1)]])
    moreover have "static s3 s4" using executeProcess_static [OF busy(2) e(1)] by (simp add: e(2))
    ultimately have "static s s5"
      using checkIOBurst_static [OF busy(8,25)] by (blast intro: static_trans)
    from non_preemptive_ops(2) [OF keep [OF this]] have "\<not> quantum_expired s5 x" for x
      by (simp add: quantum_expired_def)
    then have "s6 = s5" using busy(26) by (auto simp: checkQuantum_eq [OF busy(16)] split: option.splits)
    then have "contextSwitches s6 = contextSwitches s"
      using checkIOBurst_switches [OF busy(25)] executeProcess_switches [OF e(1)] e(2) d [OF busy(1)] by simp
    then show ?thesis using busy(20,22) assms(4) z by (simp add: uncounted_def)
  qed
qed

interpretation switches: engine_invariant uncounted
proof unfold_locales
  show "uncounted s'"
    if "base_inv s" "uncounted s" "currentTime s < MaxInt64" "executeTimeUnit s = Some s'" for s s'
    using that by (rule uncounted_tick)
qed (simp_all add: uncounted_def NewSimulator_def)

text \<open>
  C40: Under FCFS, SJF and non-preemptive priority the engine reports no context switch at all,
  however often the CPU passes from one process to another.
\<close>

theorem non_preemptive_counts_no_switch:
  assumes "slice_sort sortSlice" "reachable sortSlice s" "non_preemptive (scheduler s)"
  shows "contextSwitches s = 0"
  using switches.reachable_inv [OF assms(1,2)] assms(3) by (simp add: uncounted_def)

theorem non_preemptive_counts_no_switch_witness:
  "\<exists>s. runTicks 3 (demo (FCFS NewFCFSScheduler)) = Some s \<and> map g_PID (ganttChart s) = [1, 2] \<and> contextSwitches s = 0"
proof -
  obtain s where s: "runTicks 3 (demo (FCFS NewFCFSScheduler)) = Some s" "reachable (\<lambda>key. sort_key key) s"
    using demo_run [OF constructors_ok(1), of 3] by auto
  have "map_option (\<lambda>s. (non_preemptive (scheduler s), map g_PID (ganttChart s))) (runTicks 3 (demo (FCFS NewFCFSScheduler))) =
      Some (True, [1, 2])"
    by code_simp
  then have c: "non_preemptive (scheduler s)" "map g_PID (ganttChart s) = [1, 2]" using s(1) by auto
  have "contextSwitches s = 0"
    by (rule non_preemptive_counts_no_switch [OF stable.slice_sort_axioms s(2) c(1)])
  with s(1) c(2) show ?thesis by (intro exI [of _ s] conjI)
qed

end
