(* ===== verification/Engine_Fairness.thy ===== *)
theory Engine_Fairness
  imports Engine_Quantum Engine_Progress
begin

text \<open>
  Bounded waiting under round robin: a process that is ready executes again after at most one
  quantum for each process ahead of it and one for the process that holds the CPU.
\<close>

section \<open>The ready queue only grows at its end\<close>

lemma checkArrivals_loop_appends: "\<exists>new. readyQueue (checkArrivals_loop ps s) = readyQueue s @ new"
proof (induction ps arbitrary: s)
  case (Cons p ps)
  let ?s = "if ArrivalTime (heap s p) \<le> currentTime s \<and> State (heap s p) = StateNew
        then let s = upd p (\<lambda>q. q\<lparr>State := StateReady\<rparr>) s;
                 s = s\<lparr>readyQueue := readyQueue s @ [p]\<rparr>;
                 s = s\<lparr>scheduler := sched_AddProcess (scheduler s) (heap s) p\<rparr>
             in addEvent ''arrival'' (PID (heap s p)) (sprintf_d ''Process '' (PID (heap s p)) '' arrived'') s
        else s"
  have "\<exists>new. readyQueue ?s = readyQueue s @ new" by (simp add: Let_def)
  moreover obtain more where "readyQueue (checkArrivals_loop ps ?s) = readyQueue ?s @ more"
    using Cons.IH [of ?s] by blast
  ultimately show ?case unfolding checkArrivals_loop.simps by auto
qed simp

lemma tickIOQueue_loop_appends: "\<exists>new. readyQueue (snd (tickIOQueue_loop ps live s)) = readyQueue s @ new"
proof (induction ps arbitrary: live s)
  case (Cons p ps)
  obtain new where "readyQueue (snd (tickIOQueue_loop ps live (io_done p s))) = readyQueue (io_done p s) @ new"
    using Cons.IH by blast
  moreover obtain new' where "readyQueue (snd (tickIOQueue_loop ps (live @ [p]) (io_tick p s))) = readyQueue (io_tick p s) @ new'"
    using Cons.IH by blast
  ultimately show ?case by (auto simp: tickIOQueue_loop_Cons)
qed simp

lemma settled_appends: "\<exists>new. readyQueue (settled s) = readyQueue s @ new"
  using checkArrivals_loop_appends [of "processes s" s]
    tickIOQueue_loop_appends [of "ioQueue (checkArrivals s)" "[]" "checkArrivals s"]
  by (auto simp: tickIOQueue_def case_prod_beta checkArrivals_def)

section \<open>Round robin\<close>

text \<open>The ticks that pass at most before the process behind \<open>pre\<close> holds the CPU.\<close>

fun rr_bound :: "int \<Rightarrow> nat \<Rightarrow> addr option \<Rightarrow> int \<Rightarrow> int" where
  "rr_bound q k None used = int k * q"
| "rr_bound q k (Some c) used = (int k + 1) * q - used"

lemma rr_bound_nonneg:
  assumes "0 \<le> q" "c = None \<or> used \<le> q"
  shows "0 \<le> rr_bound q k c used"
proof (cases c)
  case (Some x)
  have "q \<le> (int k + 1) * q" using assms(1) mult_right_mono [of 1 "int k + 1" q] by simp
  then show ?thesis using Some assms(2) by simp
qed (use assms in simp)

definition rr_wait :: "int \<Rightarrow> addr \<Rightarrow> Simulator \<Rightarrow> nat" where
  "rr_wait q a s =
     (if currentProcess s = Some a then 0
      else nat (rr_bound q (length (takeWhile (\<lambda>p. p \<noteq> a) (readyQueue s))) (currentProcess s) (timeQuantumUsed s)))"

definition rr_inv :: "RoundRobinScheduler \<Rightarrow> addr \<Rightarrow> int \<Rightarrow> Simulator \<Rightarrow> bool" where
  "rr_inv x a r s \<longleftrightarrow>
     base_inv s \<and> slice_inv s \<and> scheduler s = RoundRobin x \<and> RemainingTime (heap s a) = r \<and>
     (currentProcess s = Some a \<or> a \<in> set (readyQueue s)) \<and>
     currentTime s + int (rr_wait (rr_timeQuantum x) a s) < MaxInt64"

lemma rr_wait_at:
  assumes "readyQueue s = pre @ a # post" "a \<notin> set pre" "currentProcess s \<noteq> Some a"
  shows "rr_wait q a s = nat (rr_bound q (length pre) (currentProcess s) (timeQuantumUsed s))"
proof -
  have "takeWhile (\<lambda>p. p \<noteq> a) (pre @ a # post) = pre"
    using assms(2) by (subst takeWhile_append2) auto
  then show ?thesis using assms(1,3) by (simp add: rr_wait_def)
qed

lemma RR_next:
  assumes "scheduler s = RoundRobin x" "currentProcess s = None" "readyQueue s = p # ps"
  shows "scheduleNextProcess s = start_on p (RoundRobin x) s"
proof -
  obtain a sch where sel: "sched_Schedule (scheduler s) (heap s) (readyQueue s) (currentTime s) = (Some a, sch)"
      "scheduleNextProcess s = start_on a sch s"
    using scheduleNextProcess_start [OF assms(2)] assms(3) by (metis list.distinct(1))
  then show ?thesis using assms by (simp add: RR_Schedule_def)
qed

text \<open>Who gets the CPU in a tick, and how far the waiting process still is from it.\<close>

lemma RR_dispatch:
  assumes inv: "sim_inv s" and rr: "scheduler s = RoundRobin x"
    and rq: "readyQueue s = pre @ a # post" "a \<notin> set pre" and d: "dispatch s = Some s'" "currentProcess s' = Some c"
  shows "c = a \<or>
    (\<exists>pre' post'. readyQueue s' = pre' @ a # post' \<and> a \<notin> set pre' \<and> scheduler s' = RoundRobin x \<and>
       rr_bound (rr_timeQuantum x) (length pre) (currentProcess s) (timeQuantumUsed s) =
       (int (length pre') + 1) * rr_timeQuantum x - timeQuantumUsed s')"
proof (cases "currentProcess s")
  case None
  then have s': "s' = scheduleNextProcess s" using d(1) by (simp add: dispatch_def)
  show ?thesis
  proof (cases pre)
    case Nil
    then have "s' = start_on a (RoundRobin x) s" unfolding s' using RR_next [OF rr None] rq(1) by simp
    then show ?thesis using d(2) by simp
  next
    case (Cons p ps)
    then have eq: "s' = start_on p (RoundRobin x) s" unfolding s' using RR_next [OF rr None] rq(1) by simp
    have "readyQueue s' = ps @ a # post" unfolding eq using rq(1) Cons by simp
    then show ?thesis using None rq(2) Cons by (auto simp: eq)
  qed
next
  case (Some b)
  then have "s' = s" using d(1) inv_current(8) [OF inv Some] rr by (simp add: dispatch_def shouldPreempt_def)
  then show ?thesis using rq rr Some by auto
qed

text \<open>Where the waiting process is after the quantum check.\<close>

lemma RR_checkQuantum:
  assumes inv: "sim_inv s" and rr: "scheduler s = RoundRobin x" and q: "1 \<le> rr_timeQuantum x"
    and rq: "readyQueue s = pre @ a # post" "a \<notin> set pre" "currentProcess s \<noteq> Some a"
    and used: "currentProcess s = None \<or> timeQuantumUsed s \<le> rr_timeQuantum x"
    and d: "checkQuantum s = Some s'"
  shows "scheduler s' = RoundRobin x \<and>
    (currentProcess s' = Some a \<or>
     (\<exists>pre' post'. readyQueue s' = pre' @ a # post' \<and> a \<notin> set pre' \<and> currentProcess s' \<noteq> Some a \<and>
        rr_bound (rr_timeQuantum x) (length pre') (currentProcess s') (timeQuantumUsed s') \<le>
        rr_bound (rr_timeQuantum x) (length pre) (currentProcess s) (timeQuantumUsed s)))"
proof (cases "\<exists>c. currentProcess s = Some c \<and> quantum_expired s c")
  case False
  then have "s' = s" using d by (auto simp: checkQuantum_eq [OF inv] split: option.splits)
  then show ?thesis using rq rr by auto
next
  case True
  then obtain c where c: "currentProcess s = Some c" "quantum_expired s c" by blast
  then have u: "timeQuantumUsed s = rr_timeQuantum x" using used rr by (simp add: quantum_expired_def)
  let ?e = "expire c s"
  have e: "scheduler ?e = RoundRobin x" "currentProcess ?e = None" using rr by simp_all
  have s': "s' = scheduleNextProcess ?e" using d c by (simp add: checkQuantum_eq [OF inv])
  show ?thesis
  proof (cases pre)
    case Nil
    then have "s' = start_on a (RoundRobin x) ?e" unfolding s' using RR_next [OF e] rq(1) by simp
    then show ?thesis by simp
  next
    case (Cons p ps)
    then have eq: "s' = start_on p (RoundRobin x) ?e" unfolding s' using RR_next [OF e] rq(1) by simp
    have "readyQueue s' = ps @ a # (post @ [c])" unfolding eq using rq(1) Cons by simp
    moreover have "p \<noteq> a" "a \<notin> set ps" using rq(2) Cons by auto
    ultimately show ?thesis using c(1) u Cons by (auto simp: eq algebra_simps)
  qed
qed

lemma busy_remaining:
  assumes "only_moves (settled s) s3" "heap s4 = (heap s3)(c := q)" "RemainingTime q = RemainingTime (heap s3 c) - 1"
    "quiet s4 s5" "only_moves s5 s6" "s' = updateWaiting ps (s6\<lparr>currentTime := t\<rparr>)"
  shows "RemainingTime (heap s' a) = RemainingTime (heap s a) - (if a = c then 1 else 0)"
proof -
  have "quiet s s3" using quiet_trans [OF settled_quiet only_moves_quiet [OF assms(1)]] .
  then have "strip (heap s3 a) = strip (heap s a)" by (simp add: quiet_def)
  then have 3: "RemainingTime (heap s3 a) = RemainingTime (heap s a)" by (rule strip_eqD(5))
  have "quiet s4 s6" using quiet_trans [OF assms(4) only_moves_quiet [OF assms(5)]] .
  then have "strip (heap s6 a) = strip (heap s4 a)" by (simp add: quiet_def)
  then have 6: "RemainingTime (heap s6 a) = RemainingTime (heap s4 a)" by (rule strip_eqD(5))
  have "RemainingTime (heap s' a) = RemainingTime (heap s6 a)"
    unfolding assms(6) by (subst updateWaiting_heap) simp
  then show ?thesis using 3 6 assms(2,3) by (cases "a = c") auto
qed

lemma executeProcess_scheduler_RR:
  assumes "executeProcess 1 s = Some e" "scheduler s = RoundRobin x"
  shows "scheduler e = RoundRobin x" "readyQueue e = readyQueue s"
  using assms by (auto simp: executeProcess_def bind_eq_Some_conv Let_def split: option.splits if_splits)

lemma RR_tick:
  assumes "rr_inv x a r s"
  shows "\<exists>s'. executeTimeUnit s = Some s' \<and>
    (RemainingTime (heap s' a) < r \<or> rr_inv x a r s' \<and> rr_wait (rr_timeQuantum x) a s' < rr_wait (rr_timeQuantum x) a s)"
proof -
  let ?q = "rr_timeQuantum x"
  have b: "base_inv s" "sim_inv s" "slice_inv s" and rr: "scheduler s = RoundRobin x" and rem: "RemainingTime (heap s a) = r"
    and t: "currentTime s < MaxInt64" "currentTime s + int (rr_wait ?q a s) < MaxInt64"
    using assms by (auto simp: rr_inv_def base_inv_def)
  have q: "1 \<le> ?q" using inv_sched_ok [OF b(2)] rr by simp
  have si: "sim_inv (settled s)" by (rule settled_inv [OF b(2)])
  have "sched_config (scheduler (settled s)) = RoundRobin x"
    using settled_static [OF b(2)] rr by (simp add: static_def)
  then have rrs: "scheduler (settled s) = RoundRobin x" by (cases "scheduler (settled s)") auto
  obtain new where new: "readyQueue (settled s) = readyQueue s @ new" using settled_appends by blast
  have w: "within_quantum (settled s)" using b(3) by (simp add: slice_inv_def within_quantum_def)
  obtain s' where ex: "executeTimeUnit s = Some s'" using executeTimeUnit_total [OF b(2) t(1)] by blast
  note bs = executeTimeUnit_base [OF b(1) t(1) ex] slice_inv_tick [OF b(1,3) t(1) ex]
  have finished: ?thesis if "RemainingTime (heap s' a) < r" using ex that by blast
  from b(2) t(1) show ?thesis
  proof (cases rule: tick_cases)
    case (idle s3 u)
    have "readyQueue s = [] \<and> currentProcess s = None" using dispatch_idle [OF si idle(1,4)] new by simp
    then show ?thesis using assms by (simp add: rr_inv_def)
  next
    case (busy s3 c q0 s4 s5 s6 u)
    have u: "u = s'" using busy(20) ex by simp
    note rem' = busy_remaining [OF busy(3,6,7,15,18,22), of a]
    show ?thesis
    proof (cases "c = a")
      case True
      then show ?thesis using finished rem' rem u by simp
    next
      case ca: False
      have curs: "currentProcess s \<noteq> Some a"
      proof
        assume "currentProcess s = Some a"
        then have cur: "currentProcess (settled s) = Some a" by simp
        then have "s3 = settled s"
          using busy(1) inv_current(8) [OF si cur] rrs by (simp add: dispatch_def shouldPreempt_def)
        then show False using busy(4) cur ca by simp
      qed
      then have "a \<in> set (readyQueue s)" using assms by (auto simp: rr_inv_def)
      then obtain pre post where rq: "readyQueue s = pre @ a # post" "a \<notin> set pre" by (meson split_list_first)
      have rqs: "readyQueue (settled s) = pre @ a # (post @ new)" using rq new by simp
      obtain pre' post' where p': "readyQueue s3 = pre' @ a # post'" "a \<notin> set pre'" "scheduler s3 = RoundRobin x"
          "rr_bound ?q (length pre) (currentProcess s) (timeQuantumUsed s) = (int (length pre') + 1) * ?q - timeQuantumUsed s3"
        using RR_dispatch [OF si rrs rqs rq(2) busy(1,4)] ca by auto
      have u3: "0 \<le> timeQuantumUsed s3" "timeQuantumUsed s3 < ?q" "timeQuantumUsed s3 \<le> currentTime s"
      proof -
        note dq = dispatch_quantum [OF si w busy(1)]
        then show "0 \<le> timeQuantumUsed s3" "timeQuantumUsed s3 \<le> currentTime s"
          using b(3) inv_sched_ok [OF b(2)] b(2) by (auto simp: slice_inv_def sim_inv_def)
        show "timeQuantumUsed s3 < ?q" using dq busy(4) p'(3) q by (simp add: within_quantum_def)
      qed
      obtain e where e: "executeProcess 1 s3 = Some e" "s4 = e\<lparr>timeQuantumUsed := i64 (timeQuantumUsed s3 + 1)\<rparr>"
        using busy(24) by blast
      have s4: "scheduler s4 = RoundRobin x" "readyQueue s4 = pre' @ a # post'" "timeQuantumUsed s4 = timeQuantumUsed s3 + 1"
        using executeProcess_scheduler_RR [OF e(1) p'(3)] p'(1) e(2) u3 t(1) by (simp_all add: i64_succ)
      have s5: "scheduler s5 = RoundRobin x" "readyQueue s5 = pre' @ a # post'" "currentProcess s5 \<noteq> Some a"
          "currentProcess s5 = None \<or> timeQuantumUsed s5 = timeQuantumUsed s3 + 1"
        using busy(17) s4 busy(13) ca by (auto simp: io_checked_def split: if_splits)
      have le: "rr_bound ?q (length pre') (currentProcess s5) (timeQuantumUsed s5) <
          rr_bound ?q (length pre) (currentProcess s) (timeQuantumUsed s)"
        using s5(4) u3 p'(4) by (cases "currentProcess s5") (auto simp: algebra_simps)
      have nn: "0 \<le> rr_bound ?q (length pre') (currentProcess s5) (timeQuantumUsed s5)"
        using s5(4) u3 q by (intro rr_bound_nonneg) auto
      have used5: "currentProcess s5 = None \<or> timeQuantumUsed s5 \<le> ?q" using s5(4) u3 by auto
      note cq = RR_checkQuantum [OF busy(16) s5(1) q s5(2) p'(2) s5(3) used5 busy(26)]
      have s': "scheduler s' = scheduler s6" "currentProcess s' = currentProcess s6" "readyQueue s' = readyQueue s6"
          "timeQuantumUsed s' = timeQuantumUsed s6"
        using busy(22) u by simp_all
      have old: "rr_wait ?q a s = nat (rr_bound ?q (length pre) (currentProcess s) (timeQuantumUsed s))"
        by (rule rr_wait_at [OF rq curs])
      have less: "rr_wait ?q a s' < rr_wait ?q a s \<and> (currentProcess s' = Some a \<or> a \<in> set (readyQueue s'))"
      proof (cases "currentProcess s' = Some a")
        case True
        then show ?thesis using old le nn by (simp add: rr_wait_def)
      next
        case False
        then obtain pre6 post6 where "readyQueue s' = pre6 @ a # post6" "a \<notin> set pre6"
            "rr_bound ?q (length pre6) (currentProcess s') (timeQuantumUsed s') \<le>
             rr_bound ?q (length pre') (currentProcess s5) (timeQuantumUsed s5)"
          using cq s' by auto
        then show ?thesis using rr_wait_at [of s' pre6 a post6] False old le nn by simp
      qed
      have "rr_inv x a r s'"
        using bs less cq s'(1) rem' rem u t(2) ca by (simp add: rr_inv_def)
      then show ?thesis using ex less by blast
    qed
  qed
qed

interpretation rr: terminating_loop executeTimeUnit "\<lambda>s. RemainingTime (heap s a) < r" "rr_inv x a r"
    "rr_wait (rr_timeQuantum x) a" for a r x
  by unfold_locales (rule RR_tick)

text \<open>
  C13: Round robin is fair: a process that is ready behind \<open>k\<close> others executes at least one unit
  within \<open>(k + 1) * quantum + 1\<close> ticks, whatever else arrives, finishes or starts I/O meanwhile.
\<close>

theorem round_robin_bounded_wait:
  assumes "slice_sort sortSlice" "reachable sortSlice s" "scheduler s = RoundRobin x"
    and "readyQueue s = pre @ a # post" "(int (length pre) + 1) * rr_timeQuantum x < int n"
    and "currentTime s + int n \<le> MaxInt64"
  shows "\<exists>s'. iterate executeTimeUnit (\<lambda>u. RemainingTime (heap u a) < RemainingTime (heap s a)) n s = Some s' \<and>
    RemainingTime (heap s' a) < RemainingTime (heap s a)"
proof -
  let ?q = "rr_timeQuantum x"
  have inv: "base_inv s" "slice_inv s" "sim_inv s"
    using slices.reachable_inv [OF assms(1,2)] by (auto simp: base_inv_def)
  have q: "1 \<le> ?q" using inv_sched_ok [OF inv(3)] assms(3) by simp
  have d: "a \<notin> set pre" and cur: "currentProcess s \<noteq> Some a"
    using inv(3) assms(4) by (auto simp: sim_inv_def placed_def)
  have "rr_bound ?q (length pre) (currentProcess s) (timeQuantumUsed s) \<le> (int (length pre) + 1) * ?q"
    using inv(2) q by (cases "currentProcess s") (auto simp: slice_inv_def algebra_simps)
  then have w: "rr_wait ?q a s < n" 
    using assms(5) mult_nonneg_nonneg [of "int (length pre) + 1" ?q] q
    unfolding rr_wait_at [OF assms(4) d cur, of ?q] by linarith
  then have "rr_inv x a (RemainingTime (heap s a)) s"
    using inv assms(3,4,6) by (simp add: rr_inv_def)
  from rr.iterate_stops [OF this w] show ?thesis .
qed

theorem round_robin_bounded_wait_witness:
  "\<exists>s s'. runTicks 2 (demo (RoundRobin (NewRoundRobinScheduler 1))) = Some s \<and>
     iterate executeTimeUnit (\<lambda>u. RemainingTime (heap u 1) < RemainingTime (heap s 1)) 2 s = Some s' \<and>
     RemainingTime (heap s' 1) < RemainingTime (heap s 1)"
proof -
  obtain s where s: "runTicks 2 (demo (RoundRobin (NewRoundRobinScheduler 1))) = Some s" "reachable (\<lambda>key. sort_key key) s"
    using demo_run [OF constructors_ok(4), of 2] by auto
  have "map_option (\<lambda>s. (case scheduler s of RoundRobin x \<Rightarrow> rr_timeQuantum x | _ \<Rightarrow> 0, readyQueue s, currentTime s))
      (runTicks 2 (demo (RoundRobin (NewRoundRobinScheduler 1)))) = Some (1, [1], 2)"
    by code_simp
  then have v: "(case scheduler s of RoundRobin x \<Rightarrow> rr_timeQuantum x | _ \<Rightarrow> 0) = 1"
    and c: "readyQueue s = [] @ 1 # []" "currentTime s + int 2 \<le> MaxInt64"
    using s(1) by auto
  obtain x where x: "scheduler s = RoundRobin x" "rr_timeQuantum x = 1"
    using v by (cases "scheduler s") auto
  have "(int (length []) + 1) * rr_timeQuantum x < int 2" using x(2) by simp
  from round_robin_bounded_wait [OF stable.slice_sort_axioms s(2) x(1) c(1) this c(2)] s(1) show ?thesis by blast
qed

end
