(* ===== verification/Scheduler_Aging.thy ===== *)
theory Scheduler_Aging
  imports Scheduler_Props
begin

text \<open>
  The two mechanisms by which a scheduler changes the standing of a process over time: aging in
  the priority scheduler and demotion in the multi-level feedback queue.
\<close>

section \<open>Aging\<close>

definition waited :: "process \<Rightarrow> int \<Rightarrow> int" where
  "waited p t = max 0 (t - max (ArrivalTime p) (LastExecuted p))"

lemma effectivePriority_closed:
  assumes "0 < agingInterval s" "0 \<le> ArrivalTime p" "ArrivalTime p \<le> MaxInt64" "0 \<le> LastExecuted p"
    "LastExecuted p \<le> MaxInt64" "0 \<le> t" "t \<le> MaxInt64" "-1 \<le> Priority p" "Priority p \<le> MaxInt64"
  shows "effectivePriority s p t = max 0 (Priority p - waited p t div agingInterval s)"
proof -
  have m: "(if ArrivalTime p < LastExecuted p then LastExecuted p else ArrivalTime p) = max (ArrivalTime p) (LastExecuted p)"
    by simp
  have d: "i64 (t - max (ArrivalTime p) (LastExecuted p)) = t - max (ArrivalTime p) (LastExecuted p)"
    using assms by (intro i64_diff_nonneg) auto
  have w: "(if t - max (ArrivalTime p) (LastExecuted p) < 0 then 0 else t - max (ArrivalTime p) (LastExecuted p)) = waited p t"
    by (simp add: waited_def max_def)
  have wr: "0 \<le> waited p t" "waited p t \<le> MaxInt64" using assms by (auto simp: waited_def)
  have q: "0 \<le> waited p t div agingInterval s" "waited p t div agingInterval s \<le> MaxInt64"
    using wr assms(1) zdiv_mono2 [of "waited p t" 1 "agingInterval s"] by (auto simp: pos_imp_zdiv_nonneg_iff)
  have "waited p t sdiv agingInterval s = waited p t div agingInterval s"
    using wr(1) assms(1) by (intro sdiv_nonneg) auto
  moreover have "i64 (waited p t div agingInterval s) = waited p t div agingInterval s"
    using q by (intro i64_id) (simp add: in64_def)
  moreover have "i64 (Priority p - waited p t div agingInterval s) = Priority p - waited p t div agingInterval s"
    using q assms(8,9) by (intro i64_id) (simp add: in64_def)
  ultimately show ?thesis
    using assms(1) unfolding effectivePriority_def Let_def m d w by simp
qed



text \<open>
  The clamp at 0 does not protect against wrap-around: the priority is not validated, and for
  the most negative priority a single aging step wraps to the largest int, the worst rank.
\<close>

lemma aging_wraps_at_min_priority:
  "effectivePriority (NewPriorityScheduler True) (NewProcess 1 ''a'' 0 5 MinInt64) 10 = MaxInt64 \<and>
   effectivePriority (NewPriorityScheduler True) (NewProcess 1 ''a'' 0 5 MinInt64) 9 = 0"
  by code_simp

section \<open>Demotion\<close>

lemma OnQuantumExpired_level:
  assumes "sched_ok (MLFQ s)"
  shows "map_get (mlfq_levels (MLFQ_OnQuantumExpired s (Some p))) p = min (map_get (mlfq_levels s) p + 1) (mlfq_numLevels s - 1)"
    "q \<noteq> p \<Longrightarrow> map_get (mlfq_levels (MLFQ_OnQuantumExpired s (Some p))) q = map_get (mlfq_levels s) q"
    "mlfq_numLevels (MLFQ_OnQuantumExpired s (Some p)) = mlfq_numLevels s"
    "timeQuantums (MLFQ_OnQuantumExpired s (Some p)) = timeQuantums s"
proof -
  have r: "0 \<le> map_get (mlfq_levels s) p" "map_get (mlfq_levels s) p < mlfq_numLevels s" "1 \<le> mlfq_numLevels s"
    "mlfq_numLevels s \<le> MaxInt64"
    using assms map_get_range [of "mlfq_levels s" "mlfq_numLevels s" p] by auto
  have a: "i64 (mlfq_numLevels s - 1) = mlfq_numLevels s - 1" using r by (intro i64_pred) auto
  have b: "i64 (map_get (mlfq_levels s) p + 1) = map_get (mlfq_levels s) p + 1" using r by (intro i64_succ) auto
  show "map_get (mlfq_levels (MLFQ_OnQuantumExpired s (Some p))) p = min (map_get (mlfq_levels s) p + 1) (mlfq_numLevels s - 1)"
    using r(2) by (auto simp: MLFQ_OnQuantumExpired_def a b Let_def map_get_def [of "_(_ \<mapsto> _)"])
  show "q \<noteq> p \<Longrightarrow> map_get (mlfq_levels (MLFQ_OnQuantumExpired s (Some p))) q = map_get (mlfq_levels s) q"
    by (simp add: MLFQ_OnQuantumExpired_def Let_def map_get_def)
qed (simp_all add: MLFQ_OnQuantumExpired_def Let_def)

lemma MLFQ_quantum_level:
  assumes "sched_ok (MLFQ s)"
  shows "MLFQ_QuantumFor s (Some p) = Some (timeQuantums s ! nat (map_get (mlfq_levels s) p))"
proof -
  have "0 \<le> map_get (mlfq_levels s) p" "map_get (mlfq_levels s) p < mlfq_numLevels s"
    using assms map_get_range [of "mlfq_levels s" "mlfq_numLevels s" p] by auto
  then show ?thesis using assms by (simp add: MLFQ_QuantumFor_def Let_def index_def)
qed

text \<open>
  C27: MLFQ demotes step by step: after \<open>k\<close> expired quanta a process is \<open>k\<close> levels lower, but never
  below the last level, its quantum is that of its level (2, 4, then 8), and no other process
  changes its level.
\<close>

theorem MLFQ_demotion:
  assumes "sched_ok (MLFQ s)" "s' = ((\<lambda>x. MLFQ_OnQuantumExpired x (Some p)) ^^ k) s"
  shows "map_get (mlfq_levels s') p = min (map_get (mlfq_levels s) p + int k) (mlfq_numLevels s - 1) \<and>
    MLFQ_QuantumFor s' (Some p) = Some (timeQuantums s ! nat (map_get (mlfq_levels s') p)) \<and>
    (\<forall>q. q \<noteq> p \<longrightarrow> map_get (mlfq_levels s') q = map_get (mlfq_levels s) q)"
proof -
  have "sched_ok (MLFQ s') \<and> map_get (mlfq_levels s') p = min (map_get (mlfq_levels s) p + int k) (mlfq_numLevels s - 1) \<and>
    mlfq_numLevels s' = mlfq_numLevels s \<and> timeQuantums s' = timeQuantums s \<and>
    (\<forall>q. q \<noteq> p \<longrightarrow> map_get (mlfq_levels s') q = map_get (mlfq_levels s) q)"
    unfolding assms(2)
  proof (induction k)
    case 0
    have "map_get (mlfq_levels s) p < mlfq_numLevels s"
      using assms(1) map_get_range [of "mlfq_levels s" "mlfq_numLevels s" p] by auto
    then show ?case using assms(1) by (simp del: sched_ok.simps)
  next
    case (Suc k)
    let ?x = "((\<lambda>x. MLFQ_OnQuantumExpired x (Some p)) ^^ k) s"
    have ok: "sched_ok (MLFQ ?x)" using Suc by blast
    have "sched_ok (MLFQ (MLFQ_OnQuantumExpired ?x (Some p)))"
      using sched_OnQuantumExpired_ok [OF ok, of "Some p"] by (simp only: sched_OnQuantumExpired.simps)
    then show ?case using Suc OnQuantumExpired_level [OF ok, where p = p] by (auto simp del: sched_ok.simps)
  qed
  then show ?thesis using MLFQ_quantum_level [of s' p] by (auto simp del: sched_ok.simps)
qed

theorem MLFQ_demotion_witness:
  "MLFQ_QuantumFor (((\<lambda>x. MLFQ_OnQuantumExpired x (Some 0)) ^^ 2) NewMLFQScheduler) (Some 0) = Some 8"
  using MLFQ_demotion [OF constructors_ok(7) refl, where p = 0 and k = 2]
  by (simp add: NewMLFQScheduler_def map_get_def del: funpow.simps)

end
