(* ===== verification/Control.thy ===== *)
theory Control
  imports Engine_Gantt
begin

text \<open>
  The control of the engine with its goroutines: \<^verbatim>\<open>run\<close> with its ticker and its two channels, and
  the callers of \<^verbatim>\<open>Start\<close>, \<^verbatim>\<open>Pause\<close>, \<^verbatim>\<open>Resume\<close>, \<^verbatim>\<open>Step\<close>, \<^verbatim>\<open>Stop\<close> and \<^verbatim>\<open>Reset\<close>, interleaved
  between any two critical sections. A goroutine is the point it has reached; a label says who
  moves, and for a \<^verbatim>\<open>select\<close> which ready case it takes. The wait group counts the goroutines of
  \<^verbatim>\<open>run\<close>, so \<^verbatim>\<open>wg.Wait\<close> returns when there is none. Sending an update changes nothing here.
\<close>

section \<open>Model\<close>

text \<open>
  The points of \<^verbatim>\<open>run\<close>: at the outer \<^verbatim>\<open>select\<close>, with the ticker on or stopped; with a tick, about
  to read the state; about to note a pause; about to execute; about to check for completion; about
  to enter the final state; and at the inner \<^verbatim>\<open>select\<close> of the paused loop.
\<close>

datatype run_pc = AtSelect bool | TickRead | NotePause | Exec | CheckDone | SetComplete | PausedWait

text \<open>The points of a call after its first critical section; the flag says that \<^verbatim>\<open>Reset\<close> called \<^verbatim>\<open>Stop\<close>.\<close>

datatype call_pc =
    ResumeSend | StopSend bool | StopWait bool | DrainPause | DrainStop | ResetFields
  | StepExec | StepCheck | StepComplete

datatype choice = TakeStop | TakePause | TakeTick | Proceed

datatype label =
    CallStart | CallPause | CallResume | CallStop bool | CallStep | CallSpeed int | CallAdd process
  | Caller nat | Run nat choice

record ctl =
  csim :: Simulator
  runs :: "run_pc list"
  callers :: "call_pc list"

definition goto :: "nat \<Rightarrow> run_pc \<Rightarrow> ctl \<Rightarrow> ctl" where
  "goto i pc c = c\<lparr>runs := (runs c)[i := pc]\<rparr>"

definition leave :: "nat \<Rightarrow> ctl \<Rightarrow> ctl" where
  "leave i c = c\<lparr>runs := take i (runs c) @ drop (Suc i) (runs c)\<rparr>"

text \<open>One move of a \<^verbatim>\<open>run\<close> goroutine; \<^term>\<open>None\<close> when the case it would take is not ready.\<close>

fun fire_run :: "nat \<Rightarrow> run_pc \<Rightarrow> choice \<Rightarrow> ctl \<Rightarrow> ctl option" where
  "fire_run i (AtSelect ticking) TakeStop c =
     (if stopChan (csim c) then Some (leave i (c\<lparr>csim := csim c\<lparr>stopChan := False\<rparr>\<rparr>)) else None)"
| "fire_run i (AtSelect ticking) TakePause c =
     (if pauseChan (csim c) then Some (goto i PausedWait (c\<lparr>csim := csim c\<lparr>pauseChan := False\<rparr>\<rparr>)) else None)"
| "fire_run i (AtSelect ticking) TakeTick c = (if ticking then Some (goto i TickRead c) else None)"
| "fire_run i TickRead Proceed c =
     Some (goto i (case sim_state (csim c) of SimStatePaused \<Rightarrow> NotePause | SimStateRunning \<Rightarrow> Exec | _ \<Rightarrow> AtSelect True) c)"
| "fire_run i NotePause Proceed c = Some (goto i (AtSelect False) (c\<lparr>csim := csim c\<lparr>pauseChan := True\<rparr>\<rparr>))"
| "fire_run i Exec Proceed c =
     (case executeTimeUnit (csim c) of None \<Rightarrow> None | Some s \<Rightarrow> Some (goto i CheckDone (c\<lparr>csim := s\<rparr>)))"
| "fire_run i CheckDone Proceed c = Some (goto i (if isComplete (csim c) then SetComplete else AtSelect True) c)"
| "fire_run i SetComplete Proceed c = Some (leave i (c\<lparr>csim := csim c\<lparr>sim_state := SimStateComplete\<rparr>\<rparr>))"
| "fire_run i PausedWait TakePause c =
     (if pauseChan (csim c) then Some (goto i (AtSelect True) (c\<lparr>csim := csim c\<lparr>pauseChan := False\<rparr>\<rparr>)) else None)"
| "fire_run i PausedWait TakeStop c =
     (if stopChan (csim c) then Some (leave i (c\<lparr>csim := csim c\<lparr>stopChan := False\<rparr>\<rparr>)) else None)"
| "fire_run i _ _ c = None"

text \<open>One move of a call: its next point, or that it returns.\<close>

fun fire_caller :: "call_pc \<Rightarrow> ctl \<Rightarrow> (call_pc option \<times> ctl) option" where
  "fire_caller ResumeSend c = Some (None, c\<lparr>csim := csim c\<lparr>pauseChan := True\<rparr>\<rparr>)"
| "fire_caller (StopSend r) c = Some (Some (StopWait r), c\<lparr>csim := csim c\<lparr>stopChan := True\<rparr>\<rparr>)"
| "fire_caller (StopWait r) c = (if runs c = [] then Some (if r then Some DrainPause else None, c) else None)"
| "fire_caller DrainPause c = Some (Some DrainStop, c\<lparr>csim := csim c\<lparr>pauseChan := False\<rparr>\<rparr>)"
| "fire_caller DrainStop c = Some (Some ResetFields, c\<lparr>csim := csim c\<lparr>stopChan := False\<rparr>\<rparr>)"
| "fire_caller ResetFields c = Some (None, c\<lparr>csim := resetState (csim c)\<rparr>)"
| "fire_caller StepExec c =
     (case executeTimeUnit (csim c) of None \<Rightarrow> None | Some s \<Rightarrow> Some (Some StepCheck, c\<lparr>csim := s\<rparr>))"
| "fire_caller StepCheck c = Some (if isComplete (csim c) then Some StepComplete else None, c)"
| "fire_caller StepComplete c = Some (None, c\<lparr>csim := csim c\<lparr>sim_state := SimStateComplete\<rparr>\<rparr>)"

definition enter :: "call_pc \<Rightarrow> ctl \<Rightarrow> ctl" where
  "enter pc c = c\<lparr>callers := callers c @ [pc]\<rparr>"

text \<open>\<^verbatim>\<open>stepMu\<close> admits one \<^verbatim>\<open>Step\<close> at a time.\<close>

definition stepping :: "ctl \<Rightarrow> bool" where
  "stepping c = list_ex (\<lambda>pc. pc = StepExec \<or> pc = StepCheck \<or> pc = StepComplete) (callers c)"

fun fire :: "((addr \<Rightarrow> int) \<Rightarrow> addr list \<Rightarrow> addr list) \<Rightarrow> label \<Rightarrow> ctl \<Rightarrow> ctl option" where
  "fire sortSlice CallStart c =
     (let (go, s) = Start (csim c); c = c\<lparr>csim := s\<rparr>
      in Some (if go then c\<lparr>runs := runs c @ [AtSelect True]\<rparr> else c))"
| "fire sortSlice CallPause c = Some (c\<lparr>csim := Pause (csim c)\<rparr>)"
| "fire sortSlice CallResume c =
     Some (if sim_state (csim c) = SimStatePaused
           then enter ResumeSend (c\<lparr>csim := csim c\<lparr>sim_state := SimStateRunning\<rparr>\<rparr>) else c)"
| "fire sortSlice (CallStop r) c =
     (case sim_state (csim c) of
        SimStateRunning \<Rightarrow> Some (enter (StopSend r) (c\<lparr>csim := csim c\<lparr>sim_state := SimStateIdle\<rparr>\<rparr>))
      | SimStatePaused \<Rightarrow> Some (enter (StopSend r) (c\<lparr>csim := csim c\<lparr>sim_state := SimStateIdle\<rparr>\<rparr>))
      | SimStateComplete \<Rightarrow> Some (enter (StopWait r) (c\<lparr>csim := csim c\<lparr>sim_state := SimStateIdle\<rparr>\<rparr>))
      | SimStateIdle \<Rightarrow> Some (if r then enter DrainPause c else c))"
| "fire sortSlice CallStep c =
     (if stepping c then None
      else if sim_state (csim c) = SimStateRunning \<or> sim_state (csim c) = SimStateComplete then Some c
      else Some (enter StepExec
             (if sim_state (csim c) = SimStateIdle then c\<lparr>csim := csim c\<lparr>sim_state := SimStatePaused\<rparr>\<rparr> else c)))"
| "fire sortSlice (CallSpeed v) c = Some (c\<lparr>csim := SetSpeed v (csim c)\<rparr>)"
| "fire sortSlice (CallAdd p) c = Some (c\<lparr>csim := Simulator_AddProcess sortSlice p (csim c)\<rparr>)"
| "fire sortSlice (Caller i) c =
     (if i < length (callers c)
      then case fire_caller (callers c ! i) c of
             None \<Rightarrow> None
           | Some (pc, c) \<Rightarrow>
               Some (c\<lparr>callers := take i (callers c) @ (case pc of None \<Rightarrow> [] | Some pc \<Rightarrow> [pc]) @ drop (Suc i) (callers c)\<rparr>)
      else None)"
| "fire sortSlice (Run i ch) c = (if i < length (runs c) then fire_run i (runs c ! i) ch c else None)"

text \<open>Clients make calls; the rest is what the goroutines and the pending calls do by themselves.\<close>

definition internal :: "label \<Rightarrow> bool" where
  "internal l \<longleftrightarrow> (case l of Caller _ \<Rightarrow> True | Run _ _ \<Rightarrow> True | _ \<Rightarrow> False)"

fun fire_all :: "((addr \<Rightarrow> int) \<Rightarrow> addr list \<Rightarrow> addr list) \<Rightarrow> label list \<Rightarrow> ctl \<Rightarrow> ctl option" where
  "fire_all sortSlice [] c = Some c"
| "fire_all sortSlice (l # ls) c = (case fire sortSlice l c of None \<Rightarrow> None | Some c \<Rightarrow> fire_all sortSlice ls c)"

definition boot :: "scheduler \<Rightarrow> ctl" where
  "boot sch = \<lparr>csim = NewSimulator sch, runs = [], callers = []\<rparr>"

section \<open>Reachable states\<close>

inductive ctl_reach :: "((addr \<Rightarrow> int) \<Rightarrow> addr list \<Rightarrow> addr list) \<Rightarrow> ctl \<Rightarrow> bool" for sortSlice where
  init: "sched_ok sch \<Longrightarrow> ctl_reach sortSlice (boot sch)"
| step: "ctl_reach sortSlice c \<Longrightarrow> currentTime (csim c) < MaxInt64 \<Longrightarrow>
    (\<forall>p. l = CallAdd p \<longrightarrow> fresh p) \<Longrightarrow> fire sortSlice l c = Some c' \<Longrightarrow> ctl_reach sortSlice c'"

lemma goto_csim [simp]: "csim (goto i pc c) = csim c" "callers (goto i pc c) = callers c"
  and leave_csim [simp]: "csim (leave i c) = csim c" "callers (leave i c) = callers c"
  and enter_csim [simp]: "csim (enter cpc c) = csim c" "runs (enter cpc c) = runs c"
  by (simp_all add: goto_def leave_def enter_def)

text \<open>The reset of the fields is the last part of \<^verbatim>\<open>Reset\<close>.\<close>

lemma resetState_Reset: "resetState s = (Reset True s)\<lparr>pauseChan := pauseChan s, stopChan := stopChan s\<rparr>"
  by (simp add: Reset_eq resetState_def Let_def resetProcesses_frame cong: if_cong)

text \<open>
  What a move does to the simulator: nothing, a change of the control fields, a time unit, a reset
  or an added process.
\<close>

inductive sim_move :: "((addr \<Rightarrow> int) \<Rightarrow> addr list \<Rightarrow> addr list) \<Rightarrow> label \<Rightarrow> Simulator \<Rightarrow> Simulator \<Rightarrow> bool"
  for sortSlice l where
  control: "sim_move sortSlice l s (s\<lparr>sim_state := st, speed := v, pauseChan := p, stopChan := q\<rparr>)"
| unit: "executeTimeUnit s = Some s' \<Longrightarrow> sim_move sortSlice l s s'"
| reset: "sim_move sortSlice l s (resetState s)"
| add: "l = CallAdd p \<Longrightarrow> sim_move sortSlice l s (Simulator_AddProcess sortSlice p s)"

lemma control_moves [simp]:
  "sim_move sortSlice l s s" "sim_move sortSlice l s (s\<lparr>sim_state := st\<rparr>)" "sim_move sortSlice l s (s\<lparr>speed := v\<rparr>)"
  "sim_move sortSlice l s (s\<lparr>pauseChan := p\<rparr>)" "sim_move sortSlice l s (s\<lparr>stopChan := q\<rparr>)"
  using sim_move.control [where sortSlice = sortSlice and l = l and s = s and st = "sim_state s" and v = "speed s" and p = "pauseChan s" and q = "stopChan s"]
    sim_move.control [where sortSlice = sortSlice and l = l and s = s and st = st and v = "speed s" and p = "pauseChan s" and q = "stopChan s"]
    sim_move.control [where sortSlice = sortSlice and l = l and s = s and st = "sim_state s" and v = v and p = "pauseChan s" and q = "stopChan s"]
    sim_move.control [where sortSlice = sortSlice and l = l and s = s and st = "sim_state s" and v = "speed s" and p = p and q = "stopChan s"]
    sim_move.control [where sortSlice = sortSlice and l = l and s = s and st = "sim_state s" and v = "speed s" and p = "pauseChan s" and q = q]
  by simp_all

lemma fire_run_move: "fire_run i pc ch c = Some c' \<Longrightarrow> sim_move sortSlice l (csim c) (csim c')"
  by (induction i pc ch c rule: fire_run.induct) (auto split: if_splits option.splits intro: sim_move.unit)

lemma fire_caller_move: "fire_caller pc c = Some (pc', c') \<Longrightarrow> sim_move sortSlice l (csim c) (csim c')"
  by (cases pc) (auto split: if_splits option.splits intro: sim_move.unit sim_move.reset)

lemma fire_move: "fire sortSlice l c = Some c' \<Longrightarrow> sim_move sortSlice l (csim c) (csim c')"
proof (induction sortSlice l c rule: fire.induct)
  case (8 sortSlice i c)
  then obtain pc d where "fire_caller (callers c ! i) c = Some (pc, d)" "csim c' = csim d"
    by (auto split: if_splits option.splits)
  then show ?case using fire_caller_move by metis
next
  case (9 sortSlice i ch c)
  then show ?case using fire_run_move by (auto split: if_splits)
qed (auto simp: Start_def Pause_def SetSpeed_def Let_def split: if_splits SimulationState.splits intro: sim_move.add)

context engine_invariant
begin

lemma sim_move_inv:
  assumes "slice_sort sortSlice" "sim_move sortSlice l s s'" "base_inv s" "I s" "currentTime s < MaxInt64"
    and "\<forall>p. l = CallAdd p \<longrightarrow> fresh p"
  shows "base_inv s' \<and> I s'"
  using assms(2)
proof cases
  case (control st v p q)
  then show ?thesis using assms(3,4) by (simp add: I_control)
next
  case unit
  then show ?thesis using executeTimeUnit_base(1) tick assms(3-5) by blast
next
  case reset
  then show ?thesis using Reset_base [OF assms(3), of True] engine_invariant.reset [OF engine_invariant_axioms assms(3,4), of True]
    by (simp add: resetState_Reset I_control)
next
  case (add p)
  obtain ps where "Simulator_AddProcess sortSlice p s = Engine_Run.added p ps s" "mset ps = mset (processes s @ [next_addr s])"
    by (rule AddProcess_added [OF assms(1)])
  then show ?thesis using add assms(3,4,6) added_base added by simp
qed

text \<open>Every invariant of the sequential operations holds under every interleaving.\<close>

lemma ctl_reach_inv:
  assumes "slice_sort sortSlice"
  shows "ctl_reach sortSlice c \<Longrightarrow> base_inv (csim c) \<and> I (csim c)"
proof (induction rule: ctl_reach.induct)
  case (init sch)
  then show ?case using NewSimulator_base new by (simp add: boot_def)
next
  case (step c l c')
  then show ?case using sim_move_inv [OF assms fire_move [OF step.hyps(4)]] by blast
qed

end

text \<open>
  C4: The engine is safe under concurrency: whatever calls clients make and however their critical
  sections interleave with any number of run goroutines, every process stays in exactly the place
  its state names, the Gantt chart covers the time from 0 to now without gap, executed and idle time
  add up to the clock, and no time unit panics.
\<close>

theorem concurrent_control_safe:
  assumes "slice_sort sortSlice" "ctl_reach sortSlice c"
  shows "sim_inv (csim c) \<and> contiguous 0 (ganttChart (csim c)) (currentTime (csim c)) \<and>
    busy_time (csim c) + totalIdleTime (csim c) = currentTime (csim c) \<and>
    (currentTime (csim c) < MaxInt64 \<longrightarrow> executeTimeUnit (csim c) \<noteq> None)"
proof -
  have "sim_inv (csim c)" "time_inv (csim c)" "gantt_inv (csim c)"
    using gantt.ctl_reach_inv [OF assms] by (auto simp: base_inv_def)
  then show ?thesis using executeTimeUnit_total by (metis gantt_inv_def time_inv_def option.distinct(1))
qed

section \<open>Traces\<close>

lemma sim_move_time:
  assumes "sim_move sortSlice l s s'" "base_inv s" "0 \<le> currentTime s" "currentTime s < MaxInt64"
  shows "0 \<le> currentTime s' \<and> currentTime s' \<le> currentTime s + 1"
  using assms(1)
proof cases
  case unit
  then show ?thesis using executeTimeUnit_base(3) [OF assms(2,4)] assms(3) by simp
qed (use assms(3) in \<open>simp_all add: resetState_Reset Simulator_AddProcess_def Let_def\<close>)

lemma fire_all_reach:
  assumes "slice_sort sortSlice"
  shows "ctl_reach sortSlice c \<Longrightarrow> fire_all sortSlice ls c = Some c' \<Longrightarrow> \<forall>p. CallAdd p \<in> set ls \<longrightarrow> fresh p \<Longrightarrow>
    0 \<le> currentTime (csim c) \<Longrightarrow> currentTime (csim c) + int (length ls) \<le> MaxInt64 \<Longrightarrow> ctl_reach sortSlice c'"
proof (induction ls arbitrary: c)
  case (Cons l ls)
  obtain d where d: "fire sortSlice l c = Some d" "fire_all sortSlice ls d = Some c'"
    using Cons.prems(2) by (auto split: option.splits)
  have t: "currentTime (csim c) < MaxInt64" using Cons.prems(5) by simp
  have "base_inv (csim c)" using structural.ctl_reach_inv [OF assms Cons.prems(1)] by blast
  from sim_move_time [OF fire_move [OF d(1)] this Cons.prems(4) t]
  have "0 \<le> currentTime (csim d)" "currentTime (csim d) + int (length ls) \<le> MaxInt64" using Cons.prems(5) by simp_all
  moreover have "ctl_reach sortSlice d"
    using Cons.prems(3) by (intro ctl_reach.step [OF Cons.prems(1) t _ d(1)]) auto
  ultimately show ?case using Cons.IH d(2) Cons.prems(3) by simp
qed simp

lemma fire_all_append:
  "fire_all sortSlice (ls @ ls') c = (case fire_all sortSlice ls c of None \<Rightarrow> None | Some c \<Rightarrow> fire_all sortSlice ls' c)"
  by (induction ls arbitrary: c) (simp_all split: option.splits)

lemma boot_time [simp]: "currentTime (csim (boot sch)) = 0"
  by (simp add: boot_def NewSimulator_def)

text \<open>Two run goroutines, a process and a tick.\<close>

definition demo_trace :: "label list" where
  "demo_trace = [CallAdd (NewProcess 1 ''a'' 0 2 0), CallStart, CallPause, CallStart, Run 1 TakeTick, Run 1 Proceed, Run 1 Proceed]"

theorem concurrent_control_safe_witness:
  "\<exists>c. fire_all (\<lambda>key. sort_key key) demo_trace (boot (FCFS NewFCFSScheduler)) = Some c \<and> sim_inv (csim c)"
proof -
  let ?run = "fire_all (\<lambda>key. sort_key key) demo_trace (boot (FCFS NewFCFSScheduler))"
  have "map_option (\<lambda>c. length (runs c)) ?run = Some 2" by code_simp
  then obtain c where c: "?run = Some c" by auto
  have "ctl_reach (\<lambda>key. sort_key key) c"
    by (rule fire_all_reach [OF stable.slice_sort_axioms ctl_reach.init [OF constructors_ok(1)] c])
      (auto simp: demo_trace_def fresh_NewProcess)
  with c show ?thesis using concurrent_control_safe [OF stable.slice_sort_axioms] by blast
qed

section \<open>Pause and resume\<close>

text \<open>A run goroutine that is alone, with empty channels and no call pending.\<close>

definition alone :: "run_pc \<Rightarrow> SimulationState \<Rightarrow> ctl \<Rightarrow> bool" where
  "alone pc st c \<longleftrightarrow> runs c = [pc] \<and> callers c = [] \<and> sim_state (csim c) = st \<and> \<not> pauseChan (csim c) \<and> \<not> stopChan (csim c)"

fun internal_run :: "((addr \<Rightarrow> int) \<Rightarrow> addr list \<Rightarrow> addr list) \<Rightarrow> nat \<Rightarrow> ctl \<Rightarrow> ctl \<Rightarrow> bool" where
  "internal_run sortSlice 0 c c' \<longleftrightarrow> c' = c"
| "internal_run sortSlice (Suc n) c c' \<longleftrightarrow> (\<exists>l d. internal l \<and> fire sortSlice l c = Some d \<and> internal_run sortSlice n d c')"

text \<open>A state in which exactly one internal move is possible.\<close>

lemma forced:
  assumes "\<And>l d'. internal l \<and> fire sortSlice l c = Some d' \<longleftrightarrow> l = l0 \<and> d' = d"
  shows "internal_run sortSlice (Suc n) c c' = internal_run sortSlice n d c'"
  using assms by (metis internal_run.simps(2))

lemma forced_run:
  assumes "runs c = [pc]" "callers c = []" "\<And>ch d'. fire_run 0 pc ch c = Some d' \<longleftrightarrow> ch = ch0 \<and> d' = d"
  shows "internal_run sortSlice (Suc n) c c' = internal_run sortSlice n d c'"
proof (rule forced)
  show "internal l \<and> fire sortSlice l c = Some d' \<longleftrightarrow> l = Run 0 ch0 \<and> d' = d" for l d'
    using assms by (cases l) (auto simp: internal_def)
qed

lemma pause_moves:
  "alone (AtSelect True) st c \<Longrightarrow> internal_run sortSlice (Suc n) c c' = internal_run sortSlice n (c\<lparr>runs := [TickRead]\<rparr>) c'"
  "alone TickRead SimStatePaused c \<Longrightarrow> internal_run sortSlice (Suc n) c c' = internal_run sortSlice n (c\<lparr>runs := [NotePause]\<rparr>) c'"
  "alone NotePause st c \<Longrightarrow> internal_run sortSlice (Suc n) c c' =
     internal_run sortSlice n (c\<lparr>runs := [AtSelect False], csim := csim c\<lparr>pauseChan := True\<rparr>\<rparr>) c'"
  "alone (AtSelect False) st c \<Longrightarrow> internal_run sortSlice (Suc n) (c\<lparr>csim := csim c\<lparr>pauseChan := True\<rparr>\<rparr>) c' =
     internal_run sortSlice n (c\<lparr>runs := [PausedWait]\<rparr>) c'"
proof -
  have f: "(fire_run 0 pc ch d = Some d') = (case ch of TakeStop \<Rightarrow> fire_run 0 pc TakeStop d = Some d'
      | TakePause \<Rightarrow> fire_run 0 pc TakePause d = Some d' | TakeTick \<Rightarrow> fire_run 0 pc TakeTick d = Some d'
      | Proceed \<Rightarrow> fire_run 0 pc Proceed d = Some d')" for pc ch d d'
    by (cases ch) simp_all
  show "internal_run sortSlice (Suc n) c c' = internal_run sortSlice n (c\<lparr>runs := [TickRead]\<rparr>) c'" if "alone (AtSelect True) st c"
    using that by (intro forced_run [where pc = "AtSelect True" and ?ch0.0 = TakeTick])
      (auto simp: alone_def f goto_def split: choice.splits)
  show "internal_run sortSlice (Suc n) c c' = internal_run sortSlice n (c\<lparr>runs := [NotePause]\<rparr>) c'" if "alone TickRead SimStatePaused c"
    using that by (intro forced_run [where pc = TickRead and ?ch0.0 = Proceed])
      (auto simp: alone_def f goto_def split: choice.splits)
  show "internal_run sortSlice (Suc n) c c' =
     internal_run sortSlice n (c\<lparr>runs := [AtSelect False], csim := csim c\<lparr>pauseChan := True\<rparr>\<rparr>) c'" if "alone NotePause st c"
    using that by (intro forced_run [where pc = NotePause and ?ch0.0 = Proceed])
      (auto simp: alone_def f goto_def split: choice.splits)
  show "internal_run sortSlice (Suc n) (c\<lparr>csim := csim c\<lparr>pauseChan := True\<rparr>\<rparr>) c' =
     internal_run sortSlice n (c\<lparr>runs := [PausedWait]\<rparr>) c'" if "alone (AtSelect False) st c"
    using that by (intro forced_run [where pc = "AtSelect False" and ?ch0.0 = TakePause])
      (auto simp: alone_def f goto_def split: choice.splits)
qed

lemma resume_moves:
  "alone PausedWait st c \<Longrightarrow> internal_run sortSlice (Suc n) (enter ResumeSend c) c' =
     internal_run sortSlice n (c\<lparr>csim := csim c\<lparr>pauseChan := True\<rparr>\<rparr>) c'"
  "alone PausedWait st c \<Longrightarrow> internal_run sortSlice (Suc n) (c\<lparr>csim := csim c\<lparr>pauseChan := True\<rparr>\<rparr>) c' =
     internal_run sortSlice n (c\<lparr>runs := [AtSelect True]\<rparr>) c'"
proof -
  have n: "fire_run 0 PausedWait ch d = None" if "\<not> pauseChan (csim d)" "\<not> stopChan (csim d)" for ch d
    using that by (cases ch) simp_all
  show "internal_run sortSlice (Suc n) (enter ResumeSend c) c' =
      internal_run sortSlice n (c\<lparr>csim := csim c\<lparr>pauseChan := True\<rparr>\<rparr>) c'" if a: "alone PausedWait st c"
  proof (rule forced)
    show "internal l \<and> fire sortSlice l (enter ResumeSend c) = Some d' \<longleftrightarrow>
        l = Caller 0 \<and> d' = c\<lparr>csim := csim c\<lparr>pauseChan := True\<rparr>\<rparr>" for l d'
      using a n by (cases l) (auto simp: internal_def alone_def enter_def)
  qed
  have "fire_run 0 PausedWait ch (c\<lparr>csim := csim c\<lparr>pauseChan := True\<rparr>\<rparr>) = Some d' \<longleftrightarrow>
      ch = TakePause \<and> d' = c\<lparr>runs := [AtSelect True]\<rparr>" if "alone PausedWait st c" for ch d'
    using that by (cases ch) (auto simp: alone_def goto_def)
  then show "internal_run sortSlice (Suc n) (c\<lparr>csim := csim c\<lparr>pauseChan := True\<rparr>\<rparr>) c' =
      internal_run sortSlice n (c\<lparr>runs := [AtSelect True]\<rparr>) c'" if "alone PausedWait st c"
    using that by (intro forced_run [where pc = PausedWait and ?ch0.0 = TakePause]) (simp_all add: alone_def)
qed

text \<open>
  C19: Pause and Resume work when the pause is given time to be noticed: for a running simulation
  with one run goroutine, four internal moves after \<^verbatim>\<open>Pause\<close> the goroutine waits in the paused loop,
  with no other way for things to go, and two internal moves after a \<^verbatim>\<open>Resume\<close> there everything is
  exactly as it was before the pause.
\<close>

theorem pause_resume_roundtrip:
  assumes "alone (AtSelect True) SimStateRunning c"
  shows "\<exists>p q. fire sortSlice CallPause c = Some p \<and> (\<forall>w. internal_run sortSlice 4 p w \<longleftrightarrow> w = q) \<and>
    alone PausedWait SimStatePaused q \<and>
    (\<exists>r. fire sortSlice CallResume q = Some r \<and> (\<forall>w. internal_run sortSlice 2 r w \<longleftrightarrow> w = c))"
proof -
  define p where "p = c\<lparr>csim := csim c\<lparr>sim_state := SimStatePaused\<rparr>\<rparr>"
  define q where "q = p\<lparr>runs := [PausedWait]\<rparr>"
  have c: "runs c = [AtSelect True]" "callers c = []" "sim_state (csim c) = SimStateRunning" "\<not> pauseChan (csim c)" "\<not> stopChan (csim c)"
    using assms by (simp_all add: alone_def)
  have a: "alone (AtSelect True) SimStatePaused p" "alone TickRead SimStatePaused (p\<lparr>runs := [TickRead]\<rparr>)"
    "alone NotePause SimStatePaused (p\<lparr>runs := [NotePause]\<rparr>)" "alone (AtSelect False) SimStatePaused (p\<lparr>runs := [AtSelect False]\<rparr>)"
    "alone PausedWait SimStatePaused q"
    using c by (simp_all add: alone_def p_def q_def)
  have "internal_run sortSlice 4 p w \<longleftrightarrow> w = q" for w
    using pause_moves(1) [OF a(1), of sortSlice 3 w] pause_moves(2) [OF a(2), of sortSlice 2 w]
      pause_moves(3) [OF a(3), of sortSlice 1 w] pause_moves(4) [OF a(4), of sortSlice 0 w]
    by (simp add: numeral_eq_Suc q_def)
  moreover have "fire sortSlice CallPause c = Some p" using c by (simp add: Pause_def p_def)
  moreover
  let ?r = "q\<lparr>csim := csim q\<lparr>sim_state := SimStateRunning\<rparr>\<rparr>"
  have r: "fire sortSlice CallResume q = Some (enter ResumeSend ?r)" using a(5) by (simp add: alone_def)
  have ar: "alone PausedWait SimStateRunning ?r" using a(5) by (simp add: alone_def)
  have "?r\<lparr>runs := [AtSelect True]\<rparr> = c" using c by (simp add: q_def p_def)
  then have "internal_run sortSlice 2 (enter ResumeSend ?r) w \<longleftrightarrow> w = c" for w
    using resume_moves(1) [OF ar, of sortSlice 1 w] resume_moves(2) [OF ar, of sortSlice 0 w]
    by (simp add: numeral_eq_Suc)
  ultimately show ?thesis using a(5) r by blast
qed

theorem pause_resume_roundtrip_witness:
  "\<exists>q r. internal_run (\<lambda>key. sort_key key) 4 (the (fire (\<lambda>key. sort_key key) CallPause
      (the (fire (\<lambda>key. sort_key key) CallStart (boot (CFS NewCFSScheduler)))))) q \<and>
    fire (\<lambda>key. sort_key key) CallResume q = Some r"
proof -
  let ?c = "the (fire (\<lambda>key. sort_key key) CallStart (boot (CFS NewCFSScheduler)))"
  have "alone (AtSelect True) SimStateRunning ?c"
    by (simp add: alone_def boot_def NewSimulator_def Start_def)
  from pause_resume_roundtrip [OF this, of "\<lambda>key. sort_key key"]
  obtain p q r where "fire (\<lambda>key. sort_key key) CallPause ?c = Some p" "internal_run (\<lambda>key. sort_key key) 4 p q"
    "fire (\<lambda>key. sort_key key) CallResume q = Some r" by blast
  then show ?thesis by (intro exI [of _ q] exI [of _ r]) simp
qed

section \<open>Hazards\<close>

text \<open>What remains when two goroutines were told to stop by one token: the caller waits for the other.\<close>

definition deadlocked :: "bool \<Rightarrow> ctl \<Rightarrow> bool" where
  "deadlocked b c \<longleftrightarrow> callers c = [StopWait b] \<and> (runs c = [AtSelect True] \<or> runs c = [TickRead]) \<and>
     sim_state (csim c) = SimStateIdle \<and> \<not> pauseChan (csim c) \<and> \<not> stopChan (csim c)"

lemma deadlocked_stays:
  assumes "deadlocked b c" "internal l" "fire sortSlice l c = Some c'"
  shows "deadlocked b c'"
proof (cases l)
  case (Caller i)
  then show ?thesis using assms by (auto simp: deadlocked_def split: if_splits)
next
  case (Run i ch)
  then have i: "i = 0" "fire_run 0 (runs c ! 0) ch c = Some c'" using assms by (auto simp: deadlocked_def split: if_splits)
  then show ?thesis using assms(1)
    by (cases ch) (auto simp: deadlocked_def goto_def split: if_splits)
qed (use assms in \<open>simp_all add: internal_def\<close>)

lemma deadlocked_forever: "deadlocked b c \<Longrightarrow> internal_run sortSlice n c c' \<Longrightarrow> deadlocked b c'"
  by (induction n arbitrary: c) (auto dest: deadlocked_stays)

text \<open>Tokens and a step of the engine, evaluated on one process that arrives later.\<close>

definition step_trace :: "label list" where
  "step_trace = [CallAdd (NewProcess 1 ''a'' 5 2 0), CallStep, Caller 0, Caller 0, CallResume, Caller 0]"

lemma step_trace_end:
  "\<exists>c. fire_all (\<lambda>key. sort_key key) step_trace (boot (FCFS NewFCFSScheduler)) = Some c \<and>
     sim_state (csim c) = SimStateRunning \<and> runs c = [] \<and> callers c = [] \<and> \<not> isComplete (csim c)"
proof -
  have "map_option (\<lambda>c. (sim_state (csim c) = SimStateRunning, runs c, callers c, isComplete (csim c)))
      (fire_all (\<lambda>key. sort_key key) step_trace (boot (FCFS NewFCFSScheduler))) = Some (True, [], [], False)"
    by code_simp
  then show ?thesis by auto
qed



end
