(* ===== verification/History_Store.thy ===== *)
theory History_Store
  imports Engine
begin

text \<open>
  The package \<^verbatim>\<open>internal/store\<close>: the bounded history of completed simulations. The abstract
  specification is the list of everything ever saved, newest first, cut to the capacity; the
  slice with its eviction from the front implements it.
\<close>

section \<open>Model\<close>

record IOBurstInput =
  in_AfterCPUTime :: int
  in_Duration :: int

record ProcessInput =
  in_PID :: int
  in_Name :: string
  in_Arrival :: int
  in_Burst :: int
  in_Priority :: int
  in_IOBursts :: "IOBurstInput list"

record SimulationConfig =
  cfg_Algorithm :: string
  cfg_TimeQuantum :: int
  cfg_Speed :: int
  cfg_Processes :: "ProcessInput list"

record SimRecord =
  r_ID :: string
  r_Algorithm :: string
  r_CreatedAt :: int
  r_Duration :: int
  r_Config :: SimulationConfig
  r_FinalState :: "SimulationUpdate option"

record Store =
  records :: "SimRecord list"
  capacity :: int

definition Store_New :: "int \<Rightarrow> Store" where
  "Store_New cap = (let cap = (if cap < 1 then 100 else cap) in \<lparr>records = [], capacity = cap\<rparr>)"

definition Save :: "SimRecord \<Rightarrow> Store \<Rightarrow> Store" where
  "Save r s =
     (let s = (if capacity s \<le> int (length (records s)) then s\<lparr>records := tl (records s)\<rparr> else s)
      in s\<lparr>records := records s @ [r]\<rparr>)"

text \<open>\<^verbatim>\<open>s.records[1:]\<close> of an empty slice would panic, but the capacity is at least one.\<close>

fun Get_loop :: "string \<Rightarrow> SimRecord list \<Rightarrow> SimRecord option" where
  "Get_loop i [] = None"
| "Get_loop i (r # rs) = (if r_ID r = i then Some r else Get_loop i rs)"

definition Get :: "string \<Rightarrow> Store \<Rightarrow> SimRecord option" where
  "Get i s = Get_loop i (records s)"

text \<open>\<^verbatim>\<open>List\<close> fills a new slice from its end; every cell is written before it is returned.\<close>

fun List_loop :: "nat \<Rightarrow> SimRecord list \<Rightarrow> SimRecord option list \<Rightarrow> SimRecord option list" where
  "List_loop i [] out = out"
| "List_loop i (r # rs) out = List_loop (Suc i) rs (out[length out - 1 - i := Some r])"

definition List :: "Store \<Rightarrow> SimRecord option list" where
  "List s = List_loop 0 (records s) (replicate (length (records s)) None)"

definition Clear :: "Store \<Rightarrow> Store" where
  "Clear s = s\<lparr>records := []\<rparr>"

section \<open>The specification\<close>

text \<open>A bounded history: what a client sees after any sequence of saves.\<close>

locale bounded_history =
  fixes save :: "'r \<Rightarrow> 's \<Rightarrow> 's" and contents :: "'s \<Rightarrow> 'r list" and cap :: "'s \<Rightarrow> nat" and ok :: "'s \<Rightarrow> bool"
  assumes save_contents: "ok s \<Longrightarrow> contents (save r s) = take (cap s) (r # contents s)"
    and save_cap: "cap (save r s) = cap s"
    and save_ok: "ok s \<Longrightarrow> ok (save r s)"
begin

lemma fold_save:
  "ok s \<Longrightarrow> length (contents s) \<le> cap s \<Longrightarrow>
   ok (fold save rs s) \<and> cap (fold save rs s) = cap s \<and> contents (fold save rs s) = take (cap s) (rev rs @ contents s)"
proof (induction rs arbitrary: s)
  case (Cons r rs)
  have "length (contents (save r s)) \<le> cap (save r s)"
    using Cons.prems by (simp add: save_contents save_cap)
  then have IH: "contents (fold save rs (save r s)) = take (cap s) (rev rs @ take (cap s) (r # contents s))"
    "ok (fold save rs (save r s))" "cap (fold save rs (save r s)) = cap s"
    using Cons.IH [of "save r s"] Cons.prems by (simp_all add: save_contents save_cap save_ok)
  have "take (cap s) (rev rs @ take (cap s) (r # contents s)) = take (cap s) (rev rs @ r # contents s)"
    by (simp add: min_def take_Cons' split: if_splits)
  then show ?case using IH by simp
qed simp

end

definition store_ok :: "Store \<Rightarrow> bool" where
  "store_ok s \<longleftrightarrow> 1 \<le> capacity s \<and> int (length (records s)) \<le> capacity s"

interpretation history: bounded_history Save "\<lambda>s. rev (records s)" "\<lambda>s. nat (capacity s)" store_ok
proof unfold_locales
  fix s r assume ok: "store_ok s"
  show "rev (records (Save r s)) = take (nat (capacity s)) (r # rev (records s))"
  proof (cases "capacity s \<le> int (length (records s))")
    case True
    then have n: "nat (capacity s) = length (records s)" "records s \<noteq> []" using ok by (auto simp: store_ok_def)
    then obtain x xs where x: "records s = x # xs" by (cases "records s") auto
    show ?thesis using True n x by (simp add: Save_def)
  next
    case False
    then show ?thesis by (simp add: Save_def take_Cons')
  qed
  show "store_ok (Save r s)" using ok by (cases "records s") (auto simp: store_ok_def Save_def Let_def)
qed (simp add: Save_def Let_def)

lemma List_loop_rev:
  "length out = i + length rs \<Longrightarrow> List_loop i rs out = rev (map Some rs) @ drop (length rs) out"
proof (induction rs arbitrary: i out)
  case (Cons r rs)
  have n: "length out - Suc i = length rs" using Cons.prems by simp
  have "List_loop (Suc i) rs (out[length rs := Some r]) = rev (map Some rs) @ drop (length rs) (out[length rs := Some r])"
    using Cons.prems by (intro Cons.IH) simp
  also have "drop (length rs) (out[length rs := Some r]) = Some r # drop (Suc (length rs)) out"
    using Cons.prems by (simp add: drop_update_swap Cons_nth_drop_Suc [symmetric, of "length rs"] upd_conv_take_nth_drop)
  finally show ?case by (simp add: n)
qed simp

lemma List_rev: "List s = map Some (rev (records s))"
  unfolding List_def using List_loop_rev [of "replicate (length (records s)) None" 0 "records s"]
  by (simp add: rev_map)

lemma Get_loop_find: "Get_loop i rs = find (\<lambda>r. r_ID r = i) rs"
  by (induction rs) auto


text \<open>
  A saved record can be retrieved: if its ID is not in the store already, \<^verbatim>\<open>Get\<close> returns it
  right after \<^verbatim>\<open>Save\<close>, and every other ID gives what it gave before, unless the store was full
  and it is the ID of the oldest record.
\<close>

lemma store_save_get:
  assumes "store_ok s" "Get (r_ID r) s = None"
  shows "Get (r_ID r) (Save r s) = Some r \<and>
    (i \<noteq> r_ID r \<longrightarrow> Get i (Save r s) = Get i s \<or>
       capacity s = int (length (records s)) \<and> r_ID (hd (records s)) = i)"
proof -
  have find_app: "find P (xs @ [y]) = (case find P xs of None \<Rightarrow> if P y then Some y else None | Some z \<Rightarrow> Some z)" for P xs and y :: SimRecord
    by (induction xs) auto
  show ?thesis
  proof (cases "records s")
    case Nil
    then show ?thesis using assms by (auto simp: Get_def Get_loop_find Save_def store_ok_def Let_def)
  next
    case (Cons x xs)
    then show ?thesis using assms
      by (auto simp: Get_def Get_loop_find Save_def store_ok_def Let_def find_app split: option.splits if_splits)
  qed
qed

end
