(* ===== verification/Go_Strings.thy ===== *)
theory Go_Strings
  imports Go_Base
begin

text \<open>
  The parts of Go's \<^verbatim>\<open>strconv\<close> and \<^verbatim>\<open>strings\<close> that the server packages use. A string is the
  list of its bytes. Case and white space are those of ASCII; the Unicode letters and spaces that
  \<^verbatim>\<open>strings.ToLower\<close> and \<^verbatim>\<open>strings.TrimSpace\<close> also know are left as they are. The lemmas show that
  parsing undoes the decimal rendering, so that rendering is injective.
\<close>

section \<open>Numbers\<close>

abbreviation byte :: "char \<Rightarrow> nat" where
  "byte c \<equiv> of_char c"

definition is_digit :: "char \<Rightarrow> bool" where
  "is_digit c \<longleftrightarrow> 48 \<le> byte c \<and> byte c \<le> 57"

definition digit_val :: "char \<Rightarrow> int" where
  "digit_val c = int (byte c) - 48"

fun parse_digits :: "int \<Rightarrow> string \<Rightarrow> int option" where
  "parse_digits n [] = Some n"
| "parse_digits n (c # cs) = (if is_digit c then parse_digits (10 * n + digit_val c) cs else None)"

text \<open>\<^verbatim>\<open>strconv.Atoi\<close>: an optional sign, at least one digit, and a value that fits into 64 bits.\<close>

definition Atoi :: "string \<Rightarrow> int option" where
  "Atoi s = do {
     let neg = (s \<noteq> [] \<and> hd s = CHR ''-'');
     let ds = (if s \<noteq> [] \<and> (hd s = CHR ''-'' \<or> hd s = CHR ''+'') then tl s else s);
     n \<leftarrow> (if ds = [] then None else parse_digits 0 ds);
     let n = (if neg then - n else n);
     if in64 n then Some n else None
   }"

lemma digit_char:
  assumes "n < 10"
  shows "is_digit (char_of (48 + n))" "digit_val (char_of (48 + n)) = int n"
proof -
  have "byte (char_of (48 + n)) = 48 + n" using assms by (simp add: of_char_of)
  then show "is_digit (char_of (48 + n))" "digit_val (char_of (48 + n)) = int n"
    using assms by (simp_all add: is_digit_def digit_val_def)
qed

lemma parse_digits_append:
  "parse_digits n (xs @ ys) = (case parse_digits n xs of None \<Rightarrow> None | Some m \<Rightarrow> parse_digits m ys)"
  by (induction xs arbitrary: n) auto

lemma nat_digits_nonempty [simp]: "nat_digits n \<noteq> []"
  by (subst nat_digits.simps) simp

lemma nat_digits_digit: "c \<in> set (nat_digits n) \<Longrightarrow> is_digit c"
proof (induction n rule: nat_digits.induct)
  case (1 n)
  then show ?case using digit_char(1) [of n] digit_char(1) [of "n mod 10"]
    by (subst (asm) nat_digits.simps) (auto split: if_splits)
qed

lemma parse_nat_digits: "parse_digits 0 (nat_digits n) = Some (int n)"
proof (induction n rule: nat_digits.induct)
  case (1 n)
  have "10 * (int n div 10) + int n mod 10 = int n" by simp
  then show ?case
    using 1 digit_char [of n] digit_char [of "n mod 10"]
    by (subst nat_digits.simps) (simp add: parse_digits_append zdiv_int zmod_int)
qed

lemma not_digit: "\<not> is_digit CHR ''-''" "\<not> is_digit CHR ''+''"
  by (simp_all add: is_digit_def)

lemma Atoi_itoa:
  assumes "in64 n"
  shows "Atoi (itoa n) = Some n"
proof (cases "n < 0")
  case True
  then show ?thesis using assms by (simp add: Atoi_def itoa_def parse_nat_digits)
next
  case False
  have "hd (nat_digits (nat n)) \<in> set (nat_digits (nat n))" by simp
  then have "is_digit (hd (nat_digits (nat n)))" by (rule nat_digits_digit)
  then have "hd (nat_digits (nat n)) \<noteq> CHR ''-''" "hd (nat_digits (nat n)) \<noteq> CHR ''+''"
    using not_digit by auto
  then show ?thesis using False assms by (simp add: Atoi_def itoa_def parse_nat_digits)
qed

lemma Atoi_in64: "Atoi s = Some n \<Longrightarrow> in64 n"
  by (auto simp: Atoi_def Let_def bind_eq_Some_conv split: if_splits)

lemma nat_digits_inj: "nat_digits m = nat_digits n \<longleftrightarrow> m = n"
  using parse_nat_digits by (metis of_nat_eq_iff option.inject)

text \<open>A text that ends in a dash and a number determines the number.\<close>

lemma dash_suffix_unique:
  assumes "xs @ ''-'' @ nat_digits m = ys @ ''-'' @ nat_digits n"
  shows "xs = ys \<and> m = n"
proof -
  have split: "takeWhile is_digit (rev (xs @ ''-'' @ nat_digits m)) = rev (nat_digits m) \<and>
      dropWhile is_digit (rev (xs @ ''-'' @ nat_digits m)) = rev (xs @ ''-'')" for xs m
    using nat_digits_digit not_digit by (auto simp: takeWhile_append dropWhile_append)
  have "rev (nat_digits m) = rev (nat_digits n)" "rev (xs @ ''-'') = rev (ys @ ''-'')"
    using split [of xs m] split [of ys n] assms by metis+
  then show ?thesis by (simp add: nat_digits_inj)
qed

section \<open>Text\<close>

definition HasPrefix :: "string \<Rightarrow> string \<Rightarrow> bool" where
  "HasPrefix s p \<longleftrightarrow> take (length p) s = p"

definition is_space :: "char \<Rightarrow> bool" where
  "is_space c \<longleftrightarrow> byte c = 32 \<or> 9 \<le> byte c \<and> byte c \<le> 13"

definition TrimSpace :: "string \<Rightarrow> string" where
  "TrimSpace s = rev (dropWhile is_space (rev (dropWhile is_space s)))"

definition lower_char :: "char \<Rightarrow> char" where
  "lower_char c = (if 65 \<le> byte c \<and> byte c \<le> 90 then char_of (byte c + 32) else c)"

definition ToLower :: "string \<Rightarrow> string" where
  "ToLower s = map lower_char s"

definition EqualFold :: "string \<Rightarrow> string \<Rightarrow> bool" where
  "EqualFold s t \<longleftrightarrow> ToLower s = ToLower t"

text \<open>\<^verbatim>\<open>strings.Split\<close> with a separator of one byte.\<close>

fun Split :: "char \<Rightarrow> string \<Rightarrow> string list" where
  "Split sep [] = [[]]"
| "Split sep (c # cs) =
     (if c = sep then [] # Split sep cs
      else case Split sep cs of [] \<Rightarrow> [[c]] | w # ws \<Rightarrow> (c # w) # ws)"

lemma HasPrefix_append [simp]: "HasPrefix (p @ s) p"
  by (simp add: HasPrefix_def)

lemma HasPrefix_iff: "HasPrefix s p \<longleftrightarrow> (\<exists>r. s = p @ r)"
  by (metis HasPrefix_append HasPrefix_def append_take_drop_id)

lemma Split_nonempty [simp]: "Split sep s \<noteq> []"
  by (induction s) (auto split: list.splits)

lemma Split_no_sep: "w \<in> set (Split sep s) \<Longrightarrow> sep \<notin> set w"
proof (induction s arbitrary: w)
  case (Cons c s)
  show ?case
  proof (cases "c = sep")
    case True
    then show ?thesis using Cons by auto
  next
    case False
    obtain v vs where v: "Split sep s = v # vs" by (cases "Split sep s") auto
    then have "w = c # v \<or> w \<in> set vs" using Cons.prems False by simp
    then show ?thesis using Cons.IH [of v] Cons.IH [of w] v False by auto
  qed
qed simp

lemma dropWhile_not: "dropWhile P s \<noteq> [] \<Longrightarrow> \<not> P (hd (dropWhile P s))"
  by (rule hd_dropWhile)

lemma last_dropWhile: "dropWhile P s \<noteq> [] \<Longrightarrow> last (dropWhile P s) = last s"
  by (induction s) auto

lemma TrimSpace_ends:
  assumes "TrimSpace s \<noteq> []"
  shows "\<not> is_space (hd (TrimSpace s))" "\<not> is_space (last (TrimSpace s))"
proof -
  let ?t = "dropWhile is_space s"
  have r: "dropWhile is_space (rev ?t) \<noteq> []" using assms by (simp add: TrimSpace_def)
  then have t: "?t \<noteq> []" by (cases "?t") auto
  have "last (dropWhile is_space (rev ?t)) = hd ?t" using last_dropWhile [OF r] t by (simp add: last_rev)
  then have "hd (TrimSpace s) = hd ?t" using r by (simp add: TrimSpace_def hd_rev)
  then show "\<not> is_space (hd (TrimSpace s))" using dropWhile_not [OF t] by simp
  show "\<not> is_space (last (TrimSpace s))"
    using dropWhile_not [OF r] r by (simp add: TrimSpace_def last_rev)
qed

lemma TrimSpace_id:
  assumes "s \<noteq> [] \<Longrightarrow> \<not> is_space (hd s) \<and> \<not> is_space (last s)"
  shows "TrimSpace s = s"
proof (cases "s = []")
  case False
  then have "dropWhile is_space s = s" "dropWhile is_space (rev s) = rev s"
    using assms by (simp_all add: dropWhile_eq_self_iff hd_rev)
  then show ?thesis by (simp add: TrimSpace_def)
qed (simp add: TrimSpace_def)

lemma lower_char_idem [simp]: "lower_char (lower_char c) = lower_char c"
  by (auto simp: lower_char_def of_char_of)

lemma ToLower_idem [simp]: "ToLower (ToLower s) = ToLower s"
  by (simp add: ToLower_def)

end
