(* ===== verification/Metrics.thy ===== *)
theory Metrics
  imports Float64 Go_Strings
begin

text \<open>
  The package \<^verbatim>\<open>internal/metrics\<close>: which instruments the server updates, and with which labels.
  The instruments themselves belong to the Prometheus client library, so an update is recorded as
  an entry of a log: the name of the metric, its label values and what is done to it. The lemmas
  count the entries.
\<close>

datatype metric_op =
    Inc string "string list"
  | Dec string "string list"
  | Add string "string list" rat
  | Observe string "string list" rat

type_synonym metric_log = "metric_op list"

text \<open>
  The instruments that \<^verbatim>\<open>register\<close> creates, each with the number and the names of its labels.
  Help texts and bucket bounds only matter where the library prints the metrics.
\<close>

datatype instrument =
    CounterVec string "string list"
  | HistogramVec string "string list"
  | Gauge string

definition register :: "instrument list" where
  "register =
     [CounterVec ''scheduler_http_requests_total'' [''method'', ''path'', ''status''],
      HistogramVec ''scheduler_http_request_duration_seconds'' [''method'', ''path''],
      HistogramVec ''scheduler_http_request_bytes'' [''method'', ''path''],
      Gauge ''scheduler_ws_clients'',
      CounterVec ''scheduler_ws_errors_total'' [''direction''],
      CounterVec ''scheduler_sim_started_total'' [''algorithm''],
      CounterVec ''scheduler_sim_completed_total'' [''algorithm''],
      CounterVec ''scheduler_sim_steps_total'' [''algorithm''],
      HistogramVec ''scheduler_sim_duration_seconds'' [''algorithm'']]"

text \<open>\<^verbatim>\<open>time.Duration\<close> is a number of nanoseconds; \<^verbatim>\<open>Seconds\<close> adds whole seconds and the fraction.\<close>

definition Seconds :: "int \<Rightarrow> rat" where
  "Seconds d = fround (float64 (d sdiv 1000000000) + fdiv (float64 (d smod 1000000000)) 1000000000)"

definition Milliseconds :: "int \<Rightarrow> int" where
  "Milliseconds d = d sdiv 1000000"

definition IncClient :: metric_log where
  "IncClient = [Inc ''scheduler_ws_clients'' []]"

definition DecClient :: metric_log where
  "DecClient = [Dec ''scheduler_ws_clients'' []]"

definition IncWSError :: "string \<Rightarrow> metric_log" where
  "IncWSError direction = [Inc ''scheduler_ws_errors_total'' [direction]]"

definition SimStarted :: "string \<Rightarrow> metric_log" where
  "SimStarted algorithm = [Inc ''scheduler_sim_started_total'' [algorithm]]"

definition SimCompleted :: "string \<Rightarrow> int \<Rightarrow> metric_log" where
  "SimCompleted algorithm duration =
     [Inc ''scheduler_sim_completed_total'' [algorithm],
      Observe ''scheduler_sim_duration_seconds'' [algorithm] (Seconds duration)]"

definition SimSteps :: "string \<Rightarrow> int \<Rightarrow> metric_log" where
  "SimSteps algorithm steps = [Add ''scheduler_sim_steps_total'' [algorithm] (float64 steps)]"

definition statusClass :: "int \<Rightarrow> string" where
  "statusClass status =
     (if 500 \<le> status then ''5xx'' else if 400 \<le> status then ''4xx''
      else if 300 \<le> status then ''3xx'' else if 200 \<le> status then ''2xx'' else itoa status)"

definition ObserveHTTPRequest :: "string \<Rightarrow> string \<Rightarrow> int \<Rightarrow> int \<Rightarrow> int \<Rightarrow> metric_log" where
  "ObserveHTTPRequest method path status duration reqBytes =
     (let sc = statusClass status
      in [Inc ''scheduler_http_requests_total'' [method, path, sc],
          Observe ''scheduler_http_request_duration_seconds'' [method, path] (Seconds duration)] @
         (if 0 < reqBytes then [Observe ''scheduler_http_request_bytes'' [method, path] (float64 reqBytes)] else []))"

section \<open>Reading the log\<close>

text \<open>How often a counter was incremented, over all its labels.\<close>

definition increments :: "string \<Rightarrow> metric_log \<Rightarrow> nat" where
  "increments name ms = length (filter (\<lambda>m. case m of Inc n _ \<Rightarrow> n = name | _ \<Rightarrow> False) ms)"

definition decrements :: "string \<Rightarrow> metric_log \<Rightarrow> nat" where
  "decrements name ms = length (filter (\<lambda>m. case m of Dec n _ \<Rightarrow> n = name | _ \<Rightarrow> False) ms)"

lemma increments_simps [simp]:
  "increments name [] = 0" "increments name (ms @ ms') = increments name ms + increments name ms'"
  "increments name (Inc n ls # ms) = (if n = name then Suc (increments name ms) else increments name ms)"
  "increments name (Dec n ls # ms) = increments name ms" "increments name (Add n ls x # ms) = increments name ms"
  "increments name (Observe n ls x # ms) = increments name ms"
  by (simp_all add: increments_def)

lemma decrements_simps [simp]:
  "decrements name [] = 0" "decrements name (ms @ ms') = decrements name ms + decrements name ms'"
  "decrements name (Dec n ls # ms) = (if n = name then Suc (decrements name ms) else decrements name ms)"
  "decrements name (Inc n ls # ms) = decrements name ms" "decrements name (Add n ls x # ms) = decrements name ms"
  "decrements name (Observe n ls x # ms) = decrements name ms"
  by (simp_all add: decrements_def)

lemmas metric_defs = IncClient_def DecClient_def IncWSError_def SimStarted_def SimCompleted_def SimSteps_def

text \<open>A status is classed by its first digit: the label set of a valid status has four values at most.\<close>

lemma statusClass_valid:
  assumes "200 \<le> status" "status \<le> 599"
  shows "statusClass status = itoa (status div 100) @ ''xx''"
proof -
  have "status div 100 \<in> {2, 3, 4, 5}" using assms by auto
  moreover have "itoa 2 = ''2''" "itoa 3 = ''3''" "itoa 4 = ''4''" "itoa 5 = ''5''"
    by code_simp+
  ultimately show ?thesis using assms by (auto simp: statusClass_def)
qed

section \<open>Updates fit their instruments\<close>

text \<open>
  The library panics when an update has another number of label values than its instrument, when
  the kind of the instrument has no such operation, and when a counter is decreased.
\<close>

fun instrument_name :: "instrument \<Rightarrow> string" where
  "instrument_name (CounterVec n _) = n"
| "instrument_name (HistogramVec n _) = n"
| "instrument_name (Gauge n) = n"

fun accepts :: "instrument \<Rightarrow> metric_op \<Rightarrow> bool" where
  "accepts (CounterVec n ls) (Inc m vs) \<longleftrightarrow> m = n \<and> length vs = length ls"
| "accepts (CounterVec n ls) (Add m vs x) \<longleftrightarrow> m = n \<and> length vs = length ls \<and> 0 \<le> x"
| "accepts (HistogramVec n ls) (Observe m vs x) \<longleftrightarrow> m = n \<and> length vs = length ls"
| "accepts (Gauge n) (Inc m vs) \<longleftrightarrow> m = n \<and> vs = []"
| "accepts (Gauge n) (Dec m vs) \<longleftrightarrow> m = n \<and> vs = []"
| "accepts _ _ \<longleftrightarrow> False"

definition registered :: "metric_op \<Rightarrow> bool" where
  "registered m \<longleftrightarrow> list_ex (\<lambda>i. accepts i m) register"

text \<open>\<^verbatim>\<open>MustRegister\<close> panics for a name that is taken.\<close>

lemma register_distinct: "distinct (map instrument_name register)"
  by (simp add: register_def)

lemma updates_registered [simp]:
  "list_all registered IncClient" "list_all registered DecClient" "list_all registered (IncWSError direction)"
  "list_all registered (SimStarted algorithm)" "list_all registered (SimCompleted algorithm duration)"
  "list_all registered (ObserveHTTPRequest method path status duration reqBytes)"
  by (simp_all add: metric_defs ObserveHTTPRequest_def registered_def register_def Let_def)

lemma SimSteps_registered: "list_all registered (SimSteps algorithm steps) \<longleftrightarrow> 0 \<le> float64 steps"
  by (simp add: SimSteps_def registered_def register_def)

end
