(* ===== verification/Api.thy ===== *)
theory Api
  imports Engine_Report Engine_Metrics History_Store Metrics
begin

text \<open>
  The package \<^verbatim>\<open>internal/api\<close>: the REST handlers. A handler is a function of the request and the
  state of the \<^verbatim>\<open>Handler\<close>; its result is the response and the new state. The counting semaphore
  \<^verbatim>\<open>simSem\<close> is its capacity and the number of tokens in it; the package variable \<^verbatim>\<open>idCounter\<close> and
  the log of metric updates are fields of the state. The body of a request is the result of
  decoding it, an error text or the decoded struct; the decoding itself is in \<open>Api_Json\<close>. What the handler observes of its surroundings
  while a simulation runs is an argument (\<open>sim_env\<close>): the clock, the rendered start time, how many
  turns the run loop gets before the handler stops waiting, and why it stops then.
\<close>

section \<open>Data\<close>

record Algorithm =
  alg_ID :: string
  alg_Name :: string
  alg_Preemptive :: bool
  alg_NeedsQuantum :: bool
  alg_Description :: string

record simulateRequest =
  req_Algorithm :: string
  req_TimeQuantum :: int
  req_Speed :: int
  req_Processes :: "ProcessInput list"

record simulateResponse =
  resp_ID :: string
  resp_Algorithm :: string
  resp_DurationMs :: int
  resp_State :: SimulationUpdate

record Handler =
  h_store :: Store
  h_defaultQuantum :: int
  h_defaultSpeed :: int
  h_simSem :: "(int \<times> int) option"
  h_idCounter :: "64 word"
  h_metrics :: metric_log

datatype api_body =
    ErrorBody string
  | VersionBody string
  | AlgorithmsBody "Algorithm list"
  | SimulateBody simulateResponse
  | RecordsBody "SimRecord option list"
  | RecordBody SimRecord

record response =
  rs_status :: int
  rs_body :: api_body

definition writeError :: "int \<Rightarrow> string \<Rightarrow> response" where
  "writeError status msg = \<lparr>rs_status = status, rs_body = ErrorBody msg\<rparr>"

definition writeJSON :: "int \<Rightarrow> api_body \<Rightarrow> response" where
  "writeJSON status v = \<lparr>rs_status = status, rs_body = v\<rparr>"

definition NewHandler :: "Store \<Rightarrow> int \<Rightarrow> int \<Rightarrow> int \<Rightarrow> Handler" where
  "NewHandler s defaultQuantum defaultSpeed concurrencyLimit =
     (let sem = (if 0 < concurrencyLimit then Some (concurrencyLimit, 0) else None)
      in \<lparr>h_store = s, h_defaultQuantum = defaultQuantum, h_defaultSpeed = defaultSpeed,
          h_simSem = sem, h_idCounter = 0, h_metrics = []\<rparr>)"

section \<open>Algorithms\<close>

definition handleAlgorithms :: response where
  "handleAlgorithms =
     (let algorithms =
        [\<lparr>alg_ID = ''fcfs'', alg_Name = ''First-Come-First-Served'', alg_Preemptive = False, alg_NeedsQuantum = False,
          alg_Description = ''Non-preemptive; runs processes in arrival order.''\<rparr>,
         \<lparr>alg_ID = ''sjf'', alg_Name = ''Shortest Job First'', alg_Preemptive = False, alg_NeedsQuantum = False,
          alg_Description = ''Non-preemptive; selects the shortest burst time.''\<rparr>,
         \<lparr>alg_ID = ''srtf'', alg_Name = ''Shortest Remaining Time First'', alg_Preemptive = True, alg_NeedsQuantum = False,
          alg_Description = ''Preemptive SJF.''\<rparr>,
         \<lparr>alg_ID = ''rr'', alg_Name = ''Round-Robin'', alg_Preemptive = True, alg_NeedsQuantum = True,
          alg_Description = ''Time-sliced; each process runs for `timeQuantum`.''\<rparr>,
         \<lparr>alg_ID = ''priority'', alg_Name = ''Priority (Preemptive)'', alg_Preemptive = True, alg_NeedsQuantum = False,
          alg_Description = ''Preempts on higher-priority arrivals.''\<rparr>,
         \<lparr>alg_ID = ''priority_np'', alg_Name = ''Priority (Non-Preemptive)'', alg_Preemptive = False, alg_NeedsQuantum = False,
          alg_Description = ''Runs to completion once started.''\<rparr>,
         \<lparr>alg_ID = ''cfs'', alg_Name = ''Completely Fair Scheduler'', alg_Preemptive = True, alg_NeedsQuantum = False,
          alg_Description = ''Proportional-share via vruntime; Linux-like.''\<rparr>,
         \<lparr>alg_ID = ''mlfq'', alg_Name = ''Multi-Level Feedback Queue'', alg_Preemptive = True, alg_NeedsQuantum = False,
          alg_Description = ''Demotes processes on quantum expiry.''\<rparr>,
         \<lparr>alg_ID = ''lottery'', alg_Name = ''Lottery (Proportional Share)'', alg_Preemptive = True, alg_NeedsQuantum = True,
          alg_Description = ''Random proportional-share by ticket weight.''\<rparr>,
         \<lparr>alg_ID = ''mlq'', alg_Name = ''Multi-Level Queue (Fixed)'', alg_Preemptive = True, alg_NeedsQuantum = True,
          alg_Description = ''Fixed priority queues; strict priority between queues.''\<rparr>]
      in writeJSON 200 (AlgorithmsBody algorithms))"

definition handleVersion :: "string \<Rightarrow> response" where
  "handleVersion Version = writeJSON 200 (VersionBody Version)"

definition buildScheduler :: "string \<Rightarrow> int \<Rightarrow> string + scheduler \<times> string" where
  "buildScheduler algorithm timeQuantum =
     (let built = (\<lambda>s. Inr (s, sched_Name s))
      in if algorithm = ''fcfs'' then built (FCFS NewFCFSScheduler)
         else if algorithm = ''sjf'' then built (SJF NewSJFScheduler)
         else if algorithm = ''srtf'' then built (SRTF NewSRTFScheduler)
         else if algorithm = ''rr'' then built (RoundRobin (NewRoundRobinScheduler timeQuantum))
         else if algorithm = ''priority'' then built (PriorityS (NewPriorityScheduler True))
         else if algorithm = ''priority_np'' then built (PriorityS (NewPriorityScheduler False))
         else if algorithm = ''cfs'' then built (CFS NewCFSScheduler)
         else if algorithm = ''mlfq'' then built (MLFQ NewMLFQScheduler)
         else if algorithm = ''lottery'' then built (Lottery (NewLotteryScheduler timeQuantum None))
         else if algorithm = ''mlq'' then built (MLQ (NewMLQScheduler 3 timeQuantum))
         else Inl (''unknown algorithm: '' @ algorithm))"

section \<open>Processes\<close>

definition validateProcess :: "ProcessInput \<Rightarrow> string option" where
  "validateProcess p =
     (if in_PID p < 0 then Some ''pid must be >= 0''
      else if in_Arrival p < 0 then Some ''arrivalTime must be >= 0''
      else if in_Burst p \<le> 0 then Some ''burstTime must be >= 1''
      else None)"

text \<open>The process of one entry: \<^verbatim>\<open>NewProcess\<close>, then the I/O bursts of positive duration.\<close>

definition buildProcess :: "ProcessInput \<Rightarrow> process" where
  "buildProcess p =
     (let proc = NewProcess (in_PID p) (in_Name p) (in_Arrival p) (in_Burst p) (in_Priority p)
      in foldl (\<lambda>proc b.
           if 0 < in_Duration b
           then proc\<lparr>IOBursts := IOBursts proc @
                  [\<lparr>AfterCPUTime = in_AfterCPUTime b, Duration = in_Duration b, Completed = False\<rparr>]\<rparr>
           else proc) proc (in_IOBursts p))"

fun addRequestProcesses ::
    "((addr \<Rightarrow> int) \<Rightarrow> addr list \<Rightarrow> addr list) \<Rightarrow> ProcessInput list \<Rightarrow> Simulator \<Rightarrow> string + Simulator" where
  "addRequestProcesses sortSlice [] sim = Inr sim"
| "addRequestProcesses sortSlice (p # ps) sim =
     (case validateProcess p of
        Some vErr \<Rightarrow> Inl vErr
      | None \<Rightarrow> addRequestProcesses sortSlice ps (Simulator_AddProcess sortSlice (buildProcess p) sim))"

section \<open>Running a simulation\<close>

datatype wake = TimeoutWake | ClientClosedWake

record sim_env =
  e_start :: int
  e_stamp :: string
  e_duration :: int
  e_now :: int
  e_turns :: nat
  e_wake :: wake

definition generateID :: "string \<Rightarrow> string \<Rightarrow> Handler \<Rightarrow> string \<times> Handler" where
  "generateID algorithm stamp h =
     (let n = h_idCounter h + 1
      in (algorithm @ ''-'' @ stamp @ ''-'' @ nat_digits (unat n), h\<lparr>h_idCounter := n\<rparr>))"

text \<open>
  The handler after the semaphore: decode, defaults, scheduler, processes, run, and one of three
  endings. A run that panics gives \<^term>\<open>None\<close>.
\<close>

definition simulate ::
    "((addr \<Rightarrow> int) \<Rightarrow> addr list \<Rightarrow> addr list) \<Rightarrow> sim_env \<Rightarrow> string + simulateRequest \<Rightarrow> Handler \<Rightarrow>
     (response \<times> Handler) option" where
  "simulate sortSlice env bod h =
     (case bod of
        Inl err \<Rightarrow> Some (writeError 400 (''invalid request body: '' @ err), h)
      | Inr req \<Rightarrow>
          if req_Processes req = [] then Some (writeError 400 ''at least one process is required'', h)
          else
            let req = (if req_TimeQuantum req \<le> 0 then req\<lparr>req_TimeQuantum := h_defaultQuantum h\<rparr> else req);
                req = (if req_Speed req \<le> 0 then req\<lparr>req_Speed := h_defaultSpeed h\<rparr> else req)
            in case buildScheduler (req_Algorithm req) (req_TimeQuantum req) of
                 Inl err \<Rightarrow> Some (writeError 400 err, h)
               | Inr (sched, name) \<Rightarrow>
                   (case addRequestProcesses sortSlice (req_Processes req) (NewSimulator sched) of
                      Inl vErr \<Rightarrow> Some (writeError 400 vErr, h)
                    | Inr sim \<Rightarrow> do {
                        let h = h\<lparr>h_metrics := h_metrics h @ SimStarted name\<rparr>;
                        s \<leftarrow> runTicks (e_turns env) (snd (Start (SetSpeed 1 sim)));
                        if sim_state s = SimStateComplete
                        then let u = snapshotState (e_now env) s;
                                 h = h\<lparr>h_metrics := h_metrics h @ SimCompleted name (e_duration env)
                                                     @ SimSteps name (u_CurrentTime u)\<rparr>;
                                 (i, h) = generateID name (e_stamp env) h;
                                 rec = \<lparr>r_ID = i, r_Algorithm = name, r_CreatedAt = e_start env,
                                        r_Duration = e_duration env,
                                        r_Config = \<lparr>cfg_Algorithm = req_Algorithm req,
                                                    cfg_TimeQuantum = req_TimeQuantum req,
                                                    cfg_Speed = req_Speed req,
                                                    cfg_Processes = req_Processes req\<rparr>,
                                        r_FinalState = Some u\<rparr>;
                                 h = h\<lparr>h_store := Save rec (h_store h)\<rparr>
                             in Some (writeJSON 200 (SimulateBody
                                  \<lparr>resp_ID = i, resp_Algorithm = name,
                                   resp_DurationMs = Milliseconds (e_duration env), resp_State = u\<rparr>), h)
                        else Some (case e_wake env of
                               TimeoutWake \<Rightarrow>
                                 (writeError 504 ''simulation timed out (30s)'',
                                  h\<lparr>h_metrics := h_metrics h @ SimCompleted name (e_duration env)\<rparr>)
                             | ClientClosedWake \<Rightarrow> (writeError 499 ''client closed request'', h))
                      }))"

text \<open>The semaphore around it: no token free means 503; the deferred receive gives the token back.\<close>

definition acquire :: "Handler \<Rightarrow> Handler option" where
  "acquire h =
     (case h_simSem h of
        None \<Rightarrow> Some h
      | Some (cap, used) \<Rightarrow> if used < cap then Some (h\<lparr>h_simSem := Some (cap, used + 1)\<rparr>) else None)"

definition release :: "Handler \<Rightarrow> Handler" where
  "release h =
     (case h_simSem h of None \<Rightarrow> h | Some (cap, used) \<Rightarrow> h\<lparr>h_simSem := Some (cap, used - 1)\<rparr>)"

definition handleSimulate ::
    "((addr \<Rightarrow> int) \<Rightarrow> addr list \<Rightarrow> addr list) \<Rightarrow> sim_env \<Rightarrow> string + simulateRequest \<Rightarrow> Handler \<Rightarrow>
     (response \<times> Handler) option" where
  "handleSimulate sortSlice env bod h =
     (case acquire h of
        None \<Rightarrow> Some (writeError 503 ''server busy: too many concurrent simulations'', h)
      | Some h \<Rightarrow> map_option (\<lambda>(r, h). (r, release h)) (simulate sortSlice env bod h))"

section \<open>The history\<close>

text \<open>The query value is empty when the parameter is missing.\<close>

definition handleList :: "string \<Rightarrow> Handler \<Rightarrow> response" where
  "handleList v h =
     (let limit = 50;
          limit = (if v \<noteq> [] then case Atoi v of Some n \<Rightarrow> if 0 < n \<and> n \<le> 500 then n else limit | None \<Rightarrow> limit
                   else limit);
          allr = List (h_store h);
          limit = (if int (length allr) < limit then int (length allr) else limit)
      in writeJSON 200 (RecordsBody (take (nat limit) allr)))"

definition handleGet :: "string \<Rightarrow> Handler \<Rightarrow> response" where
  "handleGet i h =
     (if i = [] then writeError 400 ''missing id''
      else case Get i (h_store h) of
             None \<Rightarrow> writeError 404 ''simulation not found''
           | Some rec \<Rightarrow> writeJSON 200 (RecordBody rec))"

end
