(* ===== verification/Api_Props.thy ===== *)
theory Api_Props
  imports Api
begin

text \<open>
  Correctness of the REST API: which requests are accepted, that an accepted request runs to its
  end and leaves a record that can be retrieved, that a rejected one changes nothing, and that the
  semaphore and the record IDs keep their promises under any interleaving of requests.
\<close>

section \<open>Accepted requests\<close>

text \<open>Every integer of a decoded request is a Go \<^verbatim>\<open>int\<close>.\<close>

definition input64 :: "ProcessInput \<Rightarrow> bool" where
  "input64 p \<longleftrightarrow> in64 (in_PID p) \<and> in64 (in_Arrival p) \<and> in64 (in_Burst p) \<and> in64 (in_Priority p) \<and>
     list_all (\<lambda>b. in64 (in_AfterCPUTime b) \<and> in64 (in_Duration b)) (in_IOBursts p)"

definition known_algorithms :: "string list" where
  "known_algorithms = (case rs_body handleAlgorithms of AlgorithmsBody as \<Rightarrow> map alg_ID as | _ \<Rightarrow> [])"

lemma known_algorithms:
  "known_algorithms =
     [''fcfs'', ''sjf'', ''srtf'', ''rr'', ''priority'', ''priority_np'', ''cfs'', ''mlfq'', ''lottery'', ''mlq'']"
  by (simp add: known_algorithms_def handleAlgorithms_def writeJSON_def Let_def)

definition valid_request :: "string + simulateRequest \<Rightarrow> bool" where
  "valid_request bod \<longleftrightarrow>
     (case bod of Inl _ \<Rightarrow> False
      | Inr req \<Rightarrow> req_Processes req \<noteq> [] \<and> req_Algorithm req \<in> set known_algorithms \<and>
          list_all (\<lambda>p. 0 \<le> in_PID p \<and> 0 \<le> in_Arrival p \<and> 1 \<le> in_Burst p) (req_Processes req))"

lemma buildScheduler_ok:
  assumes "buildScheduler a q = Inr (s, n)"
  shows "sched_ok s" "n = sched_Name s"
  using assms constructors_ok by (auto simp: buildScheduler_def Let_def split: if_splits)

lemma buildScheduler_known: "(\<exists>s n. buildScheduler a q = Inr (s, n)) \<longleftrightarrow> a \<in> set known_algorithms"
  by (simp add: buildScheduler_def Let_def known_algorithms)

lemma validateProcess_None:
  "validateProcess p = None \<longleftrightarrow> 0 \<le> in_PID p \<and> 0 \<le> in_Arrival p \<and> 1 \<le> in_Burst p"
  by (auto simp: validateProcess_def)

lemma append_bursts:
  "foldl (\<lambda>proc b. if 0 < in_Duration b
       then proc\<lparr>IOBursts := IOBursts proc @ [\<lparr>AfterCPUTime = in_AfterCPUTime b, Duration = in_Duration b, Completed = False\<rparr>]\<rparr>
       else proc) proc bs =
   proc\<lparr>IOBursts := IOBursts proc @
     map (\<lambda>b. \<lparr>AfterCPUTime = in_AfterCPUTime b, Duration = in_Duration b, Completed = False\<rparr>) (filter (\<lambda>b. 0 < in_Duration b) bs)\<rparr>"
  by (induction bs arbitrary: proc) (simp_all add: cong: if_cong)

lemma buildProcess_eq:
  "buildProcess p = (NewProcess (in_PID p) (in_Name p) (in_Arrival p) (in_Burst p) (in_Priority p))
     \<lparr>IOBursts := map (\<lambda>b. \<lparr>AfterCPUTime = in_AfterCPUTime b, Duration = in_Duration b, Completed = False\<rparr>)
        (filter (\<lambda>b. 0 < in_Duration b) (in_IOBursts p))\<rparr>"
  by (simp add: buildProcess_def append_bursts) (simp add: NewProcess_def)

lemma buildProcess_fields [simp]:
  "PID (buildProcess p) = in_PID p" "ArrivalTime (buildProcess p) = in_Arrival p"
  "BurstTime (buildProcess p) = in_Burst p"
  by (simp_all add: buildProcess_eq) (simp_all add: NewProcess_def)

lemma fresh_buildProcess:
  assumes "validateProcess p = None" "input64 p"
  shows "fresh (buildProcess p)"
  using assms unfolding validateProcess_None input64_def fresh_def buildProcess_eq
  by (simp add: resetProcess_def in64_def list_all_iff) (simp add: NewProcess_def)

text \<open>The loop over the entries adds all processes, unless one of them is invalid.\<close>

lemma addRequestProcesses_eq:
  "addRequestProcesses sortSlice ps s =
     (case find (\<lambda>p. validateProcess p \<noteq> None) ps of
        Some p \<Rightarrow> Inl (the (validateProcess p))
      | None \<Rightarrow> Inr (Simulator_AddProcesses sortSlice (map buildProcess ps) s))"
  by (induction ps arbitrary: s) (auto split: option.splits)

lemma all_valid_find:
  "find (\<lambda>p. validateProcess p \<noteq> None) ps = None \<longleftrightarrow>
   list_all (\<lambda>p. 0 \<le> in_PID p \<and> 0 \<le> in_Arrival p \<and> 1 \<le> in_Burst p) ps"
  unfolding find_None_iff list_all_iff by (auto simp: validateProcess_None)

section \<open>The simulator of a request\<close>

text \<open>The request after the defaults are filled in.\<close>

definition with_defaults :: "Handler \<Rightarrow> simulateRequest \<Rightarrow> simulateRequest" where
  "with_defaults h req =
     req\<lparr>req_TimeQuantum := (if req_TimeQuantum req \<le> 0 then h_defaultQuantum h else req_TimeQuantum req),
         req_Speed := (if req_Speed req \<le> 0 then h_defaultSpeed h else req_Speed req)\<rparr>"

definition request_sim ::
    "((addr \<Rightarrow> int) \<Rightarrow> addr list \<Rightarrow> addr list) \<Rightarrow> scheduler \<Rightarrow> simulateRequest \<Rightarrow> Simulator" where
  "request_sim sortSlice sched req =
     snd (Start (SetSpeed 1 (Simulator_AddProcesses sortSlice (map buildProcess (req_Processes req)) (NewSimulator sched))))"

lemma with_defaults_fields [simp]:
  "req_Processes (with_defaults h req) = req_Processes req" "req_Algorithm (with_defaults h req) = req_Algorithm req"
  by (simp_all add: with_defaults_def)

lemma request_sim_eq:
  "request_sim sortSlice sched req =
     Simulator_AddProcesses sortSlice (map buildProcess (req_Processes req)) (NewSimulator sched)
       \<lparr>sim_state := SimStateRunning, speed := 1\<rparr>"
  by (simp add: request_sim_def Start_def SetSpeed_def NewSimulator_def)

text \<open>The handler on a valid request: run, then save and answer, or give up.\<close>

definition new_record :: "sim_env \<Rightarrow> string \<Rightarrow> simulateRequest \<Rightarrow> Simulator \<Rightarrow> Handler \<Rightarrow> SimRecord" where
  "new_record env name req s h =
     \<lparr>r_ID = fst (generateID name (e_stamp env) h), r_Algorithm = name, r_CreatedAt = e_start env,
      r_Duration = e_duration env,
      r_Config = \<lparr>cfg_Algorithm = req_Algorithm req, cfg_TimeQuantum = req_TimeQuantum req,
                  cfg_Speed = req_Speed req, cfg_Processes = req_Processes req\<rparr>,
      r_FinalState = Some (snapshotState (e_now env) s)\<rparr>"

definition finish :: "sim_env \<Rightarrow> string \<Rightarrow> simulateRequest \<Rightarrow> Simulator \<Rightarrow> Handler \<Rightarrow> response \<times> Handler" where
  "finish env name req s h =
     (let rec = new_record env name req s h;
          h = h\<lparr>h_metrics := h_metrics h @ SimStarted name\<rparr>
      in if sim_state s = SimStateComplete
         then (writeJSON 200 (SimulateBody \<lparr>resp_ID = r_ID rec, resp_Algorithm = name,
                 resp_DurationMs = Milliseconds (e_duration env), resp_State = snapshotState (e_now env) s\<rparr>),
               h\<lparr>h_metrics := h_metrics h @ SimCompleted name (e_duration env) @ SimSteps name (currentTime s),
                 h_idCounter := h_idCounter h + 1,
                 h_store := Save rec (h_store h)\<rparr>)
         else case e_wake env of
                TimeoutWake \<Rightarrow> (writeError 504 ''simulation timed out (30s)'',
                  h\<lparr>h_metrics := h_metrics h @ SimCompleted name (e_duration env)\<rparr>)
              | ClientClosedWake \<Rightarrow> (writeError 499 ''client closed request'', h))"

lemma simulate_valid:
  assumes "valid_request (Inr req)"
  obtains sched name where "buildScheduler (req_Algorithm req) (req_TimeQuantum (with_defaults h req)) = Inr (sched, name)"
    "\<And>env. simulate sortSlice env (Inr req) h =
       map_option (\<lambda>s. finish env name (with_defaults h req) s h) (runTicks (e_turns env) (request_sim sortSlice sched req))"
proof -
  let ?req = "with_defaults h req"
  from assms obtain sched name where b: "buildScheduler (req_Algorithm req) (req_TimeQuantum ?req) = Inr (sched, name)"
    using buildScheduler_known [of "req_Algorithm req" "req_TimeQuantum ?req"] by (auto simp: valid_request_def)
  have p: "req_Processes req \<noteq> []"
    "addRequestProcesses sortSlice (req_Processes req) (NewSimulator sched) =
     Inr (Simulator_AddProcesses sortSlice (map buildProcess (req_Processes req)) (NewSimulator sched))"
    using assms all_valid_find [of "req_Processes req"] by (auto simp: valid_request_def addRequestProcesses_eq)
  have req: "(let r = (if req_TimeQuantum req \<le> 0 then req\<lparr>req_TimeQuantum := h_defaultQuantum h\<rparr> else req)
      in if req_Speed r \<le> 0 then r\<lparr>req_Speed := h_defaultSpeed h\<rparr> else r) = ?req"
    by (simp add: with_defaults_def)
  have "simulate sortSlice env (Inr req) h =
       map_option (\<lambda>s. finish env name ?req s h) (runTicks (e_turns env) (request_sim sortSlice sched req))" for env
    using b p req unfolding simulate_def request_sim_def [symmetric]
    by (cases "runTicks (e_turns env) (request_sim sortSlice sched req)"; cases "e_wake env")
      (simp_all add: Let_def finish_def new_record_def generateID_def snapshotState_def request_sim_def)
  with b that show thesis by blast
qed

lemma simulate_invalid:
  assumes "\<not> valid_request bod"
  shows "\<exists>msg. simulate sortSlice env bod h = Some (writeError 400 msg, h)"
proof (cases bod)
  case (Inl err)
  then show ?thesis by (auto simp: simulate_def)
next
  case (Inr req)
  let ?q = "req_TimeQuantum (with_defaults h req)"
  show ?thesis
  proof (cases "buildScheduler (req_Algorithm req) ?q")
    case (Inl err)
    then show ?thesis using Inr by (auto simp: simulate_def Let_def with_defaults_def)
  next
    case b: (Inr b)
    obtain sched name where [simp]: "b = (sched, name)" by (cases b)
    have "req_Processes req = [] \<or> find (\<lambda>p. validateProcess p \<noteq> None) (req_Processes req) \<noteq> None"
      using assms b Inr buildScheduler_known [of "req_Algorithm req" ?q] all_valid_find [of "req_Processes req"]
      by (auto simp: valid_request_def)
    then show ?thesis using b Inr
      by (auto simp: simulate_def Let_def with_defaults_def addRequestProcesses_eq)
  qed
qed

section \<open>Requests in any order\<close>

text \<open>
  Requests interleave: one is admitted when a token is free, and later finishes, while others are
  admitted and finish in between. What a request reads before it finishes (the defaults) never
  changes, so all its effects can be placed at its end. The number counts the requests in flight.
  IDs are numbered by a 64-bit counter, which is not exhausted in practice.
\<close>

inductive api_run :: "((addr \<Rightarrow> int) \<Rightarrow> addr list \<Rightarrow> addr list) \<Rightarrow> Handler \<Rightarrow> nat \<Rightarrow> bool" for sortSlice where
  start: "api_run sortSlice (NewHandler (Store_New cap) quantum spd limit) 0"
| admit: "api_run sortSlice h k \<Longrightarrow> acquire h = Some h' \<Longrightarrow> api_run sortSlice h' (Suc k)"
| finish: "api_run sortSlice h (Suc k) \<Longrightarrow> h_idCounter h \<noteq> - 1 \<Longrightarrow> simulate sortSlice env bod h = Some (r, h') \<Longrightarrow>
     api_run sortSlice (release h') k"

text \<open>What one request does to the handler.\<close>

lemma simulate_effect:
  assumes "simulate sortSlice env bod h = Some (r, h')"
  shows "h_simSem h' = h_simSem h" "rs_status r \<in> {200, 400, 499, 504}"
    "rs_status r \<noteq> 200 \<Longrightarrow> h_store h' = h_store h \<and> h_idCounter h' = h_idCounter h"
    "rs_status r = 200 \<Longrightarrow> \<exists>x rec. r_ID rec = x @ ''-'' @ nat_digits (unat (h_idCounter h + 1)) \<and>
       h_store h' = Save rec (h_store h) \<and> h_idCounter h' = h_idCounter h + 1"
proof -
  have *: "h_simSem h' = h_simSem h \<and> rs_status r \<in> {200, 400, 499, 504} \<and>
    (rs_status r \<noteq> 200 \<longrightarrow> h_store h' = h_store h \<and> h_idCounter h' = h_idCounter h) \<and>
    (rs_status r = 200 \<longrightarrow> (\<exists>x rec. r_ID rec = x @ ''-'' @ nat_digits (unat (h_idCounter h + 1)) \<and>
       h_store h' = Save rec (h_store h) \<and> h_idCounter h' = h_idCounter h + 1))"
  proof (cases "valid_request bod")
    case False
    then show ?thesis using simulate_invalid [OF False, of sortSlice env h] assms by (auto simp: writeError_def)
  next
    case True
    then obtain req where [simp]: "bod = Inr req" by (cases bod) (auto simp: valid_request_def)
    obtain sched name where "simulate sortSlice env bod h =
        map_option (\<lambda>s. finish env name (with_defaults h req) s h) (runTicks (e_turns env) (request_sim sortSlice sched req))"
      using simulate_valid [of req h] True by (metis \<open>bod = Inr req\<close>)
    then obtain s where "finish env name (with_defaults h req) s h = (r, h')" using assms by auto
    then have s: "(r, h') = finish env name (with_defaults h req) s h" by simp
    show ?thesis
    proof (cases "sim_state s = SimStateComplete")
      case True
      let ?rec = "new_record env name (with_defaults h req) s h"
      have "r_ID ?rec = (name @ ''-'' @ e_stamp env) @ ''-'' @ nat_digits (unat (h_idCounter h + 1))"
        by (simp add: new_record_def generateID_def Let_def)
      moreover have "h_store h' = Save ?rec (h_store h)" using s True by (simp add: finish_def Let_def)
      ultimately have "\<exists>x rec. r_ID rec = x @ ''-'' @ nat_digits (unat (h_idCounter h + 1)) \<and> h_store h' = Save rec (h_store h)"
        by blast
      moreover have "rs_status r = 200" "h_idCounter h' = h_idCounter h + 1" "h_simSem h' = h_simSem h"
        using s True by (simp_all add: finish_def Let_def writeJSON_def)
      ultimately show ?thesis by simp
    next
      case False
      then show ?thesis using s by (cases "e_wake env") (simp_all add: finish_def Let_def writeError_def)
    qed
  qed
  then show "h_simSem h' = h_simSem h" "rs_status r \<in> {200, 400, 499, 504}"
    "rs_status r \<noteq> 200 \<Longrightarrow> h_store h' = h_store h \<and> h_idCounter h' = h_idCounter h"
    "rs_status r = 200 \<Longrightarrow> \<exists>x rec. r_ID rec = x @ ''-'' @ nat_digits (unat (h_idCounter h + 1)) \<and>
       h_store h' = Save rec (h_store h) \<and> h_idCounter h' = h_idCounter h + 1"
    by blast+
qed

definition numbered :: "nat \<Rightarrow> SimRecord \<Rightarrow> bool" where
  "numbered n r \<longleftrightarrow> (\<exists>x m. r_ID r = x @ ''-'' @ nat_digits m \<and> m \<le> n)"

definition api_inv :: "Handler \<Rightarrow> nat \<Rightarrow> bool" where
  "api_inv h k \<longleftrightarrow>
     store_ok (h_store h) \<and> distinct (map r_ID (records (h_store h))) \<and>
     (\<forall>r\<in>set (records (h_store h)). numbered (unat (h_idCounter h)) r) \<and>
     (case h_simSem h of None \<Rightarrow> True | Some (cap, used) \<Rightarrow> used = int k \<and> used \<le> cap)"

lemma Save_records: "records (Save r s) = (if capacity s \<le> int (length (records s)) then tl (records s) else records s) @ [r]"
  by (simp add: Save_def Let_def)

lemma unat_Suc: "n \<noteq> - 1 \<Longrightarrow> unat (n + 1 :: 64 word) = Suc (unat n)"
  using unatSuc [of n] by (metis add.commute add_eq_0_iff)

lemma numbered_mono: "numbered m r \<Longrightarrow> m \<le> n \<Longrightarrow> numbered n r"
  unfolding numbered_def by (blast intro: le_trans)

text \<open>The new record is numbered above all others, so its ID is new.\<close>

lemma fresh_number:
  assumes "\<forall>r\<in>set rs. numbered (unat c) r" "c \<noteq> - 1" "r_ID rec = x @ ''-'' @ nat_digits (unat (c + 1 :: 64 word))"
  shows "r_ID rec \<notin> r_ID ` set rs"
proof
  assume "r_ID rec \<in> r_ID ` set rs"
  then obtain r where r: "r \<in> set rs" "r_ID r = r_ID rec" by force
  then obtain y m where y: "x @ ''-'' @ nat_digits (unat (c + 1)) = y @ ''-'' @ nat_digits m" "m \<le> unat c"
    using assms(1,3) unfolding numbered_def by metis
  from dash_suffix_unique [OF y(1)] have "unat (c + 1) = m" by (rule conjunct2)
  then show False using y(2) unat_Suc [OF assms(2)] by simp
qed

lemma api_run_inv: "api_run sortSlice h k \<Longrightarrow> api_inv h k"
proof (induction rule: api_run.induct)
  case (start cap quantum spd limit)
  then show ?case by (simp add: api_inv_def NewHandler_def Let_def Store_New_def store_ok_def)
next
  case (admit h k h')
  then show ?case by (auto simp: api_inv_def acquire_def split: option.splits prod.splits if_splits)
next
  case (finish h k env bod r h')
  note eff = simulate_effect [OF finish.hyps(3)]
  have rel: "h_store (release h') = h_store h'" "h_idCounter (release h') = h_idCounter h'"
    by (auto simp: release_def split: option.splits)
  have sem: "case h_simSem (release h') of None \<Rightarrow> True | Some (cap, used) \<Rightarrow> used = int k \<and> used \<le> cap"
    using finish.IH eff(1) by (auto simp: api_inv_def release_def split: option.splits)
  show ?case
  proof (cases "rs_status r = 200")
    case False
    then show ?thesis using finish.IH eff(3) sem rel by (simp add: api_inv_def)
  next
    case True
    from eff(4) [OF True] obtain x rec where rec: "r_ID rec = x @ ''-'' @ nat_digits (unat (h_idCounter h + 1))"
      "h_store h' = Save rec (h_store h)" "h_idCounter h' = h_idCounter h + 1" by blast
    have "r_ID rec \<notin> r_ID ` set (records (h_store h))"
      using finish.IH by (intro fresh_number [OF _ finish.hyps(2) rec(1)]) (simp add: api_inv_def)
    then have "distinct (map r_ID (records (h_store h')))"
      using finish.IH unfolding rec(2) Save_records api_inv_def
      by (cases "records (h_store h)") auto
    moreover have "\<forall>r\<in>set (records (h_store h')). numbered (unat (h_idCounter h')) r"
    proof
      fix r assume "r \<in> set (records (h_store h'))"
      then have "r = rec \<or> r \<in> set (records (h_store h))"
        unfolding rec(2) Save_records by (cases "records (h_store h)") (auto split: if_splits)
      then show "numbered (unat (h_idCounter h')) r"
      proof
        assume "r = rec"
        then show ?thesis unfolding numbered_def rec(3) using rec(1) by blast
      next
        assume "r \<in> set (records (h_store h))"
        then have "numbered (unat (h_idCounter h)) r" using finish.IH by (simp add: api_inv_def)
        then show ?thesis by (rule numbered_mono) (simp add: rec(3) unat_Suc [OF finish.hyps(2)])
      qed
    qed
    moreover have "store_ok (h_store h')" using finish.IH history.save_ok by (simp add: rec(2) api_inv_def)
    ultimately show ?thesis using sem rel by (simp add: api_inv_def)
  qed
qed

section \<open>Properties\<close>

lemma acquire_frame:
  assumes "acquire h = Some h'"
  shows "h_store h' = h_store h" "h_idCounter h' = h_idCounter h" "h_metrics h' = h_metrics h"
    "h_simSem x = h_simSem h' \<Longrightarrow> h_simSem (release x) = h_simSem h" "release h' = h"
  using assms by (auto simp: acquire_def release_def split: option.splits prod.splits if_splits)

lemma release_frame [simp]: "h_store (release h) = h_store h" "h_idCounter (release h) = h_idCounter h"
  by (auto simp: release_def split: option.splits)

lemma Get_distinct:
  assumes "distinct (map r_ID (records s))" "r \<in> set (records s)"
  shows "Get (r_ID r) s = Some r"
proof -
  have "find (\<lambda>x. r_ID x = r_ID r) rs = Some r" if "distinct (map r_ID rs)" "r \<in> set rs" for rs
    using that by (induction rs) (auto simp: image_iff)
  then show ?thesis using assms by (simp add: Get_def Get_loop_find)
qed

lemma request_runs:
  assumes "slice_sort sortSlice" "sched_ok sched" "list_all input64 (req_Processes req)"
    and "list_all (\<lambda>p. 0 \<le> in_PID p \<and> 0 \<le> in_Arrival p \<and> 1 \<le> in_Burst p) (req_Processes req)"
  shows "\<forall>p\<in>set (req_Processes req). fresh (buildProcess p)"
    "reachable sortSlice (request_sim sortSlice sched req)"
proof -
  show f: "\<forall>p\<in>set (req_Processes req). fresh (buildProcess p)"
    using assms(3,4) by (auto simp: list_all_iff validateProcess_None intro!: fresh_buildProcess)
  have "reachable sortSlice (Simulator_AddProcesses sortSlice (map buildProcess (req_Processes req)) (NewSimulator sched))"
    using AddProcesses_workload [OF assms(1) reachable.new [OF assms(2)], of "map buildProcess (req_Processes req)"] f by simp
  then show "reachable sortSlice (request_sim sortSlice sched req)"
    unfolding request_sim_def by (intro reachable.start reachable.speed)
qed

lemma complete_workload:
  assumes "isComplete s" "sim_inv s"
  shows "mset (map resetProcess (u_CompletedProcesses (snapshotState now s))) = workload s"
proof -
  have "filter (\<lambda>p. IsComplete (heap s p)) (processes s) = processes s"
    using assms(1) by (simp add: isComplete_def list_all_iff)
  then show ?thesis by (simp add: snapshotState_def workload_def comp_def)
qed

lemma total_demand:
  assumes "ps \<noteq> []" "\<forall>p\<in>set ps. 1 \<le> in_Burst p"
  shows "1 \<le> (\<Sum>p\<leftarrow>ps. demand (buildProcess p))"
proof -
  have d: "1 \<le> demand (buildProcess p)" if "p \<in> set ps" for p
    using assms(2) that sum_list_nonneg [of "map (\<lambda>b. max 0 (Duration b)) (IOBursts (buildProcess p))"]
    by (fastforce simp: demand_def)
  obtain p qs where p: "ps = p # qs" using assms(1) by (cases ps) auto
  have "0 \<le> (\<Sum>p\<leftarrow>qs. demand (buildProcess p))"
    using d p by (intro sum_list_nonneg) fastforce
  then show ?thesis using d [of p] p by simp
qed

text \<open>A valid request runs to its end; the ID of its record is the name of the scheduler, the time and a number.\<close>

lemma simulate_completes:
  assumes "slice_sort sortSlice" "api_run sortSlice h k" "h_idCounter h \<noteq> - 1" "acquire h \<noteq> None"
    and "valid_request (Inr req)" "\<forall>p\<in>set (req_Processes req). input64 p \<and> in_Arrival p \<le> lastArrival"
    and "lastArrival + (\<Sum>p\<leftarrow>req_Processes req. demand (buildProcess p)) \<le> int (e_turns env)"
    and "int (e_turns env) \<le> MaxInt64"
  shows "\<exists>r rec h'. (\<exists>q sched name m. buildScheduler (req_Algorithm req) q = Inr (sched, name) \<and>
       resp_ID r = name @ ''-'' @ e_stamp env @ ''-'' @ nat_digits m) \<and>
    handleSimulate sortSlice env (Inr req) h = Some (\<lparr>rs_status = 200, rs_body = SimulateBody r\<rparr>, h') \<and>
    handleGet (resp_ID r) h' = \<lparr>rs_status = 200, rs_body = RecordBody rec\<rparr> \<and>
    r_FinalState rec = Some (resp_State r) \<and> cfg_Processes (r_Config rec) = req_Processes req \<and>
    u_State (resp_State r) = SimStateComplete \<and>
    mset (map resetProcess (u_CompletedProcesses (resp_State r))) = mset (map buildProcess (req_Processes req)) \<and>
    (\<forall>pid. pid \<noteq> -1 \<longrightarrow> gantt_time pid (u_GanttChart (resp_State r)) =
       (\<Sum>p\<leftarrow>req_Processes req. if in_PID p = pid then in_Burst p else 0))"
proof -
  obtain h1 where h1: "acquire h = Some h1" using assms(4) by blast
  note fr = acquire_frame [OF h1]
  have run1: "api_run sortSlice h1 (Suc k)" by (rule api_run.admit [OF assms(2) h1])
  let ?ps = "map buildProcess (req_Processes req)" and ?req = "with_defaults h1 req"
  obtain sched name where b: "buildScheduler (req_Algorithm req) (req_TimeQuantum ?req) = Inr (sched, name)"
    and sim: "\<And>env. simulate sortSlice env (Inr req) h1 =
      map_option (\<lambda>s. finish env name ?req s h1) (runTicks (e_turns env) (request_sim sortSlice sched req))"
    using simulate_valid [OF assms(5), of h1] by metis
  have ok: "sched_ok sched" by (rule buildScheduler_ok [OF b])
  have v: "req_Processes req \<noteq> []" "list_all (\<lambda>p. 0 \<le> in_PID p \<and> 0 \<le> in_Arrival p \<and> 1 \<le> in_Burst p) (req_Processes req)"
    using assms(5) by (auto simp: valid_request_def)
  have i64: "list_all input64 (req_Processes req)" using assms(6) by (simp add: list_all_iff)
  note rr = request_runs [OF assms(1) ok i64 v(2)]
  have la: "0 \<le> lastArrival" using v assms(6) by (cases "req_Processes req") auto
  have n1: "1 \<le> e_turns env" using total_demand [OF v(1)] v(2) assms(7) la by (force simp: list_all_iff)
  have ps: "\<forall>p\<in>set ?ps. fresh p \<and> ArrivalTime p \<le> lastArrival" using rr(1) assms(6) by auto
  have dm: "lastArrival + (\<Sum>p\<leftarrow>?ps. demand p) \<le> int (e_turns env)" using assms(7) by (simp add: comp_def)
  obtain s where s: "runTicks (e_turns env) (request_sim sortSlice sched req) = Some s" "sim_state s = SimStateComplete"
    "isComplete s" "reachable sortSlice s" "workload s = mset ?ps"
    "\<forall>pid. pid \<noteq> -1 \<longrightarrow> gantt_time pid (ganttChart s) = (\<Sum>p\<leftarrow>?ps. if PID p = pid then BurstTime p else 0)"
    using run_report [OF assms(1) ok ps la n1 dm assms(8) request_sim_eq rr(2)] by blast
  obtain h2 r where h2: "simulate sortSlice env (Inr req) h1 = Some (\<lparr>rs_status = 200, rs_body = SimulateBody r\<rparr>, h2)"
      "h_store h2 = Save (new_record env name ?req s h1) (h_store h1)"
      "resp_ID r = r_ID (new_record env name ?req s h1)" "resp_State r = snapshotState (e_now env) s"
    using s(1,2) sim by (simp add: finish_def Let_def writeJSON_def)
  have inv: "sim_inv s" using structural.reachable_inv [OF assms(1) s(4)] by (simp add: base_inv_def)
  have "api_run sortSlice (release h2) k" using assms(3) fr(2) by (intro api_run.finish [OF run1 _ h2(1)]) simp
  then have "distinct (map r_ID (records (h_store h2)))" using api_run_inv [of sortSlice "release h2" k] by (simp add: api_inv_def)
  moreover have "new_record env name ?req s h1 \<in> set (records (h_store h2))" by (simp add: h2(2) Save_records)
  ultimately have "Get (resp_ID r) (h_store h2) = Some (new_record env name ?req s h1)"
    unfolding h2(3) by (rule Get_distinct)
  moreover have "resp_ID r \<noteq> []" by (simp add: h2(3) new_record_def generateID_def Let_def)
  ultimately have get: "handleGet (resp_ID r) (release h2) =
      \<lparr>rs_status = 200, rs_body = RecordBody (new_record env name ?req s h1)\<rparr>"
    by (simp add: handleGet_def writeJSON_def)
  have hs: "handleSimulate sortSlice env (Inr req) h = Some (\<lparr>rs_status = 200, rs_body = SimulateBody r\<rparr>, release h2)"
    using h2(1) h1 by (simp add: handleSimulate_def)
  have gt: "\<forall>pid. pid \<noteq> -1 \<longrightarrow> gantt_time pid (u_GanttChart (resp_State r)) =
      (\<Sum>p\<leftarrow>req_Processes req. if in_PID p = pid then in_Burst p else 0)"
    using s(6) by (simp add: h2(4) snapshotState_def comp_def cong: if_cong)
  have "resp_ID r = name @ ''-'' @ e_stamp env @ ''-'' @ nat_digits (unat (h_idCounter h1 + 1))"
    by (simp add: h2(3) new_record_def generateID_def Let_def)
  with b have id: "\<exists>q sched name m. buildScheduler (req_Algorithm req) q = Inr (sched, name) \<and>
      resp_ID r = name @ ''-'' @ e_stamp env @ ''-'' @ nat_digits m"
    by blast
  show ?thesis
    by (intro exI [of _ r] exI [of _ "new_record env name ?req s h1"] exI [of _ "release h2"] conjI id hs get gt)
      (use s(2,5) complete_workload [OF s(3) inv] in \<open>simp_all add: h2(4) new_record_def snapshotState_def\<close>)
qed

text \<open>Record IDs can be a segment of a path.\<close>

lemma itoa_no_slash: "CHR ''/'' \<notin> set (itoa n)" "CHR ''/'' \<notin> set (nat_digits m)"
proof -
  show "CHR ''/'' \<notin> set (nat_digits m)" for m using nat_digits_digit [of "CHR ''/''"] by (auto simp: is_digit_def)
  then show "CHR ''/'' \<notin> set (itoa n)" by (simp add: itoa_def)
qed

lemma buildScheduler_name: "buildScheduler a q = Inr (sched, name) \<Longrightarrow> CHR ''/'' \<notin> set name"
  by (auto simp: buildScheduler_def NewFCFSScheduler_def NewSJFScheduler_def NewSRTFScheduler_def NewRoundRobinScheduler_def
      NewPriorityScheduler_def newPriorityScheduler_def NewCFSScheduler_def NewMLFQScheduler_def NewLotteryScheduler_def
      NewMLQScheduler_def Let_def itoa_no_slash split: if_splits)

text \<open>A request used to exercise the properties.\<close>

definition demo_request :: simulateRequest where
  "demo_request =
     \<lparr>req_Algorithm = ''rr'', req_TimeQuantum = 2, req_Speed = 0,
      req_Processes = [\<lparr>in_PID = 1, in_Name = ''a'', in_Arrival = 0, in_Burst = 3, in_Priority = 0,
                        in_IOBursts = [\<lparr>in_AfterCPUTime = 1, in_Duration = 2\<rparr>]\<rparr>]\<rparr>"

definition demo_env :: "nat \<Rightarrow> sim_env" where
  "demo_env n = \<lparr>e_start = 0, e_stamp = ''t'', e_duration = 0, e_now = 0, e_turns = n, e_wake = TimeoutWake\<rparr>"

lemma demo_request_valid: "valid_request (Inr demo_request)" "list_all input64 (req_Processes demo_request)"
  by (simp_all add: valid_request_def demo_request_def known_algorithms input64_def in64_def)

lemma request_sim_total:
  assumes "slice_sort sortSlice" "sched_ok sched" "int n \<le> MaxInt64" "list_all input64 (req_Processes req)"
    and "list_all (\<lambda>p. 0 \<le> in_PID p \<and> 0 \<le> in_Arrival p \<and> 1 \<le> in_Burst p) (req_Processes req)"
  shows "\<exists>s. runTicks n (request_sim sortSlice sched req) = Some s \<and> 0 \<le> currentTime s"
proof -
  have b: "base_inv (request_sim sortSlice sched req)"
    using structural.reachable_inv [OF assms(1) request_runs(2) [OF assms(1,2,4,5)]] by blast
  have "currentTime (request_sim sortSlice sched req) + int n \<le> MaxInt64"
    using assms(3) by (simp add: request_sim_eq NewSimulator_def)
  from structural.runTicks_inv [OF b b this] show ?thesis by (auto simp: base_inv_def sim_inv_def)
qed

lemma finish_registered:
  assumes "list_all registered (h_metrics h)" "0 \<le> currentTime s" "finish env name req s h = (r, h')"
  shows "list_all registered (h_metrics h')"
proof -
  have "list_all registered (SimSteps name (currentTime s))"
    using float64_mono [OF assms(2)] float64_exact [of 0] by (simp add: SimSteps_registered)
  then have "list_all registered (h_metrics (snd (finish env name req s h)))"
    using assms(1) by (cases "e_wake env") (simp_all add: finish_def Let_def)
  then show ?thesis by (simp add: assms(3))
qed

text \<open>What the handler makes of a decoded body.\<close>

lemma handleSimulate_outcomes:
  assumes "slice_sort sortSlice" "int (e_turns env) \<le> MaxInt64"
    and "case bod of Inl _ \<Rightarrow> True | Inr req \<Rightarrow> list_all input64 (req_Processes req)"
  shows "\<exists>r h'. handleSimulate sortSlice env bod h = Some (r, h') \<and> rs_status r \<in> {200, 400, 499, 503, 504} \<and>
    (rs_status r = 503 \<longleftrightarrow> acquire h = None) \<and>
    (rs_status r = 400 \<longleftrightarrow> acquire h \<noteq> None \<and> \<not> valid_request bod) \<and>
    h_simSem h' = h_simSem h \<and> (rs_status r \<noteq> 200 \<longrightarrow> h_store h' = h_store h) \<and>
    (rs_status r \<in> {400, 503} \<longrightarrow> h' = h) \<and>
    (list_all registered (h_metrics h) \<longrightarrow> list_all registered (h_metrics h'))"
proof (cases "acquire h")
  case None
  then show ?thesis by (simp add: handleSimulate_def writeError_def)
next
  case (Some h1)
  note fr = acquire_frame [OF Some]
  show ?thesis
  proof (cases "valid_request bod")
    case False
    then obtain msg where "simulate sortSlice env bod h1 = Some (writeError 400 msg, h1)"
      using simulate_invalid [OF False] by blast
    then show ?thesis using Some False fr(5) by (simp add: handleSimulate_def writeError_def)
  next
    case True
    then obtain req where [simp]: "bod = Inr req" by (cases bod) (auto simp: valid_request_def)
    have v: "list_all (\<lambda>p. 0 \<le> in_PID p \<and> 0 \<le> in_Arrival p \<and> 1 \<le> in_Burst p) (req_Processes req)"
      using True by (simp add: valid_request_def)
    obtain sched name where b: "buildScheduler (req_Algorithm req) (req_TimeQuantum (with_defaults h1 req)) = Inr (sched, name)"
      and sim: "\<And>env. simulate sortSlice env (Inr req) h1 =
        map_option (\<lambda>s. finish env name (with_defaults h1 req) s h1) (runTicks (e_turns env) (request_sim sortSlice sched req))"
      using simulate_valid [of req h1] True by (metis \<open>bod = Inr req\<close>)
    obtain s where s: "runTicks (e_turns env) (request_sim sortSlice sched req) = Some s" "0 \<le> currentTime s"
      using request_sim_total [OF assms(1) buildScheduler_ok(1) [OF b] assms(2) _ v] assms(3) by auto
    obtain r h2 where r: "finish env name (with_defaults h1 req) s h1 = (r, h2)" by fastforce
    then have h2: "simulate sortSlice env bod h1 = Some (r, h2)" using sim s by simp
    note eff = simulate_effect [OF h2]
    have "rs_status r \<noteq> 400"
      using r by (auto simp: finish_def Let_def writeJSON_def writeError_def split: if_splits wake.splits)
    moreover have "rs_status r \<noteq> 503" using eff(2) by auto
    moreover have "rs_status r \<noteq> 200 \<Longrightarrow> h_store h2 = h_store h" using eff(3) fr(1) by simp
    moreover have "list_all registered (h_metrics h) \<Longrightarrow> list_all registered (h_metrics (release h2))"
      using finish_registered [OF _ s(2) r] fr(3) by (simp add: release_def split: option.split)
    ultimately show ?thesis
      using Some True eff(1,2) fr(4) [of h2] h2 by (auto simp: handleSimulate_def)
  qed
qed

text \<open>
  C28: The semaphore bounds the load: under any interleaving of admissions and completions it holds
  exactly one token per request in flight and never more than the configured limit, and a request
  is turned away only when that many are in flight.
\<close>

theorem simulation_slots:
  assumes "api_run sortSlice h k" "h_simSem h = Some (cap, used)"
  shows "used = int k \<and> int k \<le> cap \<and> (acquire h = None \<longleftrightarrow> int k = cap)"
  using api_run_inv [OF assms(1)] assms(2) by (auto simp: api_inv_def acquire_def)

theorem simulation_slots_witness:
  "acquire (the (acquire (NewHandler (Store_New 3) 4 100 1))) = None"
proof -
  let ?h = "NewHandler (Store_New 3) 4 100 1"
  have a: "acquire ?h = Some (the (acquire ?h))" "h_simSem (the (acquire ?h)) = Some (1, 1)"
    by (simp_all add: NewHandler_def acquire_def)
  from simulation_slots [OF api_run.admit [OF api_run.start a(1)] a(2)] show ?thesis by simp
qed

text \<open>
  C29: What the list shows can be fetched: under any interleaving of requests, \<^verbatim>\<open>GET /api/simulations\<close>
  with a limit from 1 to 500 returns that many of the newest records, as far as there are, and
  fetching the ID of any of them returns this record.
\<close>

theorem listed_records_retrievable:
  assumes "api_run sortSlice h k" "1 \<le> n" "n \<le> 500"
  shows "\<exists>rs. handleList (itoa n) h = \<lparr>rs_status = 200, rs_body = RecordsBody (map Some rs)\<rparr> \<and>
    rs = take (nat n) (rev (records (h_store h))) \<and>
    (\<forall>r\<in>set rs. handleGet (r_ID r) h = \<lparr>rs_status = 200, rs_body = RecordBody r\<rparr>)"
proof -
  let ?rs = "records (h_store h)"
  have inv: "api_inv h k" by (rule api_run_inv [OF assms(1)])
  have "Atoi (itoa n) = Some n" "itoa n \<noteq> []"
    using assms(2,3) Atoi_itoa [of n] by (auto simp: in64_def itoa_def)
  then have "handleList (itoa n) h = \<lparr>rs_status = 200, rs_body = RecordsBody (map Some (take (nat n) (rev ?rs)))\<rparr>"
    using assms(2,3) by (simp add: handleList_def writeJSON_def List_rev Let_def take_map)
  moreover have "handleGet (r_ID r) h = \<lparr>rs_status = 200, rs_body = RecordBody r\<rparr>" if "r \<in> set ?rs" for r
  proof -
    have "numbered (unat (h_idCounter h)) r" using inv that by (simp add: api_inv_def)
    then have "r_ID r \<noteq> []" by (auto simp: numbered_def)
    moreover have "Get (r_ID r) (h_store h) = Some r" using inv that by (intro Get_distinct) (simp_all add: api_inv_def)
    ultimately show ?thesis by (simp add: handleGet_def writeJSON_def)
  qed
  ultimately show ?thesis by (metis in_set_takeD set_rev)
qed

theorem listed_records_retrievable_witness:
  "\<exists>rs. handleList (itoa 7) (NewHandler (Store_New 3) 4 100 1) = \<lparr>rs_status = 200, rs_body = RecordsBody (map Some rs)\<rparr>"
  using listed_records_retrievable [OF api_run.start [of _ 3 4 100 1], of 7] by auto

definition takes_quantum :: "string \<Rightarrow> bool" where
  "takes_quantum a \<longleftrightarrow> (\<exists>q. buildScheduler a q \<noteq> buildScheduler a 1)"

definition never_preempts :: "scheduler \<Rightarrow> bool" where
  "never_preempts s \<longleftrightarrow>
     (\<forall>h c rq t. sched_Preempt s h c rq t = Some False) \<and> (\<forall>p. sched_QuantumFor s p = Some 0)"

lemma never_preempts_simps:
  "never_preempts (FCFS NewFCFSScheduler)" "never_preempts (SJF NewSJFScheduler)"
  "never_preempts (PriorityS (NewPriorityScheduler False))"
  by (simp_all add: never_preempts_def Priority_Preempt_def NewPriorityScheduler_def newPriorityScheduler_def
      split: option.splits)

lemma preempts_simps:
  "\<not> never_preempts (SRTF s)" "\<not> never_preempts (PriorityS (NewPriorityScheduler True))"
  "\<not> never_preempts (RoundRobin (NewRoundRobinScheduler q))" "\<not> never_preempts (CFS NewCFSScheduler)"
  "\<not> never_preempts (MLFQ NewMLFQScheduler)" "\<not> never_preempts (Lottery (NewLotteryScheduler q r))"
  "\<not> never_preempts (MLQ (NewMLQScheduler n q))"
proof -
  let ?h = "\<lambda>a. NewProcess (int a) [] 0 (int a + 1) (int a)"
  have "sched_Preempt (SRTF s) ?h (Some 1) [0] 0 \<noteq> Some False"
    by (simp add: SRTF_Preempt_def NewProcess_def)
  then show "\<not> never_preempts (SRTF s)" unfolding never_preempts_def by blast
  have "sched_Preempt (PriorityS (NewPriorityScheduler True)) ?h (Some 1) [0] 0 \<noteq> Some False"
    by (simp add: Priority_Preempt_def NewPriorityScheduler_def newPriorityScheduler_def effectivePriority_def NewProcess_def)
  then show "\<not> never_preempts (PriorityS (NewPriorityScheduler True))" unfolding never_preempts_def by blast
  have "sched_QuantumFor (RoundRobin (NewRoundRobinScheduler q)) None \<noteq> Some 0" "sched_QuantumFor (CFS NewCFSScheduler) None \<noteq> Some 0"
    "sched_QuantumFor (MLFQ NewMLFQScheduler) None \<noteq> Some 0" "sched_QuantumFor (Lottery (NewLotteryScheduler q r)) None \<noteq> Some 0"
    "sched_QuantumFor (MLQ (NewMLQScheduler n q)) None \<noteq> Some 0"
    by (simp_all add: NewRoundRobinScheduler_def NewCFSScheduler_def NewMLFQScheduler_def NewLotteryScheduler_def
        NewMLQScheduler_def MLFQ_QuantumFor_def index_def)
  then show "\<not> never_preempts (RoundRobin (NewRoundRobinScheduler q))" "\<not> never_preempts (CFS NewCFSScheduler)"
    "\<not> never_preempts (MLFQ NewMLFQScheduler)" "\<not> never_preempts (Lottery (NewLotteryScheduler q r))"
    "\<not> never_preempts (MLQ (NewMLQScheduler n q))"
    unfolding never_preempts_def by blast+
qed

lemma takes_quantum_simps:
  "takes_quantum ''rr''" "takes_quantum ''lottery''" "takes_quantum ''mlq''"
  "\<not> takes_quantum ''fcfs''" "\<not> takes_quantum ''sjf''" "\<not> takes_quantum ''srtf''" "\<not> takes_quantum ''priority''"
  "\<not> takes_quantum ''priority_np''" "\<not> takes_quantum ''cfs''" "\<not> takes_quantum ''mlfq''"
proof -
  have "buildScheduler a 2 \<noteq> buildScheduler a 1" if "a \<in> {''rr'', ''lottery'', ''mlq''}" for a
    using that by (auto simp: buildScheduler_def Let_def NewRoundRobinScheduler_def NewLotteryScheduler_def NewMLQScheduler_def)
  then show "takes_quantum ''rr''" "takes_quantum ''lottery''" "takes_quantum ''mlq''"
    unfolding takes_quantum_def by blast+
qed (simp_all add: takes_quantum_def buildScheduler_def)


end
