(* ===== verification/Go_Duration.thy ===== *)
theory Go_Duration
  imports Float64 Go_Strings
begin

text \<open>
  \<^verbatim>\<open>time.ParseDuration\<close> of Go's standard library, which reads the timeouts of the configuration: a
  sign and a sequence of decimal numbers, each with an optional fraction and a unit. A duration is
  a number of nanoseconds; fractions are scaled in double precision as the library does it.
\<close>

text \<open>Leading digits of the whole part; an error when the number exceeds \<open>2 ^ 63\<close>.\<close>

fun leadingInt :: "int \<Rightarrow> string \<Rightarrow> (int \<times> string) option" where
  "leadingInt x [] = Some (x, [])"
| "leadingInt x (c # cs) =
     (if \<not> is_digit c then Some (x, c # cs)
      else if 2 ^ 63 div 10 < x then None
      else let x = x * 10 + digit_val c
           in if 2 ^ 63 < x then None else leadingInt x cs)"

text \<open>Digits of the fraction: those that no longer fit are skipped.\<close>

fun leadingFraction :: "bool \<Rightarrow> int \<Rightarrow> rat \<Rightarrow> string \<Rightarrow> int \<times> rat \<times> string" where
  "leadingFraction overflow x scale [] = (x, scale, [])"
| "leadingFraction overflow x scale (c # cs) =
     (if \<not> is_digit c then (x, scale, c # cs)
      else if overflow then leadingFraction True x scale cs
      else if (2 ^ 63 - 1) div 10 < x then leadingFraction True x scale cs
      else let y = x * 10 + digit_val c
           in if 2 ^ 63 < y then leadingFraction True x scale cs
              else leadingFraction False y (fmul scale 10) cs)"

definition unitMap :: "string \<Rightarrow> int option" where
  "unitMap u =
     (if u = ''ns'' then Some 1
      else if u = ''us'' \<or> u = [CHR 0xC2, CHR 0xB5, CHR ''s''] \<or> u = [CHR 0xCE, CHR 0xBC, CHR ''s''] then Some 1000
      else if u = ''ms'' then Some 1000000
      else if u = ''s'' then Some 1000000000
      else if u = ''m'' then Some 60000000000
      else if u = ''h'' then Some 3600000000000
      else None)"

text \<open>
  The number of one item: whole part, fraction, scale of the fraction and the rest of the text;
  then its unit and its nanoseconds.
\<close>

definition duration_number :: "string \<Rightarrow> (int \<times> int \<times> rat \<times> string) option" where
  "duration_number s =
     (if s = [] \<or> hd s \<noteq> CHR ''.'' \<and> \<not> is_digit (hd s) then None
      else case leadingInt 0 s of
             None \<Rightarrow> None
           | Some (v, s1) \<Rightarrow>
               let pre = (length s1 \<noteq> length s)
               in if s1 \<noteq> [] \<and> hd s1 = CHR ''.''
                  then let (f, scale, r) = leadingFraction False 0 1 (tl s1); post = (length r \<noteq> length (tl s1))
                       in if \<not> pre \<and> \<not> post then None else Some (v, f, scale, r)
                  else if \<not> pre then None else Some (v, 0, 1, s1))"

definition in_unit :: "char \<Rightarrow> bool" where
  "in_unit c \<longleftrightarrow> c \<noteq> CHR ''.'' \<and> \<not> is_digit c"

definition duration_unit :: "int \<Rightarrow> int \<Rightarrow> rat \<Rightarrow> string \<Rightarrow> (int \<times> string) option" where
  "duration_unit v f scale s =
     (let u = takeWhile in_unit s; r = dropWhile in_unit s
      in if u = [] then None
         else case unitMap u of
                None \<Rightarrow> None
              | Some unit \<Rightarrow>
                  if 2 ^ 63 div unit < v then None
                  else let v = v * unit;
                           v = (if 0 < f then v + trunc_int (fmul (float64 f) (fdiv (float64 unit) scale)) else v)
                       in if 2 ^ 63 < v then None else Some (v, r))"

definition duration_item :: "string \<Rightarrow> (int \<times> string) option" where
  "duration_item s =
     (case duration_number s of None \<Rightarrow> None | Some (v, f, scale, r) \<Rightarrow> duration_unit v f scale r)"

lemma leadingInt_length: "leadingInt x s = Some (v, r) \<Longrightarrow> length r \<le> length s"
  by (induction x s rule: leadingInt.induct) (auto simp: Let_def split: if_splits)

lemma leadingFraction_length: "leadingFraction ov x sc s = (f, sc', r) \<Longrightarrow> length r \<le> length s"
  by (induction ov x sc s rule: leadingFraction.induct) (auto simp: Let_def split: if_splits)

lemma duration_number_length:
  assumes "duration_number s = Some (v, f, scale, r)"
  shows "length r \<le> length s"
proof -
  obtain w s1 where 1: "leadingInt 0 s = Some (w, s1)"
    using assms by (auto simp: duration_number_def split: if_splits option.splits)
  then have "length r \<le> length s1"
    using assms leadingFraction_length [of False 0 1 "tl s1"]
    by (fastforce simp: duration_number_def Let_def split: if_splits prod.splits)
  then show ?thesis using leadingInt_length [OF 1] by linarith
qed

lemma duration_unit_shorter: "duration_unit v f scale s = Some (w, r) \<Longrightarrow> length r < length s"
proof -
  assume "duration_unit v f scale s = Some (w, r)"
  then have "takeWhile in_unit s \<noteq> []" "r = dropWhile in_unit s"
    by (auto simp: duration_unit_def Let_def split: if_splits option.splits)
  then show ?thesis
    using arg_cong [OF takeWhile_dropWhile_id [of in_unit s], of length] by (cases "takeWhile in_unit s") auto
qed

lemma duration_item_shorter: "duration_item s = Some (v, r) \<Longrightarrow> length r < length s"
  using duration_number_length duration_unit_shorter
  by (fastforce simp: duration_item_def split: option.splits dest: order.strict_trans2)

function duration_loop :: "int \<Rightarrow> string \<Rightarrow> int option" where
  "duration_loop d s =
     (if s = [] then Some d
      else case duration_item s of
             None \<Rightarrow> None
           | Some (v, r) \<Rightarrow> if 2 ^ 63 < d + v then None else duration_loop (d + v) r)"
  by pat_completeness auto
termination
  by (relation "measure (\<lambda>(d, s). length s)") (auto dest: duration_item_shorter)

declare duration_loop.simps [simp del]

definition ParseDuration :: "string \<Rightarrow> int option" where
  "ParseDuration s = do {
     let neg = (s \<noteq> [] \<and> hd s = CHR ''-'');
     let s = (if s \<noteq> [] \<and> (hd s = CHR ''-'' \<or> hd s = CHR ''+'') then tl s else s);
     if s = ''0'' then Some 0
     else if s = [] then None
     else do {
       d \<leftarrow> duration_loop 0 s;
       if neg then Some (- d) else if 2 ^ 63 - 1 < d then None else Some d
     }
   }"

section \<open>What is parsed\<close>

lemma leadingInt_nonneg: "leadingInt x s = Some (v, r) \<Longrightarrow> 0 \<le> x \<Longrightarrow> 0 \<le> v"
  by (induction x s rule: leadingInt.induct)
    (auto simp: Let_def digit_val_def is_digit_def split: if_splits)

lemma leadingFraction_scale: "leadingFraction ov x sc s = (f, sc', r) \<Longrightarrow> 0 \<le> sc \<Longrightarrow> 0 \<le> sc'"
  by (induction ov x sc s rule: leadingFraction.induct)
    (auto simp: Let_def fmul_def fround_nonneg split: if_splits)

lemma unitMap_pos: "unitMap u = Some n \<Longrightarrow> 0 < n"
  by (auto simp: unitMap_def split: if_splits)

lemma duration_number_nonneg:
  assumes "duration_number s = Some (v, f, scale, r)"
  shows "0 \<le> v" "0 \<le> scale"
proof -
  obtain w s1 where 1: "leadingInt 0 s = Some (w, s1)"
    using assms by (auto simp: duration_number_def split: if_splits option.splits)
  then have "v = w" using assms by (auto simp: duration_number_def Let_def split: if_splits prod.splits)
  then show "0 \<le> v" using leadingInt_nonneg [OF 1] by simp
  show "0 \<le> scale" using assms 1 leadingFraction_scale [of False 0 1 "tl s1"]
    by (fastforce simp: duration_number_def Let_def split: if_splits prod.splits)
qed

lemma trunc_int_nonneg: "0 \<le> x \<Longrightarrow> 0 \<le> trunc_int x"
  by (simp add: trunc_int_def)

lemma duration_unit_nonneg:
  assumes "duration_unit v f scale s = Some (w, r)" "0 \<le> v" "0 \<le> scale"
  shows "0 \<le> w"
proof -
  obtain n where n: "unitMap (takeWhile in_unit s) = Some n"
    "w = (if 0 < f then v * n + trunc_int (fmul (float64 f) (fdiv (float64 n) scale)) else v * n)"
    using assms(1) by (auto simp: duration_unit_def Let_def split: if_splits option.splits)
  have p: "0 < n" by (rule unitMap_pos [OF n(1)])
  have "0 \<le> float64 n" "0 \<le> float64 f" if "0 < f"
    using p that by (simp_all add: float64_def fround_nonneg)
  then have "0 \<le> trunc_int (fmul (float64 f) (fdiv (float64 n) scale))" if "0 < f"
    using that assms(3) by (intro trunc_int_nonneg) (simp add: fmul_def fdiv_def fround_nonneg)
  then show ?thesis using p assms(2) by (simp add: n(2))
qed

lemma duration_loop_range: "duration_loop d s = Some n \<Longrightarrow> 0 \<le> d \<Longrightarrow> d \<le> 2 ^ 63 \<Longrightarrow> 0 \<le> n \<and> n \<le> 2 ^ 63"
proof (induction d s rule: duration_loop.induct)
  case (1 d s)
  show ?case
  proof (cases "s = []")
    case True
    then show ?thesis using 1 by (simp add: duration_loop.simps)
  next
    case False
    then obtain v r where i: "duration_item s = Some (v, r)" and le: "d + v \<le> 2 ^ 63"
      and n: "duration_loop (d + v) r = Some n"
      using "1.prems"(1) by (subst (asm) duration_loop.simps) (auto split: option.splits if_splits)
    have "0 \<le> v" using i duration_number_nonneg duration_unit_nonneg
      by (fastforce simp: duration_item_def split: option.splits)
    then show ?thesis using "1.IH" [OF False i refl] le n "1.prems"(2) by simp
  qed
qed

lemma ParseDuration_in64: "ParseDuration s = Some d \<Longrightarrow> in64 d"
  using duration_loop_range [of 0]
  by (fastforce simp: ParseDuration_def Let_def in64_def bind_eq_Some_conv split: if_splits)

text \<open>The timeouts that the server's documentation gives as examples.\<close>

lemma ParseDuration_examples:
  "ParseDuration ''30s'' = Some 30000000000" "ParseDuration ''1m30s'' = Some 90000000000"
  "ParseDuration ''1.5s'' = Some 1500000000" "ParseDuration ''30'' = None" "ParseDuration ''-5s'' = Some (- 5000000000)"
  by code_simp+

end
