(* ===== verification/Config.thy ===== *)
theory Config
  imports Go_Duration
begin

text \<open>
  The package \<^verbatim>\<open>internal/config\<close>: defaults, overrides from the environment, and validation. The
  environment is a function from names to values, empty where a variable is not set; a duration is
  a number of nanoseconds. The lemmas show what every configuration that comes from an environment
  satisfies, and when it passes validation.
\<close>

section \<open>Model\<close>

record Config =
  Port :: string
  ReadTimeout :: int
  WriteTimeout :: int
  IdleTimeout :: int
  ShutdownTimeout :: int
  StaticDir :: string
  LogLevel :: string
  LogFormat :: string
  DefaultSpeed :: int
  DefaultTimeQuantum :: int
  BroadcastBufferSize :: int
  MaxClients :: int
  WSReadLimit :: int
  WSWriteWait :: int
  WSPongWait :: int
  WSPingPeriod :: int
  WSOriginAllow :: "string list"
  AllowLocalOrigin :: bool
  SimConcurrencyLimit :: int
  EnableMetrics :: bool

abbreviation Second :: int where
  "Second \<equiv> 1000000000"

definition Default :: Config where
  "Default =
     \<lparr>Port = '':8082'', ReadTimeout = 5 * Second, WriteTimeout = 30 * Second, IdleTimeout = 120 * Second,
      ShutdownTimeout = 5 * Second, StaticDir = ''./web/static'', LogLevel = ''info'', LogFormat = ''json'',
      DefaultSpeed = 100, DefaultTimeQuantum = 4, BroadcastBufferSize = 64, MaxClients = 0,
      WSReadLimit = 4 * 1024, WSWriteWait = 10 * Second, WSPongWait = 60 * Second, WSPingPeriod = 30 * Second,
      WSOriginAllow = [], AllowLocalOrigin = True, SimConcurrencyLimit = 10, EnableMetrics = True\<rparr>"

definition normalizePort :: "string \<Rightarrow> string" where
  "normalizePort v = (if \<not> HasPrefix v '':'' then '':'' @ v else v)"

text \<open>
  The shapes of an override, each a function of the old value of the field: a text that is not
  empty, a number above a bound, a flag, a positive duration.
\<close>

definition text_override :: "(string \<Rightarrow> string) \<Rightarrow> string \<Rightarrow> (string \<Rightarrow> 'a \<Rightarrow> 'a) \<Rightarrow> 'a \<Rightarrow> 'a" where
  "text_override Getenv name f old = (let v = Getenv name in if v \<noteq> [] then f v old else old)"

definition int_override :: "(string \<Rightarrow> string) \<Rightarrow> string \<Rightarrow> int \<Rightarrow> int \<Rightarrow> int" where
  "int_override Getenv name least old =
     (let v = Getenv name
      in if v \<noteq> [] then case Atoi v of Some n \<Rightarrow> if least \<le> n then n else old | None \<Rightarrow> old else old)"

definition bool_override :: "(string \<Rightarrow> string) \<Rightarrow> string \<Rightarrow> bool \<Rightarrow> bool" where
  "bool_override Getenv name old =
     (let v = Getenv name in if v \<noteq> [] then EqualFold v ''true'' \<or> v = ''1'' else old)"

definition parseDur :: "(string \<Rightarrow> string) \<Rightarrow> string \<Rightarrow> int \<Rightarrow> int" where
  "parseDur Getenv env dst =
     (let v = Getenv env
      in if v \<noteq> [] then case ParseDuration v of Some d \<Rightarrow> if 0 < d then d else dst | None \<Rightarrow> dst else dst)"

fun append_origins :: "string list \<Rightarrow> string list \<Rightarrow> string list" where
  "append_origins acc [] = acc"
| "append_origins acc (o1 # os) =
     (let o1 = TrimSpace o1 in append_origins (if o1 \<noteq> [] then acc @ [o1] else acc) os)"

definition FromEnv :: "(string \<Rightarrow> string) \<Rightarrow> Config" where
  "FromEnv Getenv =
     (let c = Default;
          c = Port_update (text_override Getenv ''PORT'' (\<lambda>v old. normalizePort v)) c;
          c = StaticDir_update (text_override Getenv ''STATIC_DIR'' (\<lambda>v old. v)) c;
          c = LogLevel_update (text_override Getenv ''LOG_LEVEL'' (\<lambda>v old. ToLower v)) c;
          c = LogFormat_update (text_override Getenv ''LOG_FORMAT'' (\<lambda>v old. ToLower v)) c;
          c = DefaultSpeed_update (int_override Getenv ''DEFAULT_SPEED'' 1) c;
          c = DefaultTimeQuantum_update (int_override Getenv ''DEFAULT_TIME_QUANTUM'' 1) c;
          c = BroadcastBufferSize_update (int_override Getenv ''BROADCAST_BUFFER_SIZE'' 1) c;
          c = MaxClients_update (int_override Getenv ''MAX_CLIENTS'' 0) c;
          c = WSReadLimit_update (int_override Getenv ''WS_READ_LIMIT_BYTES'' 1) c;
          c = EnableMetrics_update (bool_override Getenv ''ENABLE_METRICS'') c;
          c = WSOriginAllow_update (text_override Getenv ''ALLOWED_ORIGINS''
                (\<lambda>v old. append_origins old (Split (CHR '','') v))) c;
          c = ReadTimeout_update (parseDur Getenv ''READ_TIMEOUT'') c;
          c = WriteTimeout_update (parseDur Getenv ''WRITE_TIMEOUT'') c;
          c = IdleTimeout_update (parseDur Getenv ''IDLE_TIMEOUT'') c;
          c = ShutdownTimeout_update (parseDur Getenv ''SHUTDOWN_TIMEOUT'') c;
          c = WSWriteWait_update (parseDur Getenv ''WS_WRITE_WAIT'') c;
          c = WSPongWait_update (parseDur Getenv ''WS_PONG_WAIT'') c;
          c = WSPingPeriod_update (parseDur Getenv ''WS_PING_PERIOD'') c;
          c = AllowLocalOrigin_update (bool_override Getenv ''ALLOW_LOCAL_ORIGIN'') c;
          c = SimConcurrencyLimit_update (int_override Getenv ''SIM_CONCURRENCY_LIMIT'' 0) c
      in c)"

datatype config_error =
    PortEmpty | PortNoColon string | PortNotNumeric | InvalidLogLevel string | InvalidLogFormat string
  | ReadTimeoutNotPositive | IdleTimeoutNotPositive | PingNotBelowPong int int

definition WSPongPeriodValid :: "Config \<Rightarrow> config_error option" where
  "WSPongPeriodValid c =
     (if WSPongWait c \<le> WSPingPeriod c then Some (PingNotBelowPong (WSPingPeriod c) (WSPongWait c)) else None)"

definition TrimPrefix :: "string \<Rightarrow> string \<Rightarrow> string" where
  "TrimPrefix s p = (if HasPrefix s p then drop (length p) s else s)"

definition Validate :: "Config \<Rightarrow> config_error + Config" where
  "Validate c =
     (if Port c = [] then Inl PortEmpty
      else if \<not> HasPrefix (Port c) '':'' then Inl (PortNoColon (Port c))
      else if Atoi (TrimPrefix (Port c) '':'') = None then Inl PortNotNumeric
      else if LogLevel c \<notin> {''debug'', ''info'', ''warn'', ''error''} then Inl (InvalidLogLevel (LogLevel c))
      else if LogFormat c \<notin> {''json'', ''text''} then Inl (InvalidLogFormat (LogFormat c))
      else if ReadTimeout c \<le> 0 then Inl ReadTimeoutNotPositive
      else if IdleTimeout c \<le> 0 then Inl IdleTimeoutNotPositive
      else case WSPongPeriodValid c of Some err \<Rightarrow> Inl err | None \<Rightarrow> Inr c)"

section \<open>Overrides\<close>

lemma int_override_least: "least \<le> old \<Longrightarrow> least \<le> int_override Getenv name least old"
  by (simp add: int_override_def Let_def split: option.splits)

lemma int_override_in64: "in64 old \<Longrightarrow> in64 (int_override Getenv name least old)"
  by (auto simp: int_override_def Let_def Atoi_in64 split: option.splits)

lemma int_override_itoa:
  "Getenv name = itoa n \<Longrightarrow> least \<le> n \<Longrightarrow> in64 n \<Longrightarrow> int_override Getenv name least old = n"
  by (simp add: int_override_def Let_def Atoi_itoa) (simp add: itoa_def)

lemma parseDur_pos: "0 < dst \<Longrightarrow> 0 < parseDur Getenv env dst"
  by (simp add: parseDur_def Let_def split: option.splits)

lemma append_origins_eq: "append_origins acc os = acc @ filter (\<lambda>s. s \<noteq> []) (map TrimSpace os)"
  by (induction os arbitrary: acc) (auto simp: Let_def)

lemma TrimSpace_subset: "set (TrimSpace s) \<subseteq> set s"
  unfolding TrimSpace_def by (auto dest!: set_dropWhileD)

text \<open>The fields of a configuration from the environment, each by its own variable.\<close>

lemma FromEnv_fields:
  "Port (FromEnv Getenv) = (if Getenv ''PORT'' \<noteq> [] then normalizePort (Getenv ''PORT'') else '':8082'')"
  "LogLevel (FromEnv Getenv) = (if Getenv ''LOG_LEVEL'' \<noteq> [] then ToLower (Getenv ''LOG_LEVEL'') else ''info'')"
  "LogFormat (FromEnv Getenv) = (if Getenv ''LOG_FORMAT'' \<noteq> [] then ToLower (Getenv ''LOG_FORMAT'') else ''json'')"
  "DefaultSpeed (FromEnv Getenv) = int_override Getenv ''DEFAULT_SPEED'' 1 100"
  "DefaultTimeQuantum (FromEnv Getenv) = int_override Getenv ''DEFAULT_TIME_QUANTUM'' 1 4"
  "BroadcastBufferSize (FromEnv Getenv) = int_override Getenv ''BROADCAST_BUFFER_SIZE'' 1 64"
  "MaxClients (FromEnv Getenv) = int_override Getenv ''MAX_CLIENTS'' 0 0"
  "WSReadLimit (FromEnv Getenv) = int_override Getenv ''WS_READ_LIMIT_BYTES'' 1 4096"
  "SimConcurrencyLimit (FromEnv Getenv) = int_override Getenv ''SIM_CONCURRENCY_LIMIT'' 0 10"
  "ReadTimeout (FromEnv Getenv) = parseDur Getenv ''READ_TIMEOUT'' (5 * Second)"
  "WriteTimeout (FromEnv Getenv) = parseDur Getenv ''WRITE_TIMEOUT'' (30 * Second)"
  "IdleTimeout (FromEnv Getenv) = parseDur Getenv ''IDLE_TIMEOUT'' (120 * Second)"
  "ShutdownTimeout (FromEnv Getenv) = parseDur Getenv ''SHUTDOWN_TIMEOUT'' (5 * Second)"
  "WSWriteWait (FromEnv Getenv) = parseDur Getenv ''WS_WRITE_WAIT'' (10 * Second)"
  "WSPongWait (FromEnv Getenv) = parseDur Getenv ''WS_PONG_WAIT'' (60 * Second)"
  "WSPingPeriod (FromEnv Getenv) = parseDur Getenv ''WS_PING_PERIOD'' (30 * Second)"
  "WSOriginAllow (FromEnv Getenv) =
     (if Getenv ''ALLOWED_ORIGINS'' \<noteq> []
      then filter (\<lambda>s. s \<noteq> []) (map TrimSpace (Split (CHR '','') (Getenv ''ALLOWED_ORIGINS''))) else [])"
  by (simp_all add: FromEnv_def Let_def Default_def append_origins_eq text_override_def)

lemma normalizePort_colon: "HasPrefix (normalizePort v) '':''"
  by (simp add: normalizePort_def HasPrefix_def)

section \<open>Properties\<close>

lemma itoa_nonempty [simp]: "itoa n \<noteq> []"
  by (simp add: itoa_def)

lemma origins_clean:
  assumes "w \<in> set (WSOriginAllow (FromEnv Getenv))"
  shows "w \<noteq> []" "CHR '','' \<notin> set w" "TrimSpace w = w"
proof -
  obtain v where v: "v \<in> set (Split (CHR '','') (Getenv ''ALLOWED_ORIGINS''))" "w = TrimSpace v" "w \<noteq> []"
    using assms by (auto simp: FromEnv_fields split: if_splits)
  show "w \<noteq> []" by (rule v(3))
  show "CHR '','' \<notin> set w" using Split_no_sep [OF v(1)] TrimSpace_subset [of v] v(2) by auto
  show "TrimSpace w = w" using TrimSpace_ends [of v] v(2,3) by (intro TrimSpace_id) simp
qed

text \<open>
  C35: Whatever the environment holds, the configuration read from it is usable: every limit is a
  64-bit number in its range (speed, quantum, broadcast buffer and read limit at least 1, client and
  concurrency limits at least 0), every timeout is positive, the port starts with a colon, and every
  allowed origin is a non-empty text without commas or surrounding spaces.
\<close>

theorem config_well_formed:
  "let c = FromEnv Getenv in
     list_all (\<lambda>n. 1 \<le> n \<and> in64 n) [DefaultSpeed c, DefaultTimeQuantum c, BroadcastBufferSize c, WSReadLimit c] \<and>
     list_all (\<lambda>n. 0 \<le> n \<and> in64 n) [MaxClients c, SimConcurrencyLimit c] \<and>
     list_all (\<lambda>d. 0 < d) [ReadTimeout c, WriteTimeout c, IdleTimeout c, ShutdownTimeout c,
       WSWriteWait c, WSPongWait c, WSPingPeriod c] \<and>
     HasPrefix (Port c) '':'' \<and>
     list_all (\<lambda>w. w \<noteq> [] \<and> CHR '','' \<notin> set w \<and> TrimSpace w = w) (WSOriginAllow c)"
proof -
  have "list_all (\<lambda>w. w \<noteq> [] \<and> CHR '','' \<notin> set w \<and> TrimSpace w = w) (WSOriginAllow (FromEnv Getenv))"
    unfolding list_all_iff using origins_clean by blast
  moreover have "HasPrefix (Port (FromEnv Getenv)) '':''"
    using normalizePort_colon by (simp add: FromEnv_fields HasPrefix_def)
  moreover have "in64 100" "in64 4" "in64 64" "in64 4096" "in64 0" "in64 10" by (simp_all add: in64_def)
  ultimately show ?thesis
    by (simp add: Let_def FromEnv_fields int_override_least int_override_in64 parseDur_pos)
qed

text \<open>
  Start-up accepts an environment exactly when \<^verbatim>\<open>PORT\<close> is unset or a number after its optional
  colon, \<^verbatim>\<open>LOG_LEVEL\<close> and \<^verbatim>\<open>LOG_FORMAT\<close> are unset or one of the known names in any case, and the
  ping period is below the pong wait; the other checks of \<^verbatim>\<open>Validate\<close> cannot fail for a
  configuration from the environment.
\<close>

lemma env_accepted_iff:
  "Validate (FromEnv Getenv) = Inr (FromEnv Getenv) \<longleftrightarrow>
     (Getenv ''PORT'' = [] \<or> Atoi (TrimPrefix (Getenv ''PORT'') '':'') \<noteq> None) \<and>
     (Getenv ''LOG_LEVEL'' = [] \<or> ToLower (Getenv ''LOG_LEVEL'') \<in> {''debug'', ''info'', ''warn'', ''error''}) \<and>
     (Getenv ''LOG_FORMAT'' = [] \<or> ToLower (Getenv ''LOG_FORMAT'') \<in> {''json'', ''text''}) \<and>
     parseDur Getenv ''WS_PING_PERIOD'' (30 * Second) < parseDur Getenv ''WS_PONG_WAIT'' (60 * Second)"
proof -
  have c1: "HasPrefix (Port (FromEnv Getenv)) '':''"
    using normalizePort_colon by (simp add: FromEnv_fields HasPrefix_def)
  then have c: "HasPrefix (Port (FromEnv Getenv)) '':''" "Port (FromEnv Getenv) \<noteq> []"
    by (auto simp: HasPrefix_def)
  have "Atoi (TrimPrefix '':8082'' '':'') = Some 8082" by code_simp
  then have port: "Atoi (TrimPrefix (Port (FromEnv Getenv)) '':'') = None \<longleftrightarrow>
      Getenv ''PORT'' \<noteq> [] \<and> Atoi (TrimPrefix (Getenv ''PORT'') '':'') = None"
    by (auto simp: FromEnv_fields normalizePort_def TrimPrefix_def HasPrefix_def)
  have t: "\<not> ReadTimeout (FromEnv Getenv) \<le> 0" "\<not> IdleTimeout (FromEnv Getenv) \<le> 0"
    using parseDur_pos [of "5 * Second" Getenv "''READ_TIMEOUT''"] parseDur_pos [of "120 * Second" Getenv "''IDLE_TIMEOUT''"]
    by (simp_all add: FromEnv_fields)
  have lv: "LogLevel (FromEnv Getenv) \<notin> {''debug'', ''info'', ''warn'', ''error''} \<longleftrightarrow>
      Getenv ''LOG_LEVEL'' \<noteq> [] \<and> ToLower (Getenv ''LOG_LEVEL'') \<notin> {''debug'', ''info'', ''warn'', ''error''}"
    by (simp add: FromEnv_fields)
  have lf: "LogFormat (FromEnv Getenv) \<notin> {''json'', ''text''} \<longleftrightarrow>
      Getenv ''LOG_FORMAT'' \<noteq> [] \<and> ToLower (Getenv ''LOG_FORMAT'') \<notin> {''json'', ''text''}"
    by (simp add: FromEnv_fields)
  have pp: "WSPongPeriodValid (FromEnv Getenv) = None \<longleftrightarrow>
      parseDur Getenv ''WS_PING_PERIOD'' (30 * Second) < parseDur Getenv ''WS_PONG_WAIT'' (60 * Second)"
    by (auto simp: WSPongPeriodValid_def FromEnv_fields)
  show ?thesis
    unfolding Validate_def port lv lf using c t pp by (auto split: option.splits)
qed

text \<open>
  Numeric settings survive the environment: each numeric variable that is set to the decimal
  rendering of a positive 64-bit number gives exactly this number.
\<close>

lemma numeric_settings_roundtrip:
  assumes "1 \<le> n" "n \<le> MaxInt64"
  shows "(Getenv ''DEFAULT_SPEED'' = itoa n \<longrightarrow> DefaultSpeed (FromEnv Getenv) = n) \<and>
    (Getenv ''DEFAULT_TIME_QUANTUM'' = itoa n \<longrightarrow> DefaultTimeQuantum (FromEnv Getenv) = n) \<and>
    (Getenv ''BROADCAST_BUFFER_SIZE'' = itoa n \<longrightarrow> BroadcastBufferSize (FromEnv Getenv) = n) \<and>
    (Getenv ''MAX_CLIENTS'' = itoa n \<longrightarrow> MaxClients (FromEnv Getenv) = n) \<and>
    (Getenv ''WS_READ_LIMIT_BYTES'' = itoa n \<longrightarrow> WSReadLimit (FromEnv Getenv) = n) \<and>
    (Getenv ''SIM_CONCURRENCY_LIMIT'' = itoa n \<longrightarrow> SimConcurrencyLimit (FromEnv Getenv) = n)"
proof -
  have "in64 n" using assms by (simp add: in64_def)
  then show ?thesis using assms by (simp add: FromEnv_fields int_override_itoa)
qed

end
