(* ===== verification/Logging.thy ===== *)
theory Logging
  imports Go_Strings
begin

text \<open>
  The package \<^verbatim>\<open>internal/logging\<close>: the choice of level and format, the request ID that a context
  carries, and the request IDs. The logger itself is \<^verbatim>\<open>log/slog\<close>. The counter is a 32-bit word; the loop that renders it in base
  36 fills a buffer of seven bytes from its end, and an index below zero would panic.
\<close>

section \<open>Level and format\<close>

datatype slog_level = LevelDebug | LevelInfo | LevelWarn | LevelError

datatype slog_handler = TextHandler slog_level | JSONHandler slog_level

definition Init :: "string \<Rightarrow> string \<Rightarrow> slog_handler" where
  "Init level format =
     (let l = ToLower level;
          lvl = (if l = ''debug'' then LevelDebug else if l = ''info'' then LevelInfo
                 else if l = ''warn'' then LevelWarn else if l = ''error'' then LevelError else LevelInfo)
      in if ToLower format = ''text'' then TextHandler lvl else JSONHandler lvl)"

section \<open>Contexts\<close>

text \<open>
  The values that a context carries, by the name of their key. The logger of a request is the global
  one, made on first use, with the request ID as an attribute when the context has one; the global
  logger is returned with it.
\<close>

type_synonym ctx = "string \<rightharpoonup> string"

definition requestIDKey :: string where
  "requestIDKey = ''requestID''"

definition FromContext :: "slog_handler option \<Rightarrow> ctx \<Rightarrow> slog_handler \<times> string option" where
  "FromContext Logger ctx =
     (let Logger = (case Logger of None \<Rightarrow> Init ''info'' ''json'' | Some l \<Rightarrow> l)
      in case ctx requestIDKey of
           Some i \<Rightarrow> if i \<noteq> [] then (Logger, Some i) else (Logger, None)
         | None \<Rightarrow> (Logger, None))"

definition ContextWithRequestID :: "ctx \<Rightarrow> string \<Rightarrow> ctx" where
  "ContextWithRequestID ctx i = ctx(requestIDKey \<mapsto> i)"

definition RequestIDFromContext :: "ctx \<Rightarrow> string" where
  "RequestIDFromContext ctx = (case ctx requestIDKey of Some i \<Rightarrow> i | None \<Rightarrow> [])"

lemma context_roundtrip [simp]: "RequestIDFromContext (ContextWithRequestID ctx i) = i"
  by (simp add: RequestIDFromContext_def ContextWithRequestID_def)

lemma FromContext_eq:
  "FromContext Logger ctx =
     (case Logger of None \<Rightarrow> JSONHandler LevelInfo | Some l \<Rightarrow> l,
      let i = RequestIDFromContext ctx in if i = [] then None else Some i)"
proof -
  have "Init ''info'' ''json'' = JSONHandler LevelInfo" by code_simp
  then show ?thesis by (simp add: FromContext_def RequestIDFromContext_def split: option.split)
qed

section \<open>Request IDs\<close>

definition base36_digits :: string where
  "base36_digits = ''0123456789abcdefghijklmnopqrstuvwxyz''"

function base36_loop :: "32 word \<Rightarrow> nat \<Rightarrow> string \<Rightarrow> (nat \<times> string) option" where
  "base36_loop n i buf =
     (if 0 < n
      then if i = 0 then None
           else base36_loop (n div 36) (i - 1) (buf[i - 1 := base36_digits ! unat (n mod 36)])
      else Some (i, buf))"
  by pat_completeness auto
termination
  by (relation "measure (\<lambda>(n, i, buf). unat n)")
    (auto simp: unat_div unat_gt_0 intro!: div_less_dividend)

declare base36_loop.simps [simp del]

definition fmtUint32Base36 :: "32 word \<Rightarrow> string option" where
  "fmtUint32Base36 n =
     (if n = 0 then Some ''0''
      else do {
        (i, buf) \<leftarrow> base36_loop n 7 (replicate 7 (CHR 0x00));
        Some (drop i buf)
      })"

definition NextRequestID :: "32 word \<Rightarrow> string option \<times> 32 word" where
  "NextRequestID requestIDCounter = (let n = requestIDCounter + 1 in (fmtUint32Base36 n, n))"

section \<open>The rendering is faithful\<close>

text \<open>The reference: base-36 digits of a number, and the number that a text denotes.\<close>

fun base36 :: "nat \<Rightarrow> string" where
  "base36 n = (if n = 0 then [] else base36 (n div 36) @ [base36_digits ! (n mod 36)])"

declare base36.simps [simp del]

definition digit36_val :: "char \<Rightarrow> nat" where
  "digit36_val c = (if is_digit c then byte c - 48 else byte c - 87)"

definition base36_val :: "string \<Rightarrow> nat" where
  "base36_val s = foldl (\<lambda>v c. 36 * v + digit36_val c) 0 s"

lemma digit36_nth:
  assumes "d < 36"
  shows "digit36_val (base36_digits ! d) = d"
proof -
  have "list_all (\<lambda>d. digit36_val (base36_digits ! d) = d) [0..<36]" by code_simp
  then show ?thesis using assms by (simp add: list_all_iff)
qed

lemma base36_val_base36: "base36_val (base36 n) = n"
proof (induction n rule: base36.induct)
  case (1 n)
  show ?case
  proof (cases "n = 0")
    case True
    then show ?thesis by (simp add: base36.simps base36_val_def)
  next
    case False
    then have "base36_val (base36 n) = 36 * base36_val (base36 (n div 36)) + n mod 36"
      by (subst base36.simps) (simp add: base36_val_def digit36_nth)
    then show ?thesis using 1 [OF False] by simp
  qed
qed

lemma base36_length: "n < 36 ^ k \<Longrightarrow> length (base36 n) \<le> k"
proof (induction k arbitrary: n)
  case (Suc k)
  then have "n div 36 < 36 ^ k" by (simp add: less_mult_imp_div_less mult.commute)
  then show ?case using Suc.IH [of "n div 36"] by (subst base36.simps) simp
qed (simp add: base36.simps)

lemma base36_loop_eq:
  assumes "length (base36 (unat n)) \<le> i" "i \<le> length buf"
  shows "\<exists>buf'. base36_loop n i buf = Some (i - length (base36 (unat n)), buf') \<and>
    drop (i - length (base36 (unat n))) buf' = base36 (unat n) @ drop i buf"
  using assms
proof (induction n i buf rule: base36_loop.induct)
  case (1 n i buf)
  show ?case
  proof (cases "0 < n")
    case False
    then have [simp]: "n = 0" by (simp add: word_gt_0)
    show ?thesis by (simp add: base36_loop.simps [of 0] base36.simps [of 0])
  next
    case True
    then have n: "unat n \<noteq> 0" by (simp add: unat_gt_0)
    let ?m = "unat (n div 36)" and ?d = "base36_digits ! unat (n mod 36)"
    have b: "base36 (unat n) = base36 ?m @ [?d]"
      using n by (subst base36.simps) (simp add: unat_div unat_mod)
    then have i: "i \<noteq> 0" "length (base36 ?m) \<le> i - 1" using "1.prems"(1) by auto
    have le: "i - 1 \<le> length (buf[i - 1 := ?d])" using "1.prems"(2) by simp
    obtain buf' where "base36_loop (n div 36) (i - 1) (buf[i - 1 := ?d]) = Some (i - 1 - length (base36 ?m), buf')"
      "drop (i - 1 - length (base36 ?m)) buf' = base36 ?m @ drop (i - 1) (buf[i - 1 := ?d])"
      using "1.IH" [OF True i(1,2) le] by blast
    moreover have "drop (i - 1) (buf[i - 1 := ?d]) = ?d # drop i buf"
      using i(1) "1.prems"(2) by (subst Cons_nth_drop_Suc [symmetric]) simp_all
    ultimately show ?thesis using True i b by (subst base36_loop.simps) simp
  qed
qed

lemma fmtUint32Base36_eq:
  "fmtUint32Base36 n = Some (if n = 0 then ''0'' else base36 (unat n))" "length (base36 (unat n)) \<le> 7"
proof -
  have "unat n < 2 ^ 32" using unsigned_less [of n, where 'a = nat] by simp
  then have "unat n < 36 ^ 7" by simp
  then show l: "length (base36 (unat n)) \<le> 7" by (rule base36_length)
  from base36_loop_eq [of n 7 "replicate 7 (CHR 0x00)"] l
  show "fmtUint32Base36 n = Some (if n = 0 then ''0'' else base36 (unat n))"
    by (auto simp: fmtUint32Base36_def)
qed

text \<open>
  C38: Rendering a request ID ends inside its seven-byte buffer for every counter value, the text
  has one to seven characters and denotes exactly the number, so two calls give the same ID only
  if the counter had the same value.
\<close>

theorem request_id_rendering:
  "(\<exists>s. fmtUint32Base36 n = Some s \<and> 1 \<le> length s \<and> length s \<le> 7 \<and> base36_val s = unat n) \<and>
   (fst (NextRequestID c) = fst (NextRequestID c') \<longleftrightarrow> c = c')"
proof -
  have val: "\<exists>s. fmtUint32Base36 n = Some s \<and> 1 \<le> length s \<and> length s \<le> 7 \<and> base36_val s = unat n" for n
  proof (cases "n = 0")
    case True
    have "base36_val ''0'' = 0" by code_simp
    then show ?thesis using True by (simp add: fmtUint32Base36_eq)
  next
    case False
    then have "unat n \<noteq> 0" by (simp add: unat_eq_0)
    then have "1 \<le> length (base36 (unat n))" by (subst base36.simps) simp
    then show ?thesis using False by (simp add: fmtUint32Base36_eq base36_val_base36)
  qed
  have "fmtUint32Base36 (c + 1) = fmtUint32Base36 (c' + 1) \<longleftrightarrow> c + 1 = c' + 1"
    using val [of "c + 1"] val [of "c' + 1"] by (metis option.inject word_unat_eq_iff)
  then show ?thesis using val by (simp add: NextRequestID_def Let_def)
qed

end
