(* ===== verification/Middleware.thy ===== *)
theory Middleware
  imports Api_Props Config Logging
begin

text \<open>
  The package \<^verbatim>\<open>internal/middleware\<close> and the way \<^verbatim>\<open>cmd/server\<close> stacks it. An HTTP handler is a
  function from a request and a state to a result; the state holds the response that is being
  written (its header map, status and headers once they are sent, and the value that was encoded as its body), the status writer that the
  logging middleware puts in between, the counter of request IDs, the log of metric updates, the
  global logger with the records it was handed, and the state of the application. A handler returns or panics, and what it wrote before stays written. The router behind the
  middleware is an argument; its contract is the locale \<open>http_app\<close>.
\<close>

section \<open>Requests, responses and handlers\<close>

record request =
  rq_Method :: string
  rq_Path :: string
  rq_Header :: "string \<Rightarrow> string"
  rq_Host :: string
  rq_Route :: string
  rq_RemoteAddr :: string
  rq_ContentLength :: int
  rq_Elapsed :: int
  rq_ctx :: ctx

text \<open>The records that the middleware hands to the logger, with the request ID that the logger adds.\<close>

datatype log_record =
    HttpRequest "string option" string string string int int int string
  | PanicRecovered "string option"

record statusWriter =
  sw_status :: int
  sw_bytes :: int

record 's http =
  w_header :: "string \<rightharpoonup> string"
  w_status :: int
  w_sent :: "string \<rightharpoonup> string"
  w_bytes :: int
  w_canHijack :: bool
  w_canFlush :: bool
  w_hijacked :: bool
  w_json :: "response option"
  w_writer :: "statusWriter option"
  requestIDCounter :: "32 word"
  w_metrics :: metric_log
  w_Logger :: "slog_handler option"
  w_log :: "log_record list"
  app :: 's

datatype 's result = Returned "'s http" | Panicked "'s http"

type_synonym 's handler = "request \<Rightarrow> 's http \<Rightarrow> 's result"

text \<open>
  The writer of \<^verbatim>\<open>net/http\<close>: the first status counts and freezes the headers; writing a body
  without a status means 200. A connection that was taken over is no longer written to.
\<close>

definition Header_Set :: "string \<Rightarrow> string \<Rightarrow> 's http \<Rightarrow> 's http" where
  "Header_Set k v w = w\<lparr>w_header := (w_header w)(k \<mapsto> v)\<rparr>"

definition base_WriteHeader :: "int \<Rightarrow> 's http \<Rightarrow> 's http" where
  "base_WriteHeader code w = (if w_status w = 0 \<and> \<not> w_hijacked w then w\<lparr>w_status := code, w_sent := w_header w\<rparr> else w)"

definition base_Write :: "int \<Rightarrow> 's http \<Rightarrow> 's http" where
  "base_Write n w =
     (if w_hijacked w then w else let w = base_WriteHeader 200 w in w\<lparr>w_bytes := w_bytes w + n\<rparr>)"

definition sw_WriteHeader :: "int \<Rightarrow> 's http \<Rightarrow> 's http" where
  "sw_WriteHeader code w =
     (case w_writer w of
        None \<Rightarrow> base_WriteHeader code w
      | Some sw \<Rightarrow>
          let sw = (if sw_status sw = 0 then sw\<lparr>sw_status := code\<rparr> else sw)
          in base_WriteHeader code (w\<lparr>w_writer := Some sw\<rparr>))"

definition sw_Write :: "int \<Rightarrow> 's http \<Rightarrow> 's http" where
  "sw_Write n w =
     (case w_writer w of
        None \<Rightarrow> base_Write n w
      | Some sw \<Rightarrow>
          let sw = (if sw_status sw = 0 then sw\<lparr>sw_status := 200\<rparr> else sw);
              written = (if w_hijacked w then 0 else n)
          in base_Write n (w\<lparr>w_writer := Some (sw\<lparr>sw_bytes := i64 (sw_bytes sw + written)\<rparr>)\<rparr>))"

text \<open>
  The two methods that the status writer hands on: taking over the connection, which the writer below
  may not support and which works only once, and flushing, which sends the headers.
\<close>

definition sw_Hijack :: "'s http \<Rightarrow> bool \<times> 's http" where
  "sw_Hijack w =
     (if w_canHijack w \<and> \<not> w_hijacked w then (True, w\<lparr>w_hijacked := True\<rparr>) else (False, w))"

definition sw_Flush :: "'s http \<Rightarrow> 's http" where
  "sw_Flush w = (if w_canFlush w then base_WriteHeader 200 w else w)"

definition http_Error :: "string \<Rightarrow> int \<Rightarrow> 's http \<Rightarrow> 's http" where
  "http_Error msg code w =
     (let w = Header_Set ''Content-Type'' ''text/plain; charset=utf-8'' w;
          w = Header_Set ''X-Content-Type-Options'' ''nosniff'' w;
          w = sw_WriteHeader code w
      in sw_Write (int (length msg) + 1) w)"

section \<open>The middleware\<close>

definition SecureHeaders :: "'s handler \<Rightarrow> 's handler" where
  "SecureHeaders next r w =
     (let w = Header_Set ''X-Content-Type-Options'' ''nosniff'' w;
          w = Header_Set ''X-Frame-Options'' ''DENY'' w;
          w = Header_Set ''Referrer-Policy'' ''strict-origin-when-cross-origin'' w;
          w = Header_Set ''Content-Security-Policy''
                ''default-src 'self'; script-src 'self'; style-src 'self' 'unsafe-inline'; connect-src 'self' ws: wss:'' w
      in next r w)"

fun sanitize_loop :: "string \<Rightarrow> string \<Rightarrow> string" where
  "sanitize_loop out [] = out"
| "sanitize_loop out (b # s) = sanitize_loop (if 0x20 \<le> byte b \<and> byte b \<le> 0x7E then out @ [b] else out) s"

definition sanitizeHeaderValue :: "string \<Rightarrow> string" where
  "sanitizeHeaderValue s = sanitize_loop [] s"

text \<open>Taking a fresh request ID; a panic of the rendering would be the handler's.\<close>

definition fresh_id :: "'s http \<Rightarrow> (string \<times> 's http) option" where
  "fresh_id w =
     (case NextRequestID (requestIDCounter w) of
        (None, n) \<Rightarrow> None
      | (Some s, n) \<Rightarrow> Some (s, w\<lparr>requestIDCounter := n\<rparr>))"

definition RequestID :: "'s handler \<Rightarrow> 's handler" where
  "RequestID next r w =
     (let i = rq_Header r ''X-Request-ID'';
          chosen = (if i = [] then fresh_id w
                    else let i = sanitizeHeaderValue i in if i = [] then fresh_id w else Some (i, w))
      in case chosen of
           None \<Rightarrow> Panicked w
         | Some (i, w) \<Rightarrow>
             let i = (if 64 < length i then take 64 i else i);
                 ctx = ContextWithRequestID (rq_ctx r) i;
                 w = Header_Set ''X-Request-ID'' i w
             in next (r\<lparr>rq_ctx := ctx\<rparr>) w)"

definition routePath :: "request \<Rightarrow> string" where
  "routePath r =
     (if rq_Route r \<noteq> [] then rq_Route r
      else let p = rq_Path r
           in if HasPrefix p ''/api/simulations/'' then ''/api/simulations/{id}''
              else if HasPrefix p ''/api/simulate'' then ''/api/simulate''
              else p)"

text \<open>A record for the logger of a context.\<close>

definition log_with :: "ctx \<Rightarrow> (string option \<Rightarrow> log_record) \<Rightarrow> 's http \<Rightarrow> 's http" where
  "log_with ctx f w =
     (let (Logger, i) = FromContext (w_Logger w) ctx
      in w\<lparr>w_Logger := Some Logger, w_log := w_log w @ [f i]\<rparr>)"

text \<open>The statements after the call of the next handler are not deferred: a panic skips them.\<close>

definition LogAndMetrics :: "'s handler \<Rightarrow> 's handler" where
  "LogAndMetrics next r w =
     (case next r (w\<lparr>w_writer := Some \<lparr>sw_status = 0, sw_bytes = 0\<rparr>\<rparr>) of
        Panicked w \<Rightarrow> Panicked w
      | Returned w \<Rightarrow>
          let status = (case w_writer w of None \<Rightarrow> 0 | Some sw \<Rightarrow> sw_status sw);
              bytes = (case w_writer w of None \<Rightarrow> 0 | Some sw \<Rightarrow> sw_bytes sw);
              path = routePath r;
              w = w\<lparr>w_metrics := w_metrics w @ ObserveHTTPRequest (rq_Method r) path status (rq_Elapsed r) (rq_ContentLength r)\<rparr>;
              w = log_with (rq_ctx r) (\<lambda>i. HttpRequest i (rq_Method r) (rq_Path r) path status bytes
                    (Milliseconds (rq_Elapsed r)) (rq_RemoteAddr r)) w
          in Returned (w\<lparr>w_writer := None\<rparr>))"

text \<open>
  \<^verbatim>\<open>Recovery\<close> writes to the writer it was called with, not to a status writer further inside, and logs
  with the context of the request it was called with.
\<close>

definition Recovery :: "'s handler \<Rightarrow> 's handler" where
  "Recovery next r w =
     (case next r w of
        Returned w' \<Rightarrow> Returned w'
      | Panicked w' \<Rightarrow>
          Returned (http_Error ''internal server error'' 500
            ((log_with (rq_ctx r) PanicRecovered w')\<lparr>w_writer := w_writer w\<rparr>)))"

definition originAllowed :: "string \<Rightarrow> string list \<Rightarrow> bool" where
  "originAllowed origin allowed = list_ex (\<lambda>a. a = ''*'' \<or> a = origin) allowed"

definition CORS :: "string list \<Rightarrow> 's handler \<Rightarrow> 's handler" where
  "CORS allowedOrigins next r w =
     (let origin = rq_Header r ''Origin'';
          w = (if origin \<noteq> [] \<and> originAllowed origin allowedOrigins
               then let w = Header_Set ''Access-Control-Allow-Origin'' origin w;
                        w = Header_Set ''Vary'' ''Origin'' w;
                        w = Header_Set ''Access-Control-Allow-Methods'' ''GET, POST, OPTIONS'' w;
                        w = Header_Set ''Access-Control-Allow-Headers'' ''Content-Type, X-Request-ID'' w;
                        w = Header_Set ''Access-Control-Expose-Headers'' ''X-Request-ID'' w
                    in Header_Set ''Access-Control-Max-Age'' ''300'' w
               else w)
      in if rq_Method r = ''OPTIONS'' then Returned (sw_WriteHeader 204 w) else next r w)"

fun Chain_loop :: "nat \<Rightarrow> ('s handler \<Rightarrow> 's handler) list \<Rightarrow> 's handler \<Rightarrow> 's handler" where
  "Chain_loop 0 mws h = h"
| "Chain_loop (Suc i) mws h = Chain_loop i mws ((mws ! i) h)"

definition Chain :: "'s handler \<Rightarrow> ('s handler \<Rightarrow> 's handler) list \<Rightarrow> 's handler" where
  "Chain h mws = Chain_loop (length mws) mws h"

section \<open>Rate limiting\<close>

text \<open>
  One limiter per IP address, created at its first request. The limiter is the type of
  \<^verbatim>\<open>golang.org/x/time/rate\<close>: \<open>newLimiter\<close> makes one and \<open>allow\<close> asks and updates it.
\<close>

record 'l RateLimiter =
  clients :: "string \<rightharpoonup> 'l"

definition NewRateLimiter :: "'l RateLimiter" where
  "NewRateLimiter = \<lparr>clients = Map.empty\<rparr>"

definition limiter :: "'l \<Rightarrow> string \<Rightarrow> 'l RateLimiter \<Rightarrow> 'l \<times> 'l RateLimiter" where
  "limiter newLimiter ip rl =
     (case clients rl ip of
        Some l \<Rightarrow> (l, rl)
      | None \<Rightarrow> (newLimiter, rl\<lparr>clients := (clients rl)(ip \<mapsto> newLimiter)\<rparr>))"

text \<open>Whether a request passes, and the limiters afterwards.\<close>

definition RateLimiter_Allow :: "'l \<Rightarrow> ('l \<Rightarrow> bool \<times> 'l) \<Rightarrow> string \<Rightarrow> 'l RateLimiter \<Rightarrow> bool \<times> 'l RateLimiter" where
  "RateLimiter_Allow newLimiter allow ip rl =
     (let (l, rl) = limiter newLimiter ip rl; (ok, l) = allow l
      in (ok, rl\<lparr>clients := (clients rl)(ip \<mapsto> l)\<rparr>))"

text \<open>
  The middleware around it, on an application state that holds the limiters. The host part of the
  remote address is what \<^verbatim>\<open>net.SplitHostPort\<close> makes of it.
\<close>

definition RateLimiter_Handler ::
    "'l \<Rightarrow> ('l \<Rightarrow> bool \<times> 'l) \<Rightarrow> (string \<Rightarrow> string) \<Rightarrow> ('l RateLimiter \<times> 's) handler \<Rightarrow> ('l RateLimiter \<times> 's) handler" where
  "RateLimiter_Handler newLimiter allow hostOf next r w =
     (let (ok, rl) = RateLimiter_Allow newLimiter allow (hostOf (rq_RemoteAddr r)) (fst (app w));
          w = w\<lparr>app := (rl, snd (app w))\<rparr>
      in if \<not> ok then Returned (http_Error ''{\"error\":\"rate limit exceeded\"}'' 429 w) else next r w)"

end
