(* ===== verification/Web_Server.thy ===== *)
theory Web_Server
  imports Api_Props Config
begin

text \<open>
  The package \<^verbatim>\<open>web\<close>: the WebSocket server. A message is a decoded JSON object (\<open>Web_Json\<close>
  has the decoding); a handler is a
  function of the message and the state of the \<^verbatim>\<open>Server\<close>, and returns the replies to the client,
  the updates for all clients and the new state, or \<^term>\<open>None\<close> for a panic. The simulator object is owned by the server, so the
  state holds it by value; its updates go to the bounded broadcast queue. JSON numbers are doubles,
  and \<^verbatim>\<open>int(f)\<close> of a double that does not fit is left to the platform: the conversion is an
  argument with the contract \<open>float_conv\<close>. The arguments of a call that the surroundings decide
  (the clock, whether a stopping goroutine takes its token, which ready case a \<^verbatim>\<open>select\<close> picks) are
  the record \<open>ws_env\<close>.
\<close>

section \<open>JSON values\<close>

datatype json =
    JNull
  | JBool bool
  | JNum rat
  | JStr string
  | JArr "json list"
  | JObj "(string \<times> json) list"

type_synonym object = "(string \<times> json) list"

locale float_conv =
  fixes conv :: "rat \<Rightarrow> int"
  assumes conv_exact: "in64 (trunc_int x) \<Longrightarrow> conv x = trunc_int x"
    and conv_in64: "in64 (conv x)"

text \<open>The two platforms the program is built for: a fixed value, or saturation.\<close>

definition conv_amd64 :: "rat \<Rightarrow> int" where
  "conv_amd64 x = (if in64 (trunc_int x) then trunc_int x else MinInt64)"

definition conv_arm64 :: "rat \<Rightarrow> int" where
  "conv_arm64 x = max MinInt64 (min MaxInt64 (trunc_int x))"

interpretation amd64: float_conv conv_amd64
  by unfold_locales (simp_all add: conv_amd64_def in64_def)

interpretation arm64: float_conv conv_arm64
  by unfold_locales (auto simp: conv_arm64_def in64_def)

section \<open>Parsing a process\<close>

datatype parse_error =
    MissingField string | NotNumber string | NotString string
  | ArrivalNegative | BurstNotPositive | PidNegative

definition getInt :: "(rat \<Rightarrow> int) \<Rightarrow> object \<Rightarrow> string \<Rightarrow> parse_error + int" where
  "getInt conv pMap key =
     (case map_of pMap key of
        None \<Rightarrow> Inl (MissingField key)
      | Some (JNum f) \<Rightarrow> Inr (conv f)
      | Some _ \<Rightarrow> Inl (NotNumber key))"

definition getString :: "object \<Rightarrow> string \<Rightarrow> parse_error + string" where
  "getString pMap key =
     (case map_of pMap key of
        None \<Rightarrow> Inl (MissingField key)
      | Some (JStr s) \<Rightarrow> Inr s
      | Some _ \<Rightarrow> Inl (NotString key))"

definition numberOr :: "(rat \<Rightarrow> int) \<Rightarrow> object \<Rightarrow> string \<Rightarrow> int \<Rightarrow> int" where
  "numberOr conv m key d = (case map_of m key of Some (JNum v) \<Rightarrow> conv v | _ \<Rightarrow> d)"

fun parseBursts :: "(rat \<Rightarrow> int) \<Rightarrow> json list \<Rightarrow> process \<Rightarrow> process" where
  "parseBursts conv [] p = p"
| "parseBursts conv (item # items) p =
     (case item of
        JObj bMap \<Rightarrow>
          let afterCPU = numberOr conv bMap ''afterCPUTime'' 0;
              dur = numberOr conv bMap ''duration'' 0
          in parseBursts conv items
               (if 0 < dur
                then p\<lparr>IOBursts := IOBursts p @ [\<lparr>AfterCPUTime = afterCPU, Duration = dur, Completed = False\<rparr>]\<rparr>
                else p)
      | _ \<Rightarrow> parseBursts conv items p)"

definition parseProcess :: "(rat \<Rightarrow> int) \<Rightarrow> object \<Rightarrow> parse_error + process" where
  "parseProcess conv pMap =
     (case getInt conv pMap ''pid'' of
        Inl err \<Rightarrow> Inl err
      | Inr pid \<Rightarrow>
          let name = (case getString pMap ''name'' of Inl _ \<Rightarrow> ''P'' @ itoa pid | Inr s \<Rightarrow> s)
          in case getInt conv pMap ''arrivalTime'' of
               Inl err \<Rightarrow> Inl err
             | Inr arrival \<Rightarrow>
                 (case getInt conv pMap ''burstTime'' of
                    Inl err \<Rightarrow> Inl err
                  | Inr burst \<Rightarrow>
                      let priority = (case getInt conv pMap ''priority'' of Inl _ \<Rightarrow> 0 | Inr n \<Rightarrow> n)
                      in if arrival < 0 then Inl ArrivalNegative
                         else if burst \<le> 0 then Inl BurstNotPositive
                         else if pid < 0 then Inl PidNegative
                         else let p = NewProcess pid name arrival burst priority
                              in case map_of pMap ''ioBursts'' of
                                   Some (JArr burstList) \<Rightarrow> Inr (parseBursts conv burstList p)
                                 | _ \<Rightarrow> Inr p))"

section \<open>The server\<close>

datatype ws_error =
    MissingType | UnknownType string | UnknownAlgorithm string | BadProcessEntry | BadProcess parse_error
  | NoProcesses | NotInitialized | InvalidSpeed | SpeedTooSmall | InvalidProcessData

datatype ws_message =
    Success string
  | Failure ws_error
  | StateUpdate SimulationUpdate

record Server =
  srv_cfg :: Config
  srv_simulator :: "Simulator option"
  srv_clients :: "nat list"
  srv_broadcast :: "SimulationUpdate list"
  srv_closed :: bool
  srv_metrics :: metric_log

record ws_env =
  env_now :: int
  env_taken :: bool
  env_pick :: bool

definition NewServer :: "Config \<Rightarrow> Server" where
  "NewServer cfg =
     \<lparr>srv_cfg = cfg, srv_simulator = None, srv_clients = [], srv_broadcast = [], srv_closed = False,
      srv_metrics = []\<rparr>"

text \<open>
  The send that does not block: with room in the queue the update is queued, unless the server is
  closed and the \<^verbatim>\<open>select\<close> picks that case; without room it is dropped.
\<close>

definition trySend :: "ws_env \<Rightarrow> SimulationUpdate \<Rightarrow> Server \<Rightarrow> Server" where
  "trySend env u s =
     (if int (length (srv_broadcast s)) < BroadcastBufferSize (srv_cfg s) \<and> (srv_closed s \<longrightarrow> env_pick env)
      then s\<lparr>srv_broadcast := srv_broadcast s @ [u]\<rparr> else s)"

definition unregisterClient :: "nat \<Rightarrow> Server \<Rightarrow> Server" where
  "unregisterClient wc s =
     (if wc \<in> set (srv_clients s) then s\<lparr>srv_clients := removeAll wc (srv_clients s)\<rparr> else s)"

text \<open>
  One turn of \<^verbatim>\<open>handleBroadcasts\<close> takes the oldest update and writes it to every client that is
  registered; a client whose write fails is counted and dropped.
\<close>

fun write_all :: "(nat \<Rightarrow> bool) \<Rightarrow> SimulationUpdate \<Rightarrow> nat list \<Rightarrow> Server \<Rightarrow> (nat \<times> ws_message) list \<times> Server" where
  "write_all fails u [] s = ([], s)"
| "write_all fails u (wc # cs) s =
     (if fails wc
      then write_all fails u cs (unregisterClient wc (s\<lparr>srv_metrics := srv_metrics s @ IncWSError ''write''\<rparr>))
      else let (out, s) = write_all fails u cs s in ((wc, StateUpdate u) # out, s))"

definition handleBroadcasts :: "(nat \<Rightarrow> bool) \<Rightarrow> Server \<Rightarrow> ((nat \<times> ws_message) list \<times> Server) option" where
  "handleBroadcasts fails s =
     (case srv_broadcast s of
        [] \<Rightarrow> None
      | u # us \<Rightarrow> Some (write_all fails u (srv_clients s) (s\<lparr>srv_broadcast := us\<rparr>)))"

text \<open>The origin check of the upgrade.\<close>

definition CheckOrigin :: "Server \<Rightarrow> string \<Rightarrow> string \<Rightarrow> bool" where
  "CheckOrigin s origin host =
     (if origin = [] then True
      else if origin = ''http://'' @ host \<or> origin = ''https://'' @ host then True
      else if list_ex (\<lambda>a. a = ''*'' \<or> a = origin) (WSOriginAllow (srv_cfg s)) then True
      else if AllowLocalOrigin (srv_cfg s)
      then list_ex (\<lambda>p. origin = p \<or> (length p < length origin \<and> take (length p) origin = p \<and> origin ! length p = CHR '':''))
             [''http://localhost'', ''http://127.0.0.1'']
      else False)"

text \<open>
  The start and the end of \<^verbatim>\<open>HandleWebSocket\<close>: a client beyond the limit is turned away; one that
  is admitted is registered, counted and gets the current state. A connection is named by a number
  that no registered connection has.
\<close>

definition connect :: "ws_env \<Rightarrow> nat \<Rightarrow> Server \<Rightarrow> bool \<times> ws_message list \<times> Server" where
  "connect env wc s =
     (if 0 < MaxClients (srv_cfg s) \<and> MaxClients (srv_cfg s) \<le> int (length (srv_clients s)) then (False, [], s)
      else let s = s\<lparr>srv_clients := srv_clients s @ [wc]\<rparr>;
               s = s\<lparr>srv_metrics := srv_metrics s @ IncClient\<rparr>
           in (True, case srv_simulator s of None \<Rightarrow> [] | Some sim \<Rightarrow> [StateUpdate (snapshotState (env_now env) sim)], s))"

definition disconnect :: "nat \<Rightarrow> Server \<Rightarrow> Server" where
  "disconnect wc s =
     s\<lparr>srv_clients := removeAll wc (srv_clients s), srv_metrics := srv_metrics s @ DecClient\<rparr>"

section \<open>Initialisation\<close>

definition initScheduler :: "string \<Rightarrow> int \<Rightarrow> scheduler option" where
  "initScheduler algorithm timeQuantum =
     (if algorithm = ''fcfs'' then Some (FCFS NewFCFSScheduler)
      else if algorithm = ''sjf'' then Some (SJF NewSJFScheduler)
      else if algorithm = ''srtf'' then Some (SRTF NewSRTFScheduler)
      else if algorithm = ''rr'' then Some (RoundRobin (NewRoundRobinScheduler timeQuantum))
      else if algorithm = ''priority'' then Some (PriorityS (NewPriorityScheduler True))
      else if algorithm = ''priority_np'' then Some (PriorityS (NewPriorityScheduler False))
      else if algorithm = ''cfs'' then Some (CFS NewCFSScheduler)
      else if algorithm = ''mlfq'' then Some (MLFQ NewMLFQScheduler)
      else if algorithm = ''lottery'' then Some (Lottery (NewLotteryScheduler timeQuantum None))
      else if algorithm = ''mlq'' then Some (MLQ (NewMLQScheduler 3 timeQuantum))
      else None)"

fun parseProcesses :: "(rat \<Rightarrow> int) \<Rightarrow> json list \<Rightarrow> process list \<Rightarrow> ws_error + process list" where
  "parseProcesses conv [] parsed = Inr parsed"
| "parseProcesses conv (pData # ps) parsed =
     (case pData of
        JObj pMap \<Rightarrow>
          (case parseProcess conv pMap of
             Inl err \<Rightarrow> Inl (BadProcess err)
           | Inr p \<Rightarrow> parseProcesses conv ps (parsed @ [p]))
      | _ \<Rightarrow> Inl BadProcessEntry)"

text \<open>The new simulator of an \<^verbatim>\<open>init\<close> message, or why there is none; the old one is not touched yet.\<close>

definition buildInit ::
    "((addr \<Rightarrow> int) \<Rightarrow> addr list \<Rightarrow> addr list) \<Rightarrow> (rat \<Rightarrow> int) \<Rightarrow> object \<Rightarrow> ws_error + Simulator" where
  "buildInit sortSlice conv msg =
     (let algorithm = (case map_of msg ''algorithm'' of Some (JStr a) \<Rightarrow> a | _ \<Rightarrow> []);
          timeQuantum = numberOr conv msg ''timeQuantum'' 4
      in case initScheduler algorithm timeQuantum of
           None \<Rightarrow> Inl (UnknownAlgorithm algorithm)
         | Some sched \<Rightarrow>
             (case (case map_of msg ''processes'' of
                      Some (JArr processesData) \<Rightarrow> parseProcesses conv processesData []
                    | _ \<Rightarrow> Inr []) of
                Inl err \<Rightarrow> Inl err
              | Inr parsedProcs \<Rightarrow>
                  if parsedProcs = [] then Inl NoProcesses
                  else Inr (Simulator_AddProcesses sortSlice parsedProcs (NewSimulator sched))))"

text \<open>
  The handler as one step. The old simulator is stopped and replaced by the new one, so that its
  state no longer matters; \<open>Web_Lifecycle\<close> looks at what happens between the two.
\<close>

definition handleInit ::
    "((addr \<Rightarrow> int) \<Rightarrow> addr list \<Rightarrow> addr list) \<Rightarrow> (rat \<Rightarrow> int) \<Rightarrow> ws_env \<Rightarrow> object \<Rightarrow> Server \<Rightarrow> ws_message list \<times> SimulationUpdate list \<times> Server" where
  "handleInit sortSlice conv env msg s =
     (case buildInit sortSlice conv msg of
        Inl err \<Rightarrow> ([Failure err], [], s)
      | Inr newSim \<Rightarrow>
          ([Success ''Simulator initialized'', StateUpdate (snapshotState (env_now env) newSim)], [],
           s\<lparr>srv_simulator := Some newSim\<rparr>))"

section \<open>Control messages\<close>

text \<open>
  A time unit with the updates it sends, as \<^verbatim>\<open>Step\<close> and the run loop do it: one after the time unit,
  and one more at completion.
\<close>

definition tick_updates :: "int \<Rightarrow> Simulator \<Rightarrow> (SimulationUpdate list \<times> Simulator) option" where
  "tick_updates now s = do {
     s \<leftarrow> executeTimeUnit s;
     let u = snapshotState now s;
     Some (if isComplete s
           then let s = s\<lparr>sim_state := SimStateComplete\<rparr> in ([u, snapshotState now s], s)
           else ([u], s))
   }"

definition Step_updates :: "int \<Rightarrow> Simulator \<Rightarrow> (SimulationUpdate list \<times> Simulator) option" where
  "Step_updates now s =
     (if sim_state s = SimStateRunning \<or> sim_state s = SimStateComplete then Some ([], s)
      else tick_updates now (if sim_state s = SimStateIdle then s\<lparr>sim_state := SimStatePaused\<rparr> else s))"

text \<open>A turn of the run loop of the server's simulator, with its callback.\<close>

definition engine_turn :: "ws_env \<Rightarrow> Server \<Rightarrow> Server option" where
  "engine_turn env s =
     (case srv_simulator s of
        None \<Rightarrow> Some s
      | Some sim \<Rightarrow>
          if sim_state sim \<noteq> SimStateRunning then Some s
          else do {
            (us, sim) \<leftarrow> tick_updates (env_now env) sim;
            Some (fold (trySend env) us (s\<lparr>srv_simulator := Some sim\<rparr>))
          })"

text \<open>
  What a handler gives: the replies, the updates that it sends to the broadcast queue, and the new
  state without them.
\<close>

type_synonym handled = "(ws_message list \<times> SimulationUpdate list \<times> Server) option"

text \<open>Most handlers need a simulator, and answer with an error when there is none.\<close>

definition with_sim ::
    "Server \<Rightarrow> (Simulator \<Rightarrow> handled) \<Rightarrow> handled" where
  "with_sim s f = (case srv_simulator s of None \<Rightarrow> Some ([Failure NotInitialized], [], s) | Some sim \<Rightarrow> f sim)"

definition handleStart :: "Server \<Rightarrow> handled" where
  "handleStart s = with_sim s (\<lambda>sim.
     Some ([Success ''Simulation started''], [], s\<lparr>srv_simulator := Some (snd (Start sim))\<rparr>))"

definition handlePause :: "Server \<Rightarrow> handled" where
  "handlePause s = with_sim s (\<lambda>sim.
     Some ([Success ''Simulation paused''], [], s\<lparr>srv_simulator := Some (Pause sim)\<rparr>))"

definition handleResume :: "Server \<Rightarrow> handled" where
  "handleResume s = with_sim s (\<lambda>sim.
     Some ([Success ''Simulation resumed''], [], s\<lparr>srv_simulator := Some (Resume sim)\<rparr>))"

definition handleStop :: "ws_env \<Rightarrow> Server \<Rightarrow> handled" where
  "handleStop env s = with_sim s (\<lambda>sim.
     Some ([Success ''Simulation stopped''], [], s\<lparr>srv_simulator := Some (Stop (env_taken env) sim)\<rparr>))"

definition handleReset :: "ws_env \<Rightarrow> Server \<Rightarrow> handled" where
  "handleReset env s = with_sim s (\<lambda>sim.
     let sim = Reset (env_taken env) sim; s = s\<lparr>srv_simulator := Some sim\<rparr>
     in Some ([Success ''Simulation reset''], [snapshotState (env_now env) sim], s))"

definition handleStep :: "ws_env \<Rightarrow> Server \<Rightarrow> handled" where
  "handleStep env s = with_sim s (\<lambda>sim. do {
     (us, sim) \<leftarrow> Step_updates (env_now env) sim;
     Some ([Success ''Step executed''], us, s\<lparr>srv_simulator := Some sim\<rparr>)
   })"

definition handleSpeed :: "(rat \<Rightarrow> int) \<Rightarrow> object \<Rightarrow> Server \<Rightarrow> handled" where
  "handleSpeed conv msg s = with_sim s (\<lambda>sim.
     case map_of msg ''speed'' of
       Some (JNum v) \<Rightarrow>
         if v < 1 then Some ([Failure SpeedTooSmall], [], s)
         else Some ([Success (sprintf_d ''Speed set to '' (conv v) '' ms/unit'')], [],
                    s\<lparr>srv_simulator := Some (SetSpeed (conv v) sim)\<rparr>)
     | _ \<Rightarrow> Some ([Failure InvalidSpeed], [], s))"

definition handleAddProcess ::
    "((addr \<Rightarrow> int) \<Rightarrow> addr list \<Rightarrow> addr list) \<Rightarrow> (rat \<Rightarrow> int) \<Rightarrow> ws_env \<Rightarrow> object \<Rightarrow> Server \<Rightarrow> handled" where
  "handleAddProcess sortSlice conv env msg s = with_sim s (\<lambda>sim.
     case map_of msg ''process'' of
       Some (JObj processData) \<Rightarrow>
         (case parseProcess conv processData of
            Inl err \<Rightarrow> Some ([Failure (BadProcess err)], [], s)
          | Inr p \<Rightarrow>
              let sim = Simulator_AddProcess sortSlice p sim; s = s\<lparr>srv_simulator := Some sim\<rparr>
              in Some ([Success (''Process '' @ Name p @ '' added'')], [snapshotState (env_now env) sim], s))
     | _ \<Rightarrow> Some ([Failure InvalidProcessData], [], s))"

definition handleGetState :: "ws_env \<Rightarrow> Server \<Rightarrow> handled" where
  "handleGetState env s = with_sim s (\<lambda>sim. Some ([StateUpdate (snapshotState (env_now env) sim)], [], s))"

definition route_message ::
    "((addr \<Rightarrow> int) \<Rightarrow> addr list \<Rightarrow> addr list) \<Rightarrow> (rat \<Rightarrow> int) \<Rightarrow> ws_env \<Rightarrow> object \<Rightarrow> Server \<Rightarrow> handled" where
  "route_message sortSlice conv env msg s =
     (case map_of msg ''type'' of
        Some (JStr msgType) \<Rightarrow>
          if msgType = ''init'' then Some (handleInit sortSlice conv env msg s)
          else if msgType = ''start'' then handleStart s
          else if msgType = ''pause'' then handlePause s
          else if msgType = ''resume'' then handleResume s
          else if msgType = ''stop'' then handleStop env s
          else if msgType = ''reset'' then handleReset env s
          else if msgType = ''step'' then handleStep env s
          else if msgType = ''speed'' then handleSpeed conv msg s
          else if msgType = ''addProcess'' then handleAddProcess sortSlice conv env msg s
          else if msgType = ''getState'' then handleGetState env s
          else Some ([Failure (UnknownType msgType)], [], s)
      | _ \<Rightarrow> Some ([Failure MissingType], [], s))"

text \<open>The updates of a handler go to the queue without blocking.\<close>

definition sent :: "ws_env \<Rightarrow> handled \<Rightarrow> (ws_message list \<times> Server) option" where
  "sent env res = map_option (\<lambda>(ms, us, s). (ms, fold (trySend env) us s)) res"

definition handleMessage ::
    "((addr \<Rightarrow> int) \<Rightarrow> addr list \<Rightarrow> addr list) \<Rightarrow> (rat \<Rightarrow> int) \<Rightarrow> ws_env \<Rightarrow> object \<Rightarrow> Server \<Rightarrow> (ws_message list \<times> Server) option" where
  "handleMessage sortSlice conv env msg s = sent env (route_message sortSlice conv env msg s)"

section \<open>Health and shutdown\<close>

record health =
  hl_code :: int
  hl_clients :: int
  hl_simulatorReady :: bool
  hl_sim :: "(SimulationState \<times> int) option"

definition HandleHealth :: "ws_env \<Rightarrow> Server \<Rightarrow> health" where
  "HandleHealth env s =
     (if srv_closed s then \<lparr>hl_code = 503, hl_clients = 0, hl_simulatorReady = False, hl_sim = None\<rparr>
      else \<lparr>hl_code = 200, hl_clients = int (length (srv_clients s)), hl_simulatorReady = (srv_simulator s \<noteq> None),
            hl_sim = map_option (\<lambda>sim. let u = snapshotState (env_now env) sim in (u_State u, u_CurrentTime u)) (srv_simulator s)\<rparr>)"

text \<open>What \<^verbatim>\<open>Shutdown\<close> does to the state before it waits for the handlers; a second call does nothing.\<close>

definition Shutdown :: "ws_env \<Rightarrow> Server \<Rightarrow> Server" where
  "Shutdown env s =
     (if srv_closed s then s
      else s\<lparr>srv_closed := True, srv_simulator := map_option (Stop (env_taken env)) (srv_simulator s), srv_clients := []\<rparr>)"

definition DefaultPort :: "(string \<Rightarrow> string) \<Rightarrow> string \<Rightarrow> string" where
  "DefaultPort Getenv fallback =
     (let p = Getenv ''PORT'' in if p \<noteq> [] \<and> Atoi p \<noteq> None then '':'' @ p else fallback)"

end
