(* ===== verification/Server_Main.thy ===== *)
theory Server_Main
  imports Middleware Web_Server "HOL-Library.Sublist"
begin

text \<open>
  The wiring of \<^verbatim>\<open>cmd/server\<close>: the configuration from the environment, the handler of the server
  with its middleware, the components built from the configuration, and \<^verbatim>\<open>main\<close> up to the point where
  it listens, with its \<^verbatim>\<open>--health\<close> probe and its exit codes, and how the process ends. The HTTP client of the probe is an
  argument that gives the status of the answer, or nothing when the request fails.
\<close>

definition main_handler :: "Config \<Rightarrow> 's handler \<Rightarrow> 's handler" where
  "main_handler cfg mux = Chain mux [Recovery, SecureHeaders, RequestID, LogAndMetrics, CORS (WSOriginAllow cfg)]"

definition startup :: "(string \<Rightarrow> string) \<Rightarrow> config_error + Config \<times> Server \<times> Handler" where
  "startup Getenv =
     (case Validate (FromEnv Getenv) of
        Inl err \<Rightarrow> Inl err
      | Inr cfg \<Rightarrow>
          let server = NewServer cfg;
              historyStore = Store_New 100;
              apiHandler = NewHandler historyStore (DefaultTimeQuantum cfg) (DefaultSpeed cfg) (SimConcurrencyLimit cfg)
          in Inr (cfg, server, apiHandler))"

definition health_url :: "(string \<Rightarrow> string) \<Rightarrow> string" where
  "health_url Getenv =
     (let port = Getenv ''PORT'';
          port = (if port = [] then '':8082'' else port);
          port = (if hd port \<noteq> CHR '':'' then '':'' @ port else port)
      in ''http://localhost'' @ port @ ''/health'')"

definition health_probe :: "(string \<Rightarrow> int option) \<Rightarrow> (string \<Rightarrow> string) \<Rightarrow> int" where
  "health_probe client_Get Getenv =
     (case client_Get (health_url Getenv) of
        None \<Rightarrow> 1
      | Some StatusCode \<Rightarrow> if StatusCode \<noteq> 200 then 1 else 0)"

record http_Server =
  hs_Addr :: string
  hs_ReadHeaderTimeout :: int
  hs_ReadTimeout :: int
  hs_WriteTimeout :: int
  hs_IdleTimeout :: int

definition http_server :: "Config \<Rightarrow> http_Server" where
  "http_server cfg =
     \<lparr>hs_Addr = Port cfg, hs_ReadHeaderTimeout = ReadTimeout cfg, hs_ReadTimeout = ReadTimeout cfg,
      hs_WriteTimeout = WriteTimeout cfg, hs_IdleTimeout = IdleTimeout cfg\<rparr>"

record running =
  rn_cfg :: Config
  rn_logger :: slog_handler
  rn_server :: Server
  rn_api :: Handler
  rn_http :: http_Server

datatype program = Exit int | Listening running

definition main :: "(string \<Rightarrow> int option) \<Rightarrow> string list \<Rightarrow> (string \<Rightarrow> string) \<Rightarrow> program" where
  "main client_Get Args Getenv =
     (if length Args = 2 \<and> Args ! 1 = ''--health'' then Exit (health_probe client_Get Getenv)
      else case startup Getenv of
             Inl err \<Rightarrow> Exit 1
           | Inr (cfg, server, apiHandler) \<Rightarrow>
               Listening \<lparr>rn_cfg = cfg, rn_logger = Init (LogLevel cfg) (LogFormat cfg), rn_server = server,
                 rn_api = apiHandler, rn_http = http_server cfg\<rparr>)"

section \<open>The end of the process\<close>

text \<open>
  What happens after a program has started to listen: the goroutine that serves ends the process when
  it fails with an error other than the one of a closed server; the main goroutine waits for a signal,
  then for the shutdown of the WebSocket server and then for that of the HTTP server, whose error is
  only logged.
\<close>

datatype phase = Serving | Draining | Closing | Exited int

datatype main_event = ListenReturns bool | SignalReceived | ServerShutdownReturns | SrvShutdownReturns

fun main_step :: "phase \<Rightarrow> main_event \<Rightarrow> phase" where
  "main_step (Exited n) _ = Exited n"
| "main_step p (ListenReturns isErrServerClosed) = (if \<not> isErrServerClosed then Exited 1 else p)"
| "main_step Serving SignalReceived = Draining"
| "main_step Draining ServerShutdownReturns = Closing"
| "main_step Closing SrvShutdownReturns = Exited 0"
| "main_step p _ = p"

lemma exited [simp]: "foldl main_step (Exited n) es = Exited n"
  by (induction es) auto

text \<open>The process exits with 0 only after a signal and both shutdowns, in this order, and else with 1.\<close>

lemma exit_zero:
  "foldl main_step Serving es = Exited 0 \<Longrightarrow> subseq [SignalReceived, ServerShutdownReturns, SrvShutdownReturns] es"
  "foldl main_step Draining es = Exited 0 \<Longrightarrow> subseq [ServerShutdownReturns, SrvShutdownReturns] es"
  "foldl main_step Closing es = Exited 0 \<Longrightarrow> subseq [SrvShutdownReturns] es"
proof (induction es)
  case (Cons e es)
  { case 1 then show ?case using Cons.IH by (cases e) (auto split: if_splits) }
  { case 2 then show ?case using Cons.IH by (cases e) (auto split: if_splits) }
  { case 3 then show ?case using Cons.IH by (cases e) (auto split: if_splits) }
qed simp_all

lemma exit_one: "p \<noteq> Exited n \<Longrightarrow> foldl main_step p es = Exited n \<Longrightarrow> n = 0 \<or> (n = 1 \<and> ListenReturns False \<in> set es)"
proof (induction es arbitrary: p)
  case (Cons e es)
  then show ?case
    by (cases "main_step p e = Exited n") (cases p; cases e; auto split: if_splits)+
qed simp

section \<open>The start\<close>

text \<open>The probe asks the address that the server listens on.\<close>

lemma health_url_port: "health_url Getenv = ''http://localhost'' @ Port (FromEnv Getenv) @ ''/health''"
  by (cases "Getenv ''PORT''") (auto simp: health_url_def FromEnv_fields normalizePort_def HasPrefix_def)

text \<open>
  What a server starts with: a quantum for requests that name none, an empty history, a semaphore
  for the configured number of simulations, and an empty broadcast queue with room.
\<close>

lemma startup_components:
  assumes "startup Getenv = Inr (cfg, server, apiHandler)"
  shows "cfg = FromEnv Getenv" "1 \<le> h_defaultQuantum apiHandler" "records (h_store apiHandler) = []"
    "h_simSem apiHandler = (if SimConcurrencyLimit cfg = 0 then None else Some (SimConcurrencyLimit cfg, 0))"
    "srv_broadcast server = []" "1 \<le> BroadcastBufferSize (srv_cfg server)"
proof -
  have v: "Validate (FromEnv Getenv) = Inr cfg" and s: "server = NewServer cfg"
    and h: "apiHandler = NewHandler (Store_New 100) (DefaultTimeQuantum cfg) (DefaultSpeed cfg) (SimConcurrencyLimit cfg)"
    using assms by (auto simp: startup_def Let_def split: sum.splits)
  show c: "cfg = FromEnv Getenv" using v by (auto simp: Validate_def split: if_splits option.splits)
  have "0 \<le> SimConcurrencyLimit cfg" by (simp add: c FromEnv_fields int_override_least)
  then show "h_simSem apiHandler = (if SimConcurrencyLimit cfg = 0 then None else Some (SimConcurrencyLimit cfg, 0))"
    by (simp add: h NewHandler_def)
  show "1 \<le> h_defaultQuantum apiHandler" "records (h_store apiHandler) = []" "srv_broadcast server = []"
    "1 \<le> BroadcastBufferSize (srv_cfg server)"
    by (simp_all add: h s c NewHandler_def NewServer_def Store_New_def FromEnv_fields int_override_least)
qed

end
