(* ===== verification/Http_App.thy ===== *)
theory Http_App
  imports Server_Main
begin

text \<open>
  The contract of the handlers behind the middleware, as the locale \<open>http_app\<close>: they leave the
  headers of the stack alone, write through the status writer and do not touch the metrics and the
  access log of HTTP requests. It is interpreted on the endpoints of the API.
\<close>

section \<open>The contract of a handler\<close>

fun final :: "'s result \<Rightarrow> 's http" where
  "final (Returned w) = w"
| "final (Panicked w) = w"

definition security_headers :: "(string \<times> string) list" where
  "security_headers =
     [(''X-Content-Type-Options'', ''nosniff''), (''X-Frame-Options'', ''DENY''),
      (''Referrer-Policy'', ''strict-origin-when-cross-origin''),
      (''Content-Security-Policy'',
       ''default-src 'self'; script-src 'self'; style-src 'self' 'unsafe-inline'; connect-src 'self' ws: wss:'')]"

text \<open>The headers are in place, and if the response has been sent, it was sent with them.\<close>

definition secured :: "(string \<times> string) list \<Rightarrow> 's http \<Rightarrow> bool" where
  "secured hs w \<longleftrightarrow>
     list_all (\<lambda>(k, v). w_header w k = Some v \<and> (w_status w \<noteq> 0 \<longrightarrow> w_sent w k = Some v)) hs"

text \<open>The status writer has seen the status that was sent, unless the connection was taken over.\<close>

definition tracked :: "'s http \<Rightarrow> bool" where
  "tracked w \<longleftrightarrow> (\<exists>sw. w_writer w = Some sw \<and> (\<not> w_hijacked w \<longrightarrow> sw_status sw = w_status w))"

definition protected_headers :: "string list" where
  "protected_headers = ''X-Request-ID'' # map fst security_headers"

locale http_app =
  fixes mux :: "'s handler"
  assumes keeps_secured: "secured hs w \<Longrightarrow> fst ` set hs \<subseteq> set protected_headers \<Longrightarrow>
      (\<forall>v. (''X-Content-Type-Options'', v) \<in> set hs \<longrightarrow> v = ''nosniff'') \<Longrightarrow> secured hs (final (mux r w))"
    and keeps_tracked: "tracked w \<Longrightarrow> tracked (final (mux r w))"
    and keeps_metrics: "w_metrics (final (mux r w)) = w_metrics w"
    and keeps_log: "w_log (final (mux r w)) = w_log w"

lemma Header_Set_frame [simp]:
  "w_status (Header_Set k v w) = w_status w" "w_writer (Header_Set k v w) = w_writer w"
  "w_sent (Header_Set k v w) = w_sent w" "w_metrics (Header_Set k v w) = w_metrics w"
  "w_header (Header_Set k v w) = (w_header w)(k \<mapsto> v)" "requestIDCounter (Header_Set k v w) = requestIDCounter w"
  "w_hijacked (Header_Set k v w) = w_hijacked w" "w_canHijack (Header_Set k v w) = w_canHijack w"
  "app (Header_Set k v w) = app w" "w_bytes (Header_Set k v w) = w_bytes w" "w_log (Header_Set k v w) = w_log w"
  by (simp_all add: Header_Set_def)

lemma log_with_frame [simp]:
  "w_status (log_with ctx f w) = w_status w" "w_writer (log_with ctx f w) = w_writer w"
  "w_sent (log_with ctx f w) = w_sent w" "w_metrics (log_with ctx f w) = w_metrics w" "w_header (log_with ctx f w) = w_header w"
  "w_hijacked (log_with ctx f w) = w_hijacked w" "w_canHijack (log_with ctx f w) = w_canHijack w"
  "app (log_with ctx f w) = app w" "w_bytes (log_with ctx f w) = w_bytes w" "w_json (log_with ctx f w) = w_json w"
  "w_log (log_with ctx f w) =
     w_log w @ [f (let i = RequestIDFromContext ctx in if i = [] then None else Some i)]"
  by (simp_all add: log_with_def FromContext_eq)

lemma secured_Header_Set:
  "secured hs w \<Longrightarrow> (\<forall>v'. (k, v') \<in> set hs \<longrightarrow> v' = v) \<Longrightarrow> secured hs (Header_Set k v w)"
  by (auto simp: secured_def list_all_iff)

lemma writes_secured:
  "secured hs w \<Longrightarrow> secured hs (sw_WriteHeader code w)" "secured hs w \<Longrightarrow> secured hs (sw_Write n w)"
  by (auto simp: secured_def list_all_iff sw_WriteHeader_def sw_Write_def base_WriteHeader_def base_Write_def Let_def
      split: option.splits)

lemma writes_tracked:
  "tracked w \<Longrightarrow> tracked (sw_WriteHeader code w)" "tracked w \<Longrightarrow> tracked (sw_Write n w)"
  "tracked w \<Longrightarrow> tracked (Header_Set k v w)"
  by (auto simp: tracked_def sw_WriteHeader_def sw_Write_def base_WriteHeader_def base_Write_def Let_def)

lemma writes_metrics [simp]:
  "w_metrics (sw_WriteHeader code w) = w_metrics w" "w_metrics (sw_Write n w) = w_metrics w"
  "w_log (sw_WriteHeader code w) = w_log w" "w_log (sw_Write n w) = w_log w"
  by (auto simp: sw_WriteHeader_def sw_Write_def base_WriteHeader_def base_Write_def Let_def split: option.splits)

lemma writes_status:
  "\<not> w_hijacked w \<Longrightarrow> w_status (sw_WriteHeader code w) = (if w_status w = 0 then code else w_status w)"
  "\<not> w_hijacked w \<Longrightarrow> w_status (sw_Write n w) = (if w_status w = 0 then 200 else w_status w)"
  "w_hijacked (sw_WriteHeader code w) = w_hijacked w" "w_hijacked (sw_Write n w) = w_hijacked w"
  "w_canHijack (sw_WriteHeader code w) = w_canHijack w" "w_canHijack (sw_Write n w) = w_canHijack w"
  "app (sw_WriteHeader code w) = app w" "app (sw_Write n w) = app w"
  by (auto simp: sw_WriteHeader_def sw_Write_def base_WriteHeader_def base_Write_def Let_def split: option.splits)

section \<open>The endpoints of the API\<close>

text \<open>
  \<^verbatim>\<open>writeJSON\<close> as it writes to the response, and a handler of the API as the router calls it. The
  length of the encoded answer is an argument.
\<close>

definition serveJSON :: "(response \<Rightarrow> int) \<Rightarrow> response \<Rightarrow> 's http \<Rightarrow> 's http" where
  "serveJSON bodyLen resp w =
     (let w = Header_Set ''Content-Type'' ''application/json'' w;
          w = Header_Set ''Cache-Control'' ''no-store'' w;
          w = sw_WriteHeader (rs_status resp) w
      in (sw_Write (bodyLen resp) w)\<lparr>w_json := Some resp\<rparr>)"

definition json_endpoint :: "(response \<Rightarrow> int) \<Rightarrow> (request \<Rightarrow> 's \<Rightarrow> (response \<times> 's) option) \<Rightarrow> 's handler" where
  "json_endpoint bodyLen f r w =
     (case f r (app w) of
        None \<Rightarrow> Panicked w
      | Some (resp, a) \<Rightarrow> Returned (serveJSON bodyLen resp (w\<lparr>app := a\<rparr>)))"

lemma app_frame [simp]: "secured hs (w\<lparr>app := a\<rparr>) = secured hs w" "tracked (w\<lparr>app := a\<rparr>) = tracked w"
  "secured hs (w\<lparr>w_json := j\<rparr>) = secured hs w" "tracked (w\<lparr>w_json := j\<rparr>) = tracked w"
  by (simp_all add: secured_def tracked_def)

text \<open>Writing an answer with headers that are not protected keeps the contract.\<close>

lemma secured_other:
  "secured hs w \<Longrightarrow> fst ` set hs \<subseteq> set protected_headers \<Longrightarrow> k \<notin> set protected_headers \<Longrightarrow> secured hs (Header_Set k v w)"
  by (rule secured_Header_Set) (auto dest: subsetD intro: rev_image_eqI)

lemma serveJSON_frame:
  "secured hs w \<Longrightarrow> fst ` set hs \<subseteq> set protected_headers \<Longrightarrow> secured hs (serveJSON bodyLen resp w)"
  "tracked w \<Longrightarrow> tracked (serveJSON bodyLen resp w)" "w_metrics (serveJSON bodyLen resp w) = w_metrics w"
  "w_log (serveJSON bodyLen resp w) = w_log w"
  by (auto simp: serveJSON_def Let_def protected_headers_def security_headers_def intro!: writes_secured writes_tracked secured_other)

interpretation json: http_app "json_endpoint bodyLen f" for bodyLen f
  by unfold_locales (auto simp: json_endpoint_def serveJSON_frame split: option.split)

text \<open>The contract speaks about single requests, so a router keeps it when each handler it calls does.\<close>

lemma http_app_pointwise: "(\<And>r. \<exists>f. http_app f \<and> mux r = f r) \<Longrightarrow> http_app mux"
  unfolding http_app_def by metis

end
