(* ===== verification/Go_Json.thy ===== *)
theory Go_Json
  imports Go_Strings
begin

text \<open>
  What the server uses of Go's \<^verbatim>\<open>encoding/json\<close> on the level of bytes: the grammar that the decoder
  accepts, with its nesting limit, its escapes and its repair of text that is not UTF-8, and the
  compact rendering of the encoder. A number is kept as its literal, since what becomes of it
  depends on the type it is decoded into. A parser gives the value and the bytes after it, or says
  that the text is not JSON, or that it ends too early.

  The main facts: what is rendered is read back, and every string that is read is valid UTF-8.
\<close>

section \<open>UTF-8\<close>

definition byte_in :: "nat \<Rightarrow> nat \<Rightarrow> char \<Rightarrow> bool" where
  "byte_in lo hi c \<longleftrightarrow> lo \<le> byte c \<and> byte c \<le> hi"

text \<open>The number of bytes of the well-formed character at the start of a text, 0 if there is none.\<close>

fun utf8_size :: "string \<Rightarrow> nat" where
  "utf8_size [] = 0"
| "utf8_size (a # s) =
     (if byte a < 0x80 then 1
      else if byte_in 0xC2 0xDF a
      then (case s of b # _ \<Rightarrow> if byte_in 0x80 0xBF b then 2 else 0 | _ \<Rightarrow> 0)
      else if byte_in 0xE0 0xEF a
      then (case s of
              b # c # _ \<Rightarrow>
                if byte_in (if byte a = 0xE0 then 0xA0 else 0x80) (if byte a = 0xED then 0x9F else 0xBF) b \<and> byte_in 0x80 0xBF c
                then 3 else 0
            | _ \<Rightarrow> 0)
      else if byte_in 0xF0 0xF4 a
      then (case s of
              b # c # d # _ \<Rightarrow>
                if byte_in (if byte a = 0xF0 then 0x90 else 0x80) (if byte a = 0xF4 then 0x8F else 0xBF) b \<and>
                   byte_in 0x80 0xBF c \<and> byte_in 0x80 0xBF d
                then 4 else 0
            | _ \<Rightarrow> 0)
      else 0)"

declare utf8_size.simps(2) [simp del]

definition surrogate :: "nat \<Rightarrow> bool" where
  "surrogate r \<longleftrightarrow> 0xD800 \<le> r \<and> r < 0xE000"

text \<open>The bytes of the replacement character.\<close>

definition rune_error :: string where
  "rune_error = [CHR 0xEF, CHR 0xBF, CHR 0xBD]"

definition encode_rune :: "nat \<Rightarrow> string" where
  "encode_rune r =
     (if r < 0x80 then [char_of r]
      else if r < 0x800 then [char_of (0xC0 + r div 64), char_of (0x80 + r mod 64)]
      else if surrogate r \<or> 0x10FFFF < r then rune_error
      else if r < 0x10000
      then [char_of (0xE0 + r div 4096), char_of (0x80 + r div 64 mod 64), char_of (0x80 + r mod 64)]
      else [char_of (0xF0 + r div 262144), char_of (0x80 + r div 4096 mod 64), char_of (0x80 + r div 64 mod 64),
            char_of (0x80 + r mod 64)])"

lemma utf8_size_le: "utf8_size s \<le> length s"
  by (cases s) (auto simp: utf8_size.simps(2) split: list.splits)

function valid_utf8 :: "string \<Rightarrow> bool" where
  "valid_utf8 [] \<longleftrightarrow> True"
| "valid_utf8 (a # s) \<longleftrightarrow> (if utf8_size (a # s) = 0 then False else valid_utf8 (drop (utf8_size (a # s)) (a # s)))"
  by pat_completeness auto
termination
  by (relation "measure length") auto

declare valid_utf8.simps(2) [simp del]

section \<open>Strings\<close>

datatype 'a parsed = Invalid | Truncated | Parsed 'a string

definition hex_val :: "char \<Rightarrow> nat option" where
  "hex_val c =
     (if byte_in 48 57 c then Some (byte c - 48)
      else if byte_in 97 102 c then Some (byte c - 87)
      else if byte_in 65 70 c then Some (byte c - 55)
      else None)"

fun hex_digits :: "nat \<Rightarrow> nat \<Rightarrow> string \<Rightarrow> nat parsed" where
  "hex_digits 0 r s = Parsed r s"
| "hex_digits (Suc k) r [] = Truncated"
| "hex_digits (Suc k) r (c # s) = (case hex_val c of None \<Rightarrow> Invalid | Some v \<Rightarrow> hex_digits k (16 * r + v) s)"

text \<open>The escape after a backslash with \<^verbatim>\<open>u\<close>: a surrogate counts only together with its partner.\<close>

definition unescape_u :: "string \<Rightarrow> string parsed" where
  "unescape_u s =
     (case hex_digits 4 0 s of
        Invalid \<Rightarrow> Invalid
      | Truncated \<Rightarrow> Truncated
      | Parsed r t \<Rightarrow>
          if surrogate r
          then (if take 2 t = [CHR 0x5C, CHR ''u'']
                then (case hex_digits 4 0 (drop 2 t) of
                        Parsed r1 t1 \<Rightarrow>
                          if r < 0xDC00 \<and> surrogate r1 \<and> 0xDC00 \<le> r1
                          then Parsed (encode_rune ((r - 0xD800) * 1024 + (r1 - 0xDC00) + 0x10000)) t1
                          else Parsed rune_error t
                      | _ \<Rightarrow> Parsed rune_error t)
                else Parsed rune_error t)
          else Parsed (encode_rune r) t)"

definition simple_escape :: "char \<Rightarrow> char option" where
  "simple_escape c =
     (if c = CHR 0x22 \<or> c = CHR 0x5C \<or> c = CHR ''/'' then Some c
      else if c = CHR ''b'' then Some (CHR 0x08)
      else if c = CHR ''f'' then Some (CHR 0x0C)
      else if c = CHR ''n'' then Some (CHR 0x0A)
      else if c = CHR ''r'' then Some (CHR 0x0D)
      else if c = CHR ''t'' then Some (CHR 0x09)
      else None)"

definition unescape :: "string \<Rightarrow> string parsed" where
  "unescape s =
     (case s of
        [] \<Rightarrow> Truncated
      | e # t \<Rightarrow>
          if e = CHR ''u'' then unescape_u t
          else case simple_escape e of None \<Rightarrow> Invalid | Some c \<Rightarrow> Parsed [c] t)"

lemma hex_digits_length: "hex_digits k r s = Parsed x t \<Longrightarrow> length s = length t + k"
  by (induction k r s rule: hex_digits.induct) (auto split: option.splits)

lemma unescape_u_length: "unescape_u s = Parsed x t \<Longrightarrow> length t < length s"
  by (auto simp: unescape_u_def split: parsed.splits if_splits dest!: hex_digits_length)

lemma unescape_length: "unescape s = Parsed x t \<Longrightarrow> length t < length s"
  by (auto simp: unescape_def split: list.splits option.splits if_splits dest: unescape_u_length)

text \<open>A string after its opening quote; bytes that are not UTF-8 are replaced one by one.\<close>

function parse_string :: "string \<Rightarrow> string \<Rightarrow> string parsed" where
  "parse_string out [] = Truncated"
| "parse_string out (c # s) =
     (if c = CHR 0x22 then Parsed out s
      else if c = CHR 0x5C
      then (case unescape s of Invalid \<Rightarrow> Invalid | Truncated \<Rightarrow> Truncated | Parsed e t \<Rightarrow> parse_string (out @ e) t)
      else if byte c < 0x20 then Invalid
      else case utf8_size (c # s) of
             0 \<Rightarrow> parse_string (out @ rune_error) s
           | Suc n \<Rightarrow> parse_string (out @ c # take n s) (drop n s))"
  by pat_completeness auto
termination
  by (relation "measure (\<lambda>(out, s). length s)") (auto dest!: unescape_length)

declare parse_string.simps(2) [simp del]

lemma parse_string_length: "parse_string out s = Parsed x t \<Longrightarrow> length t < length s"
proof (induction out s rule: parse_string.induct)
  case (2 out c s)
  then show ?case
    by (auto simp: parse_string.simps(2) split: if_splits parsed.splits nat.splits dest!: unescape_length intro: less_SucI)
qed simp

section \<open>Numbers\<close>

definition digits_of :: "string \<Rightarrow> string" where
  "digits_of s = takeWhile is_digit s"

text \<open>The exponent, the fraction and the integer part; the literal so far is handed on.\<close>

definition parse_exp :: "string \<Rightarrow> string \<Rightarrow> string parsed" where
  "parse_exp lit s =
     (case s of
        e # t \<Rightarrow>
          if e = CHR ''e'' \<or> e = CHR ''E''
          then let sign = (if t \<noteq> [] \<and> (hd t = CHR ''+'' \<or> hd t = CHR ''-'') then [hd t] else []);
                   u = drop (length sign) t
               in if u = [] then Truncated
                  else if digits_of u = [] then Invalid
                  else Parsed (lit @ [e] @ sign @ digits_of u) (dropWhile is_digit u)
          else Parsed lit s
      | [] \<Rightarrow> Parsed lit s)"

definition parse_frac :: "string \<Rightarrow> string \<Rightarrow> string parsed" where
  "parse_frac lit s =
     (case s of
        d # t \<Rightarrow>
          if d = CHR ''.''
          then if t = [] then Truncated
               else if digits_of t = [] then Invalid
               else parse_exp (lit @ [d] @ digits_of t) (dropWhile is_digit t)
          else parse_exp lit s
      | [] \<Rightarrow> parse_exp lit s)"

definition parse_number :: "string \<Rightarrow> string parsed" where
  "parse_number s =
     (let sign = (if s \<noteq> [] \<and> hd s = CHR ''-'' then [hd s] else []); t = drop (length sign) s
      in case t of
           [] \<Rightarrow> Truncated
         | d # u \<Rightarrow>
             if d = CHR ''0'' then parse_frac (sign @ [d]) u
             else if is_digit d then parse_frac (sign @ digits_of t) (dropWhile is_digit t)
             else Invalid)"

lemma dropWhile_length: "length (dropWhile P s) \<le> length s"
  by (induction s) auto

lemma dropWhile_length_le: "length s \<le> n \<Longrightarrow> length (dropWhile P s) \<le> n"
  using dropWhile_length [of P s] by simp

lemma parse_exp_length: "parse_exp lit s = Parsed x t \<Longrightarrow> length t \<le> length s"
  by (auto simp: parse_exp_def Let_def split: list.splits if_splits intro!: dropWhile_length_le)

lemma parse_frac_length: "parse_frac lit s = Parsed x t \<Longrightarrow> length t \<le> length s"
  by (auto simp: parse_frac_def split: list.splits if_splits dest!: parse_exp_length
      intro: le_SucI [OF le_trans [OF _ dropWhile_length]])

lemma parse_number_length:
  assumes "parse_number s = Parsed x t"
  shows "length t < length s"
proof -
  define sign where "sign = (if s \<noteq> [] \<and> hd s = CHR ''-'' then [hd s] else [])"
  obtain d u where u: "drop (length sign) s = d # u"
    using assms by (auto simp: parse_number_def Let_def sign_def [symmetric] split: list.splits)
  then consider "parse_frac (sign @ [d]) u = Parsed x t" |
    "is_digit d" "parse_frac (sign @ digits_of (d # u)) (dropWhile is_digit (d # u)) = Parsed x t"
    using assms by (auto simp: parse_number_def Let_def sign_def [symmetric] split: if_splits)
  then have "length t \<le> length u"
    by cases (use parse_frac_length dropWhile_length [of is_digit u] in fastforce)+
  moreover have "Suc (length u) \<le> length s" using arg_cong [OF u, of length] by simp
  ultimately show ?thesis by simp
qed

section \<open>Values\<close>

datatype jval =
    VNull
  | VBool bool
  | VNum string
  | VStr string
  | VArr "jval list"
  | VObj "(string \<times> jval) list"

definition maxNestingDepth :: nat where
  "maxNestingDepth = 10000"

definition json_space :: "char \<Rightarrow> bool" where
  "json_space c \<longleftrightarrow> c = CHR '' '' \<or> c = CHR 0x09 \<or> c = CHR 0x0D \<or> c = CHR 0x0A"

definition skip_space :: "string \<Rightarrow> string" where
  "skip_space s = dropWhile json_space s"

fun parse_word :: "jval \<Rightarrow> string \<Rightarrow> string \<Rightarrow> jval parsed" where
  "parse_word v [] s = Parsed v s"
| "parse_word v (w # ws) [] = Truncated"
| "parse_word v (w # ws) (c # s) = (if c = w then parse_word v ws s else Invalid)"

fun as_value :: "('a \<Rightarrow> jval) \<Rightarrow> 'a parsed \<Rightarrow> jval parsed" where
  "as_value f (Parsed x s) = Parsed (f x) s"
| "as_value f Invalid = Invalid"
| "as_value f Truncated = Truncated"

lemma skip_space_length: "length (skip_space s) \<le> length s"
  by (simp add: skip_space_def dropWhile_length)

lemma skip_space_Cons: "skip_space s = c # t \<Longrightarrow> length t < length s"
  using skip_space_length [of s] by simp

text \<open>
  The tests \<open>length t < length s\<close> never fail, see \<open>parse_value_length\<close>; they are there for the
  termination of the recursion.
\<close>

function parse_value :: "nat \<Rightarrow> string \<Rightarrow> jval parsed"
  and parse_elems :: "nat \<Rightarrow> jval list \<Rightarrow> string \<Rightarrow> jval parsed"
  and parse_members :: "nat \<Rightarrow> (string \<times> jval) list \<Rightarrow> string \<Rightarrow> jval parsed" where
  "parse_value d s =
     (case skip_space s of
        [] \<Rightarrow> Truncated
      | c # t \<Rightarrow>
          if c = CHR ''{''
          then if maxNestingDepth \<le> d then Invalid
               else (case skip_space t of
                       [] \<Rightarrow> Truncated
                     | c' # t' \<Rightarrow> if c' = CHR ''}'' then Parsed (VObj []) t' else parse_members (Suc d) [] t)
          else if c = CHR ''[''
          then if maxNestingDepth \<le> d then Invalid
               else (case skip_space t of
                       [] \<Rightarrow> Truncated
                     | c' # t' \<Rightarrow> if c' = CHR '']'' then Parsed (VArr []) t' else parse_elems (Suc d) [] t)
          else if c = CHR 0x22 then as_value VStr (parse_string [] t)
          else if c = CHR ''t'' then parse_word (VBool True) ''rue'' t
          else if c = CHR ''f'' then parse_word (VBool False) ''alse'' t
          else if c = CHR ''n'' then parse_word VNull ''ull'' t
          else if c = CHR ''-'' \<or> is_digit c then as_value VNum (parse_number (c # t))
          else Invalid)"
| "parse_elems d acc s =
     (case parse_value d s of
        Invalid \<Rightarrow> Invalid
      | Truncated \<Rightarrow> Truncated
      | Parsed v t \<Rightarrow>
          if length t < length s
          then (case skip_space t of
                  [] \<Rightarrow> Truncated
                | c # u \<Rightarrow>
                    if c = CHR '','' then parse_elems d (acc @ [v]) u
                    else if c = CHR '']'' then Parsed (VArr (acc @ [v])) u
                    else Invalid)
          else Invalid)"
| "parse_members d acc s =
     (case skip_space s of
        [] \<Rightarrow> Truncated
      | c # k \<Rightarrow>
          if c \<noteq> CHR 0x22 then Invalid
          else (case parse_string [] k of
                  Invalid \<Rightarrow> Invalid
                | Truncated \<Rightarrow> Truncated
                | Parsed key t \<Rightarrow>
                    (case skip_space t of
                       [] \<Rightarrow> Truncated
                     | c # t \<Rightarrow>
                         if c \<noteq> CHR '':'' then Invalid
                         else (case parse_value d t of
                                 Invalid \<Rightarrow> Invalid
                               | Truncated \<Rightarrow> Truncated
                               | Parsed v u \<Rightarrow>
                                   if length u < length t
                                   then (case skip_space u of
                                           [] \<Rightarrow> Truncated
                                         | c # w \<Rightarrow>
                                             if c = CHR '','' then parse_members d (acc @ [(key, v)]) w
                                             else if c = CHR ''}'' then Parsed (VObj (acc @ [(key, v)])) w
                                             else Invalid)
                                   else Invalid))))"
  by pat_completeness auto
termination
  by (relation "measure (\<lambda>x. case x of Inl (d, s) \<Rightarrow> 2 * length s
        | Inr (Inl (d, acc, s)) \<Rightarrow> 2 * length s + 1 | Inr (Inr (d, acc, s)) \<Rightarrow> 2 * length s + 1)")
    (auto dest!: skip_space_Cons parse_string_length)

declare parse_value.simps [simp del] parse_elems.simps [simp del] parse_members.simps [simp del]

lemma parse_word_length: "parse_word v ws s = Parsed x t \<Longrightarrow> length t \<le> length s"
  by (induction v ws s rule: parse_word.induct) (auto split: if_splits)

lemma as_value_Parsed: "as_value f p = Parsed v t \<longleftrightarrow> (\<exists>x. v = f x \<and> p = Parsed x t)"
  by (cases p) auto

lemmas parse_lengths = skip_space_Cons parse_string_length parse_number_length parse_word_length

lemma parse_value_cases:
  assumes "parse_value d s = Parsed v t"
  obtains u where "skip_space s = CHR ''{'' # u" "skip_space u = CHR ''}'' # t" "v = VObj []"
  | u c w where "skip_space s = CHR ''{'' # u" "skip_space u = c # w" "c \<noteq> CHR ''}''" "\<not> maxNestingDepth \<le> d"
      "parse_members (Suc d) [] u = Parsed v t"
  | u where "skip_space s = CHR ''['' # u" "skip_space u = CHR '']'' # t" "v = VArr []"
  | u c w where "skip_space s = CHR ''['' # u" "skip_space u = c # w" "c \<noteq> CHR '']''" "\<not> maxNestingDepth \<le> d"
      "parse_elems (Suc d) [] u = Parsed v t"
  | u x where "skip_space s = CHR 0x22 # u" "parse_string [] u = Parsed x t" "v = VStr x"
  | c u w x where "skip_space s = c # u" "x = VNull \<or> (\<exists>b. x = VBool b)" "parse_word x w u = Parsed v t"
  | c u x where "skip_space s = c # u" "parse_number (c # u) = Parsed x t" "v = VNum x"
proof (cases "skip_space s")
  case Nil
  then show ?thesis using assms by (simp add: parse_value.simps)
next
  case (Cons c u)
  note v = assms [unfolded parse_value.simps [of d s] Cons list.case]
  consider "c = CHR ''{''" | "c = CHR ''[''" "c \<noteq> CHR ''{''" | "c = CHR 0x22" "c \<noteq> CHR ''{''" "c \<noteq> CHR ''[''"
    | "c \<noteq> CHR ''{''" "c \<noteq> CHR ''[''" "c \<noteq> CHR 0x22" by blast
  then show ?thesis
  proof cases
    case 1
    then show ?thesis using v Cons that(1,2) by (auto split: if_split_asm list.split_asm)
  next
    case 2
    then show ?thesis using v Cons that(3,4) by (auto split: if_split_asm list.split_asm)
  next
    case 3
    then show ?thesis using v Cons that(5) by (auto simp: as_value_Parsed)
  next
    case 4
    then consider "parse_word (VBool True) ''rue'' u = Parsed v t" | "parse_word (VBool False) ''alse'' u = Parsed v t"
      | "parse_word VNull ''ull'' u = Parsed v t" | "as_value VNum (parse_number (c # u)) = Parsed v t"
      using v by (simp split: if_split_asm)
    then show ?thesis using Cons that(6,7) by cases (auto simp: as_value_Parsed)
  qed
qed

lemma parse_elems_cases:
  assumes "parse_elems d acc s = Parsed v t"
  obtains x u w where "parse_value d s = Parsed x u" "length u < length s" "skip_space u = CHR '','' # w"
      "parse_elems d (acc @ [x]) w = Parsed v t"
  | x u where "parse_value d s = Parsed x u" "length u < length s" "skip_space u = CHR '']'' # t" "v = VArr (acc @ [x])"
  using assms by (auto simp: parse_elems.simps [of d acc s] split: if_split_asm list.split_asm parsed.split_asm)

lemma parse_members_cases:
  assumes "parse_members d acc s = Parsed v t"
  obtains k key t1 t2 x u w where "skip_space s = CHR 0x22 # k" "parse_string [] k = Parsed key t1" "skip_space t1 = CHR '':'' # t2"
      "parse_value d t2 = Parsed x u" "length u < length t2" "skip_space u = CHR '','' # w"
      "parse_members d (acc @ [(key, x)]) w = Parsed v t"
  | k key t1 t2 x u where "skip_space s = CHR 0x22 # k" "parse_string [] k = Parsed key t1" "skip_space t1 = CHR '':'' # t2"
      "parse_value d t2 = Parsed x u" "length u < length t2" "skip_space u = CHR ''}'' # t" "v = VObj (acc @ [(key, x)])"
  using assms by (auto simp: parse_members.simps [of d acc s] split: if_split_asm list.split_asm parsed.split_asm)

text \<open>Every parser consumes at least a byte.\<close>

lemma parse_value_length:
  "parse_value d s = Parsed v t \<Longrightarrow> length t < length s"
  "parse_elems d acc s = Parsed v t \<Longrightarrow> length t < length s"
  "parse_members d mem s = Parsed v t \<Longrightarrow> length t < length s"
proof (induction d s and d acc s and d mem s arbitrary: v t and v t and v t rule: parse_value_parse_elems_parse_members.induct)
  case (1 d s)
  from 1(3) show ?case
  proof (cases rule: parse_value_cases)
    case (2 u c w)
    from 1(1) [OF 2(1) refl 2(4,2,3,5)] show ?thesis using skip_space_Cons [OF 2(1)] by simp
  next
    case (4 u c w)
    from 1(2) [OF 4(1) _ refl 4(4,2,3,5)] show ?thesis using skip_space_Cons [OF 4(1)] by simp
  qed (auto dest!: parse_lengths)
next
  case (2 d acc s)
  from 2(3) show ?case
  proof (cases rule: parse_elems_cases)
    case (1 x u w)
    then show ?thesis using 2(2) [OF 1(1,2,3) refl 1(4)] skip_space_Cons [OF 1(3)] by simp
  qed (use skip_space_Cons in force)
next
  case (3 d acc s)
  from 3(3) show ?case
  proof (cases rule: parse_members_cases)
    case (1 k key t1 t2 x u w)
    have "length t < length w" using 3(2) [OF 1(1) _ 1(2,3) _ 1(4,5,6) refl 1(7)] by simp
    then show ?thesis using 1(5) skip_space_Cons [OF 1(1)] parse_string_length [OF 1(2)] skip_space_Cons [OF 1(3)] skip_space_Cons [OF 1(6)]
      by simp
  next
    case (2 k key t1 t2 x u)
    then show ?thesis using skip_space_Cons [OF 2(1)] parse_string_length [OF 2(2)] skip_space_Cons [OF 2(3)] skip_space_Cons [OF 2(6)]
      by simp
  qed
qed

section \<open>Rendering\<close>

definition hex_char :: "nat \<Rightarrow> char" where
  "hex_char n = ''0123456789abcdef'' ! n"

definition escape_ascii :: "char \<Rightarrow> string" where
  "escape_ascii c =
     (if c = CHR 0x22 \<or> c = CHR 0x5C then [CHR 0x5C, c]
      else if c = CHR 0x08 then [CHR 0x5C, CHR ''b'']
      else if c = CHR 0x0C then [CHR 0x5C, CHR ''f'']
      else if c = CHR 0x0A then [CHR 0x5C, CHR ''n'']
      else if c = CHR 0x0D then [CHR 0x5C, CHR ''r'']
      else if c = CHR 0x09 then [CHR 0x5C, CHR ''t'']
      else if byte c < 0x20 \<or> c = CHR ''<'' \<or> c = CHR ''>'' \<or> c = CHR ''&''
      then CHR 0x5C # ''u00'' @ [hex_char (byte c div 16), hex_char (byte c mod 16)]
      else [c])"

text \<open>Line and paragraph separators are escaped, since they end a line in JavaScript.\<close>

definition escape_rune :: "string \<Rightarrow> string" where
  "escape_rune u =
     (if u = [CHR 0xE2, CHR 0x80, CHR 0xA8] then CHR 0x5C # ''u2028''
      else if u = [CHR 0xE2, CHR 0x80, CHR 0xA9] then CHR 0x5C # ''u2029''
      else u)"

function quote_body :: "string \<Rightarrow> string" where
  "quote_body [] = []"
| "quote_body (c # s) =
     (if byte c < 0x80 then escape_ascii c @ quote_body s
      else case utf8_size (c # s) of
             0 \<Rightarrow> (CHR 0x5C # ''ufffd'') @ quote_body s
           | Suc n \<Rightarrow> escape_rune (c # take n s) @ quote_body (drop n s))"
  by pat_completeness auto
termination
  by (relation "measure length") auto

declare quote_body.simps(2) [simp del]

definition quote :: "string \<Rightarrow> string" where
  "quote s = CHR 0x22 # quote_body s @ [CHR 0x22]"

fun render :: "jval \<Rightarrow> string"
  and render_elems :: "jval list \<Rightarrow> string"
  and render_members :: "(string \<times> jval) list \<Rightarrow> string" where
  "render VNull = ''null''"
| "render (VBool b) = (if b then ''true'' else ''false'')"
| "render (VNum lit) = lit"
| "render (VStr s) = quote s"
| "render (VArr vs) = ''['' @ render_elems vs @ '']''"
| "render (VObj ms) = ''{'' @ render_members ms @ ''}''"
| "render_elems [] = []"
| "render_elems [v] = render v"
| "render_elems (v # w # vs) = render v @ '','' @ render_elems (w # vs)"
| "render_members [] = []"
| "render_members [(k, v)] = quote k @ '':'' @ render v"
| "render_members ((k, v) # m # ms) = quote k @ '':'' @ render v @ '','' @ render_members (m # ms)"

section \<open>Strings are read back\<close>

lemma upto_four_bytes:
  obtains "s = []" | a where "s = [a]" | a b where "s = [a, b]" | a b c where "s = [a, b, c]"
  | a b c d u where "s = a # b # c # d # u"
  by (metis list.exhaust)

lemma utf8_size_append: "utf8_size s \<noteq> 0 \<Longrightarrow> utf8_size (s @ t) = utf8_size s"
  by (cases s rule: upto_four_bytes) (simp_all add: utf8_size.simps(2) split: if_splits)

lemma utf8_size_take: "utf8_size s \<noteq> 0 \<Longrightarrow> utf8_size (take (utf8_size s) s @ t) = utf8_size s"
  by (cases s rule: upto_four_bytes) (simp_all add: utf8_size.simps(2) split: if_splits)

lemma hex_val_char: "n < 16 \<Longrightarrow> hex_val (hex_char n) = Some n"
proof -
  have "list_all (\<lambda>n. hex_val (hex_char n) = Some n) [0..<16]" by code_simp
  then show "n < 16 \<Longrightarrow> ?thesis" by (simp add: list_all_iff)
qed

lemma hex_digits_4: "hex_digits 4 = hex_digits (Suc (Suc (Suc (Suc 0))))"
  by (simp add: numeral_eq_Suc)

lemma unescape_hex: "n < 128 \<Longrightarrow> unescape (''u00'' @ hex_char (n div 16) # hex_char (n mod 16) # t) = Parsed [char_of n] t"
proof -
  assume n: "n < 128"
  have "hex_val CHR ''0'' = Some 0" by code_simp
  moreover have "16 * (n div 16) + n mod 16 = n" by simp
  ultimately show ?thesis using n hex_val_char [of "n div 16"] hex_val_char [of "n mod 16"]
    by (simp add: unescape_def unescape_u_def surrogate_def encode_rune_def hex_digits_4)
qed

lemma parse_escape:
  assumes "byte c < 0x80"
  shows "parse_string out (escape_ascii c @ t) = parse_string (out @ [c]) t"
proof -
  have simple: "parse_string out (CHR 0x5C # e # t) = parse_string (out @ [x]) t" if "simple_escape e = Some x" "e \<noteq> CHR ''u''" for e x
    using that by (simp add: parse_string.simps(2) unescape_def)
  have s: "simple_escape CHR 0x22 = Some (CHR 0x22)" "simple_escape CHR 0x5C = Some (CHR 0x5C)"
    "simple_escape CHR ''b'' = Some (CHR 0x08)" "simple_escape CHR ''f'' = Some (CHR 0x0C)" "simple_escape CHR ''n'' = Some (CHR 0x0A)"
    "simple_escape CHR ''r'' = Some (CHR 0x0D)" "simple_escape CHR ''t'' = Some (CHR 0x09)"
    by (simp_all add: simple_escape_def)
  have h: "parse_string out (CHR 0x5C # ''u00'' @ hex_char (byte c div 16) # hex_char (byte c mod 16) # t) = parse_string (out @ [c]) t"
    using unescape_hex [OF assms, of t] by (simp add: parse_string.simps(2))
  have plain: "parse_string out (c # t) = parse_string (out @ [c]) t" if "c \<noteq> CHR 0x22" "c \<noteq> CHR 0x5C" "\<not> byte c < 0x20"
    using that assms by (simp add: parse_string.simps(2) utf8_size.simps(2))
  show ?thesis
    using s h plain by (auto simp: escape_ascii_def simple)
qed

lemma code_points:
  "char_of (226 :: nat) = CHR 0xE2" "char_of (128 :: nat) = CHR 0x80" "char_of (168 :: nat) = CHR 0xA8" "char_of (169 :: nat) = CHR 0xA9"
  by code_simp+

lemma parse_rune:
  assumes "\<not> byte c < 0x80" "utf8_size (c # s) = Suc n"
  shows "parse_string out (escape_rune (c # take n s) @ t) = parse_string (out @ c # take n s) t"
proof -
  have "parse_string out (CHR 0x5C # u @ t) = parse_string (out @ x) t" if "\<And>t. unescape (u @ t) = Parsed x t" for u x
    using that by (simp add: parse_string.simps(2))
  from this [of "''u2028''" "[CHR 0xE2, CHR 0x80, CHR 0xA8]"] this [of "''u2029''" "[CHR 0xE2, CHR 0x80, CHR 0xA9]"]
  have sep: "parse_string out (CHR 0x5C # ''u2028'' @ t) = parse_string (out @ [CHR 0xE2, CHR 0x80, CHR 0xA8]) t"
    "parse_string out (CHR 0x5C # ''u2029'' @ t) = parse_string (out @ [CHR 0xE2, CHR 0x80, CHR 0xA9]) t"
    using code_points by (simp_all add: unescape_def unescape_u_def hex_digits_4 hex_val_def byte_in_def surrogate_def encode_rune_def)
  have z: "utf8_size ((c # take n s) @ t) = Suc n" using utf8_size_take [of "c # s" t] assms(2) by simp
  have "n \<le> length s" using utf8_size_le [of "c # s"] assms(2) by simp
  moreover have "c \<noteq> CHR 0x22" "c \<noteq> CHR 0x5C" "\<not> byte c < 0x20" using assms(1) by auto
  ultimately have "parse_string out ((c # take n s) @ t) = parse_string (out @ c # take n s) t"
    using z by (simp add: parse_string.simps(2))
  then show ?thesis using sep by (simp add: escape_rune_def)
qed

lemma parse_quote_body:
  "valid_utf8 s \<Longrightarrow> parse_string out (quote_body s @ CHR 0x22 # t) = Parsed (out @ s) t"
proof (induction s arbitrary: out rule: quote_body.induct)
  case (2 c s)
  show ?case
  proof (cases "byte c < 0x80")
    case True
    then have "valid_utf8 s" using "2.prems" by (simp add: valid_utf8.simps(2) utf8_size.simps(2))
    then show ?thesis using 2(1) True by (simp add: quote_body.simps(2) parse_escape)
  next
    case False
    obtain n where n: "utf8_size (c # s) = Suc n" "valid_utf8 (drop n s)"
      using "2.prems" by (cases "utf8_size (c # s)") (auto simp: valid_utf8.simps(2))
    then show ?thesis using 2(3) [OF False n(1)] False by (simp add: quote_body.simps(2) parse_rune)
  qed
qed (simp add: parse_string.simps(2))

section \<open>What is read is valid UTF-8\<close>

lemma valid_utf8_append: "valid_utf8 s \<Longrightarrow> valid_utf8 t \<Longrightarrow> valid_utf8 (s @ t)"
proof (induction s rule: valid_utf8.induct)
  case (2 a s)
  let ?n = "utf8_size (a # s)"
  have n: "?n \<noteq> 0" "valid_utf8 (drop ?n (a # s))" using "2.prems"(1) by (simp_all add: valid_utf8.simps(2) split: if_splits)
  then have "utf8_size (a # s @ t) = ?n" using utf8_size_append [of "a # s" t] by simp
  moreover have "drop ?n (a # s @ t) = drop ?n (a # s) @ t" using utf8_size_le [of "a # s"] by (cases "?n") auto
  ultimately show ?case using 2(1) [OF n(1) n(2) "2.prems"(2)] n(1) by (simp add: valid_utf8.simps(2))
qed simp

lemma valid_utf8_whole:
  assumes "utf8_size s = length s"
  shows "valid_utf8 s"
proof (cases s)
  case (Cons a t)
  then show ?thesis using assms by (simp add: valid_utf8.simps(2))
qed simp

lemma valid_utf8_take: "utf8_size s \<noteq> 0 \<Longrightarrow> valid_utf8 (take (utf8_size s) s)"
  using utf8_size_take [of s "[]"] utf8_size_le [of s] by (intro valid_utf8_whole) simp

lemma valid_rune_error: "valid_utf8 rune_error"
  by (rule valid_utf8_whole) (simp add: rune_error_def utf8_size.simps byte_in_def)

lemma mod_less_by_quotient: "n div k = q \<Longrightarrow> n mod k = n - k * (q :: nat)"
  by (metis minus_mult_div_eq_mod)

lemma sextet: "n mod 64 \<le> (63 :: nat)"
  using mod_less_divisor [of 64 n] by simp

lemma valid_encode_rune: "valid_utf8 (encode_rune r)"
proof (rule valid_utf8_whole)
  consider "r < 0x80" | "0x80 \<le> r" "r < 0x800" | "0x800 \<le> r" "surrogate r \<or> 0x10FFFF < r"
    | "0x800 \<le> r" "r < 0x10000" "\<not> surrogate r" | "0x10000 \<le> r" "r \<le> 0x10FFFF" "\<not> surrogate r"
    by linarith
  then show "utf8_size (encode_rune r) = length (encode_rune r)"
  proof cases
    case 1
    then show ?thesis by (simp add: encode_rune_def utf8_size.simps of_char_of)
  next
    case 2
    then have "2 \<le> r div 64" "r div 64 < 32" by auto
    then show ?thesis using 2 by (simp add: encode_rune_def utf8_size.simps of_char_of byte_in_def)
  next
    case 3
    then show ?thesis by (simp add: encode_rune_def rune_error_def utf8_size.simps byte_in_def)
  next
    case 4
    have a: "r div 4096 < 16" using 4 by auto
    have "32 \<le> r div 64 mod 64" if "r div 4096 = 0" using 4 that by simp
    moreover have "r div 64 mod 64 < 32" if "r div 4096 = 13"
    proof -
      have "r < 0xD800" using 4(3) that by (auto simp: surrogate_def)
      then have "r div 64 < 864" by auto
      moreover have "r div 64 div 64 = 13" using that div_mult2_eq [of r 64 64] by simp
      ultimately show ?thesis using mod_less_by_quotient [of "r div 64" 64 13] by simp
    qed
    ultimately show ?thesis using 4 a sextet [of r] sextet [of "r div 64"]
      by (auto simp: encode_rune_def utf8_size.simps of_char_of byte_in_def)
  next
    case 5
    have a: "r div 262144 < 5" using 5 by auto
    have "16 \<le> r div 4096 mod 64" if "r div 262144 = 0" using 5 that by simp
    moreover have "r div 4096 mod 64 < 16" if "r div 262144 = 4"
    proof -
      have "r div 4096 < 272" using 5(2) by auto
      moreover have "r div 4096 div 64 = 4" using that div_mult2_eq [of r 4096 64] by simp
      ultimately show ?thesis using mod_less_by_quotient [of "r div 4096" 64 4] by simp
    qed
    ultimately show ?thesis using 5 a sextet [of r] sextet [of "r div 64"] sextet [of "r div 4096"]
      by (auto simp: encode_rune_def utf8_size.simps of_char_of byte_in_def)
  qed
qed

lemma unescape_valid: "unescape s = Parsed x t \<Longrightarrow> valid_utf8 x"
proof -
  have "valid_utf8 [c]" if "simple_escape e = Some c" for e c
    using that by (intro valid_utf8_whole) (auto simp: simple_escape_def utf8_size.simps split: if_splits)
  then show "unescape s = Parsed x t \<Longrightarrow> valid_utf8 x"
    using valid_encode_rune valid_rune_error
    by (auto simp: unescape_def unescape_u_def split: list.splits if_splits option.splits parsed.splits)
qed

lemma parse_string_valid: "parse_string out s = Parsed x t \<Longrightarrow> valid_utf8 out \<Longrightarrow> valid_utf8 x"
proof (induction out s rule: parse_string.induct)
  case (2 out c s)
  note r = "2.prems"(1) [unfolded parse_string.simps(2)]
  consider "x = out" | e u where "c \<noteq> CHR 0x22" "c = CHR 0x5C" "unescape s = Parsed e u" "parse_string (out @ e) u = Parsed x t"
    | "c \<noteq> CHR 0x22" "c \<noteq> CHR 0x5C" "\<not> byte c < 0x20" "utf8_size (c # s) = 0" "parse_string (out @ rune_error) s = Parsed x t"
    | n where "c \<noteq> CHR 0x22" "c \<noteq> CHR 0x5C" "\<not> byte c < 0x20" "utf8_size (c # s) = Suc n"
        "parse_string (out @ c # take n s) (drop n s) = Parsed x t"
    using r by (auto split: if_splits parsed.splits nat.splits)
  then show ?case
  proof cases
    case (2 e u)
    then show ?thesis using "2.IH"(1) unescape_valid valid_utf8_append "2.prems"(2) by blast
  next
    case 3
    then show ?thesis using "2.IH"(2) valid_rune_error valid_utf8_append "2.prems"(2) by blast
  next
    case (4 n)
    then have "valid_utf8 (c # take n s)" using valid_utf8_take [of "c # s"] by simp
    then show ?thesis using 4 "2.IH"(3) valid_utf8_append "2.prems"(2) by blast
  qed (use "2.prems"(2) in simp)
qed simp

fun utf8_value :: "jval \<Rightarrow> bool"
  and utf8_elems :: "jval list \<Rightarrow> bool"
  and utf8_members :: "(string \<times> jval) list \<Rightarrow> bool" where
  "utf8_value (VStr s) \<longleftrightarrow> valid_utf8 s"
| "utf8_value (VArr vs) \<longleftrightarrow> utf8_elems vs"
| "utf8_value (VObj ms) \<longleftrightarrow> utf8_members ms"
| "utf8_value _ \<longleftrightarrow> True"
| "utf8_elems [] \<longleftrightarrow> True"
| "utf8_elems (v # vs) \<longleftrightarrow> utf8_value v \<and> utf8_elems vs"
| "utf8_members [] \<longleftrightarrow> True"
| "utf8_members ((k, v) # ms) \<longleftrightarrow> valid_utf8 k \<and> utf8_value v \<and> utf8_members ms"

lemma utf8_elems_append [simp]: "utf8_elems (xs @ ys) \<longleftrightarrow> utf8_elems xs \<and> utf8_elems ys"
  by (induction xs) auto

lemma utf8_members_append [simp]: "utf8_members (xs @ ys) \<longleftrightarrow> utf8_members xs \<and> utf8_members ys"
  by (induction xs) auto

lemma parse_word_value: "parse_word v ws s = Parsed x t \<Longrightarrow> x = v"
  by (induction v ws s rule: parse_word.induct) (auto split: if_splits)

lemma parse_value_utf8:
  "parse_value d s = Parsed v t \<Longrightarrow> utf8_value v"
  "parse_elems d acc s = Parsed v t \<Longrightarrow> utf8_elems acc \<Longrightarrow> utf8_value v"
  "parse_members d mem s = Parsed v t \<Longrightarrow> utf8_members mem \<Longrightarrow> utf8_value v"
proof (induction d s and d acc s and d mem s arbitrary: v t and v t and v t rule: parse_value_parse_elems_parse_members.induct)
  case (1 d s)
  from 1(3) show ?case
  proof (cases rule: parse_value_cases)
    case (2 u c w)
    from 1(1) [OF 2(1) refl 2(4,2,3,5)] show ?thesis by simp
  next
    case (4 u c w)
    from 1(2) [OF 4(1) _ refl 4(4,2,3,5)] show ?thesis by simp
  next
    case (5 u x)
    then show ?thesis using parse_string_valid by simp
  next
    case (6 c u w x)
    then show ?thesis using parse_word_value by fastforce
  qed auto
next
  case (2 d acc s)
  from 2(3) show ?case
  proof (cases rule: parse_elems_cases)
    case (1 x u w)
    then show ?thesis using 2(2) [OF 1(1,2,3) refl 1(4)] 2(1) [OF 1(1)] 2(4) by simp
  next
    case (2 x u)
    then show ?thesis using "2.IH"(1) "2.prems"(2) by simp
  qed
next
  case (3 d acc s)
  from 3(3) show ?case
  proof (cases rule: parse_members_cases)
    case (1 k key t1 t2 x u w)
    then show ?thesis
      using 3(2) [OF 1(1) _ 1(2,3) _ 1(4,5,6) refl 1(7)] 3(1) [OF 1(1) _ 1(2,3) _ 1(4)] 3(4) parse_string_valid by simp
  next
    case (2 k key t1 t2 x u)
    then show ?thesis using 3(1) [OF 2(1) _ 2(2,3) _ 2(4)] 3(4) parse_string_valid by simp
  qed
qed

section \<open>What is rendered is read back\<close>

text \<open>The bytes after a number that do not belong to it.\<close>

definition stops :: "string \<Rightarrow> bool" where
  "stops t \<longleftrightarrow> t = [] \<or> \<not> is_digit (hd t) \<and> hd t \<noteq> CHR ''.'' \<and> hd t \<noteq> CHR ''e'' \<and> hd t \<noteq> CHR ''E''"

lemma nat_digits_zero: "hd (nat_digits n) = CHR ''0'' \<Longrightarrow> n = 0"
proof (induction n rule: nat_digits.induct)
  case (1 n)
  have c: "char_of (48 + n) = CHR ''0'' \<Longrightarrow> n = 0" if "n < 10"
  proof -
    have "of_char (char_of (48 + n) :: char) = 48 + n" using that by (simp add: of_char_of)
    then show "char_of (48 + n) = CHR ''0'' \<Longrightarrow> n = 0" by simp
  qed
  have "n div 10 = 0" if "\<not> n < 10" using 1 that by (subst (asm) (2) nat_digits.simps) simp
  then show ?case using 1(2) c by (subst (asm) nat_digits.simps) (auto split: if_splits)
qed

lemma digits_stop:
  assumes "stops t"
  shows "takeWhile is_digit (nat_digits n @ t) = nat_digits n" "dropWhile is_digit (nat_digits n @ t) = t"
proof -
  have "\<forall>c\<in>set (nat_digits n). is_digit c" using nat_digits_digit by blast
  then show "takeWhile is_digit (nat_digits n @ t) = nat_digits n" "dropWhile is_digit (nat_digits n @ t) = t"
    using assms by (cases t; simp add: takeWhile_append dropWhile_append stops_def)+
qed

lemma parse_frac_stops: "stops t \<Longrightarrow> parse_frac lit t = Parsed lit t"
  by (cases t) (simp_all add: parse_frac_def parse_exp_def stops_def)

lemma parse_nat_number:
  assumes "stops t" "s = sign @ nat_digits n @ t" "sign = (if s \<noteq> [] \<and> hd s = CHR ''-'' then [hd s] else [])"
  shows "parse_number s = Parsed (sign @ nat_digits n) t"
proof -
  obtain d u where u: "nat_digits n = d # u" by (cases "nat_digits n") auto
  have d: "is_digit d" using nat_digits_digit [of d n] u by simp
  have "u = []" if "d = CHR ''0''"
  proof -
    have "n = 0" using that nat_digits_zero [of n] u by simp
    then have "nat_digits n = [char_of (48 :: nat)]" by (subst nat_digits.simps) simp
    then show ?thesis using u by simp
  qed
  moreover have "drop (length sign) s = d # u @ t" using assms(2) u by simp
  ultimately show ?thesis
    using d digits_stop [OF assms(1), of n] parse_frac_stops [OF assms(1)] u
    unfolding parse_number_def assms(3) [symmetric] Let_def by (auto simp: digits_of_def)
qed

lemma parse_int_number:
  assumes "stops t"
  shows "parse_number (itoa n @ t) = Parsed (itoa n) t"
proof (cases "n < 0")
  case True
  then show ?thesis using parse_nat_number [OF assms, of _ "''-''"] by (simp add: itoa_def)
next
  case False
  have "is_digit (hd (nat_digits (nat n)))" by (rule nat_digits_digit [of _ "nat n"]) simp
  then have "hd (nat_digits (nat n)) \<noteq> CHR ''-''" using not_digit by auto
  then show ?thesis using parse_nat_number [OF assms, of _ "[]" "nat n"] False by (simp add: itoa_def)
qed

text \<open>The values that the encoder renders: whole numbers and valid text.\<close>

fun renderable :: "jval \<Rightarrow> bool"
  and renderable_elems :: "jval list \<Rightarrow> bool"
  and renderable_members :: "(string \<times> jval) list \<Rightarrow> bool" where
  "renderable (VNum lit) \<longleftrightarrow> (\<exists>n. lit = itoa n)"
| "renderable (VStr s) \<longleftrightarrow> valid_utf8 s"
| "renderable (VArr vs) \<longleftrightarrow> renderable_elems vs"
| "renderable (VObj ms) \<longleftrightarrow> renderable_members ms"
| "renderable _ \<longleftrightarrow> True"
| "renderable_elems [] \<longleftrightarrow> True"
| "renderable_elems (v # vs) \<longleftrightarrow> renderable v \<and> renderable_elems vs"
| "renderable_members [] \<longleftrightarrow> True"
| "renderable_members ((k, v) # ms) \<longleftrightarrow> valid_utf8 k \<and> renderable v \<and> renderable_members ms"

fun depth :: "jval \<Rightarrow> nat"
  and depth_elems :: "jval list \<Rightarrow> nat"
  and depth_members :: "(string \<times> jval) list \<Rightarrow> nat" where
  "depth (VArr vs) = Suc (depth_elems vs)"
| "depth (VObj ms) = Suc (depth_members ms)"
| "depth _ = 0"
| "depth_elems [] = 0"
| "depth_elems (v # vs) = max (depth v) (depth_elems vs)"
| "depth_members [] = 0"
| "depth_members ((k, v) # ms) = max (depth v) (depth_members ms)"

lemma skip_nonspace [simp]: "\<not> json_space c \<Longrightarrow> skip_space (c # t) = c # t"
  by (simp add: skip_space_def)

lemma nonspace [simp]:
  "\<not> json_space CHR ''{''" "\<not> json_space CHR ''}''" "\<not> json_space CHR ''[''" "\<not> json_space CHR '']''" "\<not> json_space CHR '',''"
  "\<not> json_space CHR '':''" "\<not> json_space CHR 0x22" "\<not> json_space CHR ''-''" "\<not> json_space CHR ''t''" "\<not> json_space CHR ''f''"
  "\<not> json_space CHR ''n''" "is_digit c \<Longrightarrow> \<not> json_space c"
  by (auto simp: json_space_def is_digit_def)

lemma stops_punctuation [simp]: "stops (CHR '','' # t)" "stops (CHR '']'' # t)" "stops (CHR ''}'' # t)" "stops []"
  by (simp_all add: stops_def is_digit_def)

lemma itoa_start:
  obtains c u where "itoa n = c # u" "c = CHR ''-'' \<or> is_digit c"
proof (cases "n < 0")
  case False
  obtain c u where "nat_digits (nat n) = c # u" by (cases "nat_digits (nat n)") auto
  then show ?thesis using that nat_digits_digit [of c "nat n"] False by (simp add: itoa_def)
qed (use that in \<open>simp add: itoa_def\<close>)

lemma parse_value_number:
  assumes "stops t"
  shows "parse_value d (itoa n @ t) = Parsed (VNum (itoa n)) t"
proof -
  obtain c u where u: "itoa n = c # u" and c: "c = CHR ''-'' \<or> is_digit c" by (rule itoa_start)
  from c have "c \<notin> {CHR ''{'', CHR ''['', CHR 0x22, CHR ''t'', CHR ''f'', CHR ''n''}" by (auto simp: is_digit_def)
  moreover have "skip_space (itoa n @ t) = c # u @ t" using u c by auto
  ultimately show ?thesis using c parse_int_number [OF assms, of n] u by (simp add: parse_value.simps)
qed

lemma parse_value_string: "valid_utf8 s \<Longrightarrow> parse_value d (quote s @ t) = Parsed (VStr s) t"
  using parse_quote_body [of s "[]" t] by (simp add: quote_def parse_value.simps)

lemma render_start:
  assumes "renderable v"
  shows "\<exists>c t. render v @ u = c # t \<and> \<not> json_space c \<and> c \<noteq> CHR '']''"
proof (cases v)
  case (VNum lit)
  then obtain n where "lit = itoa n" using assms by auto
  moreover obtain c t where "itoa n = c # t" "c = CHR ''-'' \<or> is_digit c" by (rule itoa_start)
  ultimately show ?thesis using VNum by (auto simp: is_digit_def)
qed (simp_all add: quote_def)

lemma render_elems_start:
  assumes "renderable_elems vs" "vs \<noteq> []"
  shows "\<exists>c t. render_elems vs @ u = c # t \<and> \<not> json_space c \<and> c \<noteq> CHR '']''"
proof -
  obtain v ws where vs: "vs = v # ws" using assms(2) by (cases vs) auto
  have "\<exists>w. render_elems vs = render v @ w" using vs by (cases ws) auto
  then show ?thesis using render_start [of v] assms(1) vs by auto
qed

lemma parse_elems_step:
  assumes "parse_value d (r @ c # t) = Parsed v (c # t)"
  shows "parse_elems d acc (r @ c # t) =
    (case skip_space (c # t) of
       [] \<Rightarrow> Truncated
     | c # u \<Rightarrow> if c = CHR '','' then parse_elems d (acc @ [v]) u else if c = CHR '']'' then Parsed (VArr (acc @ [v])) u else Invalid)"
  using parse_value_length(1) [OF assms] by (subst parse_elems.simps) (simp add: assms)

lemma parse_members_step:
  assumes "valid_utf8 k" "parse_value d (r @ c # t) = Parsed v (c # t)"
  shows "parse_members d acc (quote k @ CHR '':'' # r @ c # t) =
    (case skip_space (c # t) of
       [] \<Rightarrow> Truncated
     | c # u \<Rightarrow>
         if c = CHR '','' then parse_members d (acc @ [(k, v)]) u
         else if c = CHR ''}'' then Parsed (VObj (acc @ [(k, v)])) u else Invalid)"
  using parse_value_length(1) [OF assms(2)] parse_quote_body [OF assms(1), of "[]" "CHR '':'' # r @ c # t"]
  by (subst parse_members.simps) (simp add: assms(2) quote_def)

lemma parse_render:
  "renderable v \<Longrightarrow> d + depth v \<le> maxNestingDepth \<Longrightarrow> stops t \<Longrightarrow> parse_value d (render v @ t) = Parsed v t"
  "renderable_elems vs \<Longrightarrow> d + depth_elems vs \<le> maxNestingDepth \<Longrightarrow> vs \<noteq> [] \<Longrightarrow>
     parse_elems d acc (render_elems vs @ CHR '']'' # t) = Parsed (VArr (acc @ vs)) t"
  "renderable_members ms \<Longrightarrow> d + depth_members ms \<le> maxNestingDepth \<Longrightarrow> ms \<noteq> [] \<Longrightarrow>
     parse_members d mem (render_members ms @ CHR ''}'' # t) = Parsed (VObj (mem @ ms)) t"
proof (induction v and vs and ms arbitrary: d t and d t acc and d t mem rule: render_render_elems_render_members.induct)
  case 1
  show ?case by (simp add: parse_value.simps)
next
  case (2 b)
  show ?case by (simp add: parse_value.simps)
next
  case (3 lit)
  then show ?case using parse_value_number by auto
next
  case (4 s)
  then show ?case by (simp add: parse_value_string)
next
  case (5 vs)
  show ?case
  proof (cases "vs = []")
    case False
    obtain c u where "render_elems vs @ CHR '']'' # t = c # u" "\<not> json_space c" "c \<noteq> CHR '']''"
      using render_elems_start [of vs "CHR '']'' # t"] False 5(2) by auto
    then show ?thesis using 5(1) [of "Suc d" "[]" t] 5(2,3) False by (simp add: parse_value.simps)
  qed (use 5(3) in \<open>simp add: parse_value.simps\<close>)
next
  case (6 ms)
  show ?case
  proof (cases "ms = []")
    case False
    then obtain k v ns where "ms = (k, v) # ns" by (metis list.exhaust surj_pair)
    then have "\<exists>u. render_members ms @ CHR ''}'' # t = CHR 0x22 # u" by (cases ns) (simp_all add: quote_def)
    then show ?thesis using 6(1) [of "Suc d" "[]" t] 6(2,3) False by (auto simp: parse_value.simps)
  qed (use 6(3) in \<open>simp add: parse_value.simps\<close>)
next
  case (8 v)
  then have "parse_value d (render v @ CHR '']'' # t) = Parsed v (CHR '']'' # t)" by simp
  then show ?case by (simp add: parse_elems_step)
next
  case (9 v w vs)
  then have "parse_value d (render v @ CHR '','' # render_elems (w # vs) @ CHR '']'' # t) =
      Parsed v (CHR '','' # render_elems (w # vs) @ CHR '']'' # t)" by simp
  then show ?case using 9(2) [of d "acc @ [v]" t] 9(3,4) by (simp add: parse_elems_step)
next
  case (11 k v)
  then have "parse_value d (render v @ CHR ''}'' # t) = Parsed v (CHR ''}'' # t)" by simp
  then show ?case using 11(2) by (simp add: parse_members_step)
next
  case (12 k v m ms)
  then have "parse_value d (render v @ CHR '','' # render_members (m # ms) @ CHR ''}'' # t) =
      Parsed v (CHR '','' # render_members (m # ms) @ CHR ''}'' # t)" by simp
  then show ?case using 12(2) [of d "mem @ [(k, v)]" t] 12(3,4) by (simp add: parse_members_step)
qed simp_all

end
