(* ===== verification/Api_Json.thy ===== *)
theory Api_Json
  imports Api_Props Go_Json
begin

text \<open>
  The body of \<^verbatim>\<open>POST /api/simulate\<close> as bytes: \<^verbatim>\<open>decodeJSON\<close> of \<^verbatim>\<open>api.go\<close> with the rules by which
  \<^verbatim>\<open>encoding/json\<close> fills a struct, and the rendering of the configuration of a record. A field is
  found by its name in any case; \<^verbatim>\<open>null\<close> leaves numbers, texts and structs alone; the first error
  that is not one of syntax is kept while decoding goes on, and unknown fields are such errors. A
  slice is decoded into the array it already has, so that a key that occurs twice overwrites only the
  fields that occur again; a slice is therefore its array and its length.
\<close>

section \<open>Decoding into values of Go\<close>

datatype json_error = SyntaxError | EmptyBody | UnexpectedEOF | BodyTooLarge | UnknownField string | TypeMismatch

type_synonym 'a decoding = "json_error option \<times> 'a"
type_synonym 'a decode = "jval \<Rightarrow> 'a decoding \<Rightarrow> 'a decoding"

definition saveError :: "json_error \<Rightarrow> json_error option \<Rightarrow> json_error option" where
  "saveError err e = (case e of None \<Rightarrow> Some err | Some _ \<Rightarrow> e)"

definition decode_int :: "int decode" where
  "decode_int v = (\<lambda>(e, x).
     case v of
       VNull \<Rightarrow> (e, x)
     | VNum lit \<Rightarrow> (case Atoi lit of Some n \<Rightarrow> (e, n) | None \<Rightarrow> (saveError TypeMismatch e, x))
     | _ \<Rightarrow> (saveError TypeMismatch e, x))"

definition decode_text :: "string decode" where
  "decode_text v = (\<lambda>(e, x).
     case v of VNull \<Rightarrow> (e, x) | VStr s \<Rightarrow> (e, s) | _ \<Rightarrow> (saveError TypeMismatch e, x))"

text \<open>
  The folding of names: ASCII letters to upper case, and the two other characters that fold to an
  ASCII letter, the long s and the Kelvin sign.
\<close>

definition upper_char :: "char \<Rightarrow> char" where
  "upper_char c = (if 97 \<le> byte c \<and> byte c \<le> 122 then char_of (byte c - 32) else c)"

function foldName :: "string \<Rightarrow> string" where
  "foldName [] = []"
| "foldName (c # s) =
     (if c = CHR 0xC5 \<and> take 1 s = [CHR 0xBF] then CHR ''S'' # foldName (drop 1 s)
      else if c = CHR 0xE2 \<and> take 2 s = [CHR 0x84, CHR 0xAA] then CHR ''K'' # foldName (drop 2 s)
      else upper_char c # foldName s)"
  by pat_completeness auto
termination
  by (relation "measure length") auto

declare foldName.simps(2) [simp del]

definition on_field :: "('r \<Rightarrow> 'a) \<Rightarrow> ('a \<Rightarrow> 'r \<Rightarrow> 'r) \<Rightarrow> 'a decode \<Rightarrow> 'r decode" where
  "on_field get put dec v = (\<lambda>(e, r). let (e, x) = dec v (e, get r) in (e, put x r))"

fun decode_members :: "(string \<times> 'r decode) list \<Rightarrow> (string \<times> jval) list \<Rightarrow> 'r decoding \<Rightarrow> 'r decoding" where
  "decode_members fs [] st = st"
| "decode_members fs ((key, v) # ms) (e, r) =
     (case find (\<lambda>(name, f). foldName name = foldName key) fs of
        None \<Rightarrow> decode_members fs ms (saveError (UnknownField key) e, r)
      | Some (name, f) \<Rightarrow> decode_members fs ms (f v (e, r)))"

definition decode_struct :: "(string \<times> 'r decode) list \<Rightarrow> 'r decode" where
  "decode_struct fs v = (\<lambda>(e, r).
     case v of VNull \<Rightarrow> (e, r) | VObj ms \<Rightarrow> decode_members fs ms (e, r) | _ \<Rightarrow> (saveError TypeMismatch e, r))"

record 'a slice =
  sl_arr :: "'a list"
  sl_len :: nat

definition nil_slice :: "'a slice" where
  "nil_slice = \<lparr>sl_arr = [], sl_len = 0\<rparr>"

definition slice_list :: "'a slice \<Rightarrow> 'a list" where
  "slice_list sl = take (sl_len sl) (sl_arr sl)"

fun decode_elems :: "'a decode \<Rightarrow> 'a \<Rightarrow> jval list \<Rightarrow> json_error option \<times> 'a list \<Rightarrow> json_error option \<times> 'a list" where
  "decode_elems dec zero [] (e, arr) = (e, arr)"
| "decode_elems dec zero (v # vs) (e, arr) =
     (let (e, x) = dec v (e, case arr of [] \<Rightarrow> zero | y # _ \<Rightarrow> y);
          (e, xs) = decode_elems dec zero vs (e, tl arr)
      in (e, x # xs))"

definition decode_slice :: "'a decode \<Rightarrow> 'a \<Rightarrow> 'a slice decode" where
  "decode_slice dec zero v = (\<lambda>(e, sl).
     case v of
       VNull \<Rightarrow> (e, nil_slice)
     | VArr vs \<Rightarrow>
         if vs = [] then (e, nil_slice)
         else let (e, arr) = decode_elems dec zero vs (e, sl_arr sl) in (e, \<lparr>sl_arr = arr, sl_len = length vs\<rparr>)
     | _ \<Rightarrow> (saveError TypeMismatch e, sl))"

section \<open>The request\<close>

record processTarget =
  tp_PID :: int
  tp_Name :: string
  tp_Arrival :: int
  tp_Burst :: int
  tp_Priority :: int
  tp_IOBursts :: "IOBurstInput slice"

record requestTarget =
  tr_Algorithm :: string
  tr_TimeQuantum :: int
  tr_Speed :: int
  tr_Processes :: "processTarget slice"

definition zero_burst :: IOBurstInput where
  "zero_burst = \<lparr>in_AfterCPUTime = 0, in_Duration = 0\<rparr>"

definition zero_process :: processTarget where
  "zero_process = \<lparr>tp_PID = 0, tp_Name = [], tp_Arrival = 0, tp_Burst = 0, tp_Priority = 0, tp_IOBursts = nil_slice\<rparr>"

definition zero_request :: requestTarget where
  "zero_request = \<lparr>tr_Algorithm = [], tr_TimeQuantum = 0, tr_Speed = 0, tr_Processes = nil_slice\<rparr>"

definition decode_burst :: "IOBurstInput decode" where
  "decode_burst = decode_struct
     [(''afterCPUTime'', on_field in_AfterCPUTime (\<lambda>x r. r\<lparr>in_AfterCPUTime := x\<rparr>) decode_int),
      (''duration'', on_field in_Duration (\<lambda>x r. r\<lparr>in_Duration := x\<rparr>) decode_int)]"

definition decode_process :: "processTarget decode" where
  "decode_process = decode_struct
     [(''pid'', on_field tp_PID (\<lambda>x r. r\<lparr>tp_PID := x\<rparr>) decode_int),
      (''name'', on_field tp_Name (\<lambda>x r. r\<lparr>tp_Name := x\<rparr>) decode_text),
      (''arrivalTime'', on_field tp_Arrival (\<lambda>x r. r\<lparr>tp_Arrival := x\<rparr>) decode_int),
      (''burstTime'', on_field tp_Burst (\<lambda>x r. r\<lparr>tp_Burst := x\<rparr>) decode_int),
      (''priority'', on_field tp_Priority (\<lambda>x r. r\<lparr>tp_Priority := x\<rparr>) decode_int),
      (''ioBursts'', on_field tp_IOBursts (\<lambda>x r. r\<lparr>tp_IOBursts := x\<rparr>) (decode_slice decode_burst zero_burst))]"

definition decode_request :: "requestTarget decode" where
  "decode_request = decode_struct
     [(''algorithm'', on_field tr_Algorithm (\<lambda>x r. r\<lparr>tr_Algorithm := x\<rparr>) decode_text),
      (''timeQuantum'', on_field tr_TimeQuantum (\<lambda>x r. r\<lparr>tr_TimeQuantum := x\<rparr>) decode_int),
      (''speed'', on_field tr_Speed (\<lambda>x r. r\<lparr>tr_Speed := x\<rparr>) decode_int),
      (''processes'', on_field tr_Processes (\<lambda>x r. r\<lparr>tr_Processes := x\<rparr>) (decode_slice decode_process zero_process))]"

definition process_of :: "processTarget \<Rightarrow> ProcessInput" where
  "process_of t =
     \<lparr>in_PID = tp_PID t, in_Name = tp_Name t, in_Arrival = tp_Arrival t, in_Burst = tp_Burst t, in_Priority = tp_Priority t,
      in_IOBursts = slice_list (tp_IOBursts t)\<rparr>"

definition request_of :: "requestTarget \<Rightarrow> simulateRequest" where
  "request_of t =
     \<lparr>req_Algorithm = tr_Algorithm t, req_TimeQuantum = tr_TimeQuantum t, req_Speed = tr_Speed t,
      req_Processes = map process_of (slice_list (tr_Processes t))\<rparr>"

text \<open>
  \<^verbatim>\<open>http.MaxBytesReader\<close> hands out a mebibyte at most. The decoder takes the first value and does
  not look at what follows; it knows the end of a value that has no closing bracket only from the
  byte after it, or from the end of the body.
\<close>

definition maxBody :: nat where
  "maxBody = 1048576"

fun bracketed :: "jval \<Rightarrow> bool" where
  "bracketed (VArr _) \<longleftrightarrow> True"
| "bracketed (VObj _) \<longleftrightarrow> True"
| "bracketed _ \<longleftrightarrow> False"

definition decodeJSON :: "string \<Rightarrow> json_error + simulateRequest" where
  "decodeJSON bod =
     (let tooLarge = maxBody < length bod
      in case parse_value 0 (take maxBody bod) of
           Invalid \<Rightarrow> Inl SyntaxError
         | Truncated \<Rightarrow>
             Inl (if tooLarge then BodyTooLarge else if list_all json_space bod then EmptyBody else UnexpectedEOF)
         | Parsed v rest \<Rightarrow>
             if rest = [] \<and> tooLarge \<and> \<not> bracketed v then Inl BodyTooLarge
             else (case decode_request v (None, zero_request) of
                     (Some err, _) \<Rightarrow> Inl err
                   | (None, t) \<Rightarrow> Inr (request_of t)))"

text \<open>The handler on the bytes of the body, given how an error is worded.\<close>

definition postSimulate ::
    "((addr \<Rightarrow> int) \<Rightarrow> addr list \<Rightarrow> addr list) \<Rightarrow> (json_error \<Rightarrow> string) \<Rightarrow> sim_env \<Rightarrow> string \<Rightarrow> Handler \<Rightarrow>
     (response \<times> Handler) option" where
  "postSimulate sortSlice errText env bod h = handleSimulate sortSlice env (map_sum errText id (decodeJSON bod)) h"

lemma empty_body: "decodeJSON [] = Inl EmptyBody"
  by (simp add: decodeJSON_def parse_value.simps skip_space_def)

section \<open>Rendering a configuration\<close>

definition burst_value :: "IOBurstInput \<Rightarrow> jval" where
  "burst_value b =
     VObj [(''afterCPUTime'', VNum (itoa (in_AfterCPUTime b))), (''duration'', VNum (itoa (in_Duration b)))]"

text \<open>An empty slice of I/O bursts is omitted; a slice that is \<^verbatim>\<open>nil\<close> is rendered as \<^verbatim>\<open>null\<close>.\<close>

definition process_value :: "ProcessInput \<Rightarrow> jval" where
  "process_value p =
     VObj ([(''pid'', VNum (itoa (in_PID p))), (''name'', VStr (in_Name p)), (''arrivalTime'', VNum (itoa (in_Arrival p))),
            (''burstTime'', VNum (itoa (in_Burst p))), (''priority'', VNum (itoa (in_Priority p)))] @
           (if in_IOBursts p = [] then [] else [(''ioBursts'', VArr (map burst_value (in_IOBursts p)))]))"

definition config_value :: "SimulationConfig \<Rightarrow> jval" where
  "config_value c =
     VObj ([(''algorithm'', VStr (cfg_Algorithm c))] @
           (if cfg_TimeQuantum c = 0 then [] else [(''timeQuantum'', VNum (itoa (cfg_TimeQuantum c)))]) @
           [(''speed'', VNum (itoa (cfg_Speed c))),
            (''processes'', if cfg_Processes c = [] then VNull else VArr (map process_value (cfg_Processes c)))])"

definition encodeConfig :: "SimulationConfig \<Rightarrow> string" where
  "encodeConfig c = render (config_value c)"

section \<open>What decoding keeps\<close>

text \<open>The contract of a decoder: from valid text it keeps a property of what it decodes into.\<close>

locale decoder =
  fixes dec :: "'a decode" and ok :: "'a \<Rightarrow> bool"
  assumes keeps: "utf8_value v \<Longrightarrow> ok x \<Longrightarrow> ok (snd (dec v (e, x)))"
begin

lemma keeps_elems:
  "utf8_elems vs \<Longrightarrow> ok zero \<Longrightarrow> list_all ok arr \<Longrightarrow> list_all ok (snd (decode_elems dec zero vs (e, arr)))"
proof (induction vs arbitrary: arr e)
  case (Cons v vs)
  let ?x = "case arr of [] \<Rightarrow> zero | y # _ \<Rightarrow> y"
  have "ok (snd (dec v (e, ?x)))" using Cons.prems by (intro keeps) (auto split: list.split)
  moreover have "list_all ok (tl arr)" using Cons.prems(3) by (cases arr) auto
  ultimately show ?case using Cons by (auto simp: Let_def case_prod_beta)
qed simp

lemma keeps_slice:
  assumes "ok zero"
  shows "decoder (decode_slice dec zero) (\<lambda>sl. list_all ok (sl_arr sl))"
proof
  fix v e and sl :: "'a slice"
  assume "utf8_value v" "list_all ok (sl_arr sl)"
  then show "list_all ok (sl_arr (snd (decode_slice dec zero v (e, sl))))"
    using keeps_elems assms by (cases v) (auto simp: decode_slice_def nil_slice_def Let_def case_prod_beta)
qed

lemma keeps_field:
  assumes "\<And>r. okr r \<Longrightarrow> ok (get r)" "\<And>r x. okr r \<Longrightarrow> ok x \<Longrightarrow> okr (put x r)"
  shows "decoder (on_field get put dec) okr"
  using assms keeps by unfold_locales (simp add: on_field_def case_prod_beta Let_def)

end

lemma decode_members_keeps:
  assumes "\<forall>f\<in>set fs. decoder (snd f) ok"
  shows "utf8_members ms \<Longrightarrow> ok r \<Longrightarrow> ok (snd (decode_members fs ms (e, r)))"
proof (induction ms arbitrary: e r)
  case (Cons m ms)
  obtain key v where m: "m = (key, v)" by (cases m)
  show ?case
  proof (cases "find (\<lambda>(name, f). foldName name = foldName key) fs")
    case (Some nf)
    then have "nf \<in> set fs" by (metis find_Some_iff nth_mem)
    then have "ok (snd (snd nf v (e, r)))" using assms Cons.prems m by (auto intro: decoder.keeps)
    then show ?thesis using Some Cons m by (cases nf; cases "snd nf v (e, r)") auto
  qed (use Cons m in simp)
qed simp

lemma decode_struct_keeps: "\<forall>f\<in>set fs. decoder (snd f) ok \<Longrightarrow> decoder (decode_struct fs) ok"
  using decode_members_keeps by (unfold_locales, case_tac v) (auto simp: decode_struct_def)

definition burst_ok :: "IOBurstInput \<Rightarrow> bool" where
  "burst_ok b \<longleftrightarrow> in64 (in_AfterCPUTime b) \<and> in64 (in_Duration b)"

definition process_ok :: "processTarget \<Rightarrow> bool" where
  "process_ok t \<longleftrightarrow> in64 (tp_PID t) \<and> in64 (tp_Arrival t) \<and> in64 (tp_Burst t) \<and> in64 (tp_Priority t) \<and>
     valid_utf8 (tp_Name t) \<and> list_all burst_ok (sl_arr (tp_IOBursts t))"

definition target_ok :: "requestTarget \<Rightarrow> bool" where
  "target_ok t \<longleftrightarrow> valid_utf8 (tr_Algorithm t) \<and> in64 (tr_TimeQuantum t) \<and> in64 (tr_Speed t) \<and>
     list_all process_ok (sl_arr (tr_Processes t))"

interpretation number: decoder decode_int in64
  by (unfold_locales, case_tac v) (auto simp: decode_int_def Atoi_in64 split: option.splits)

interpretation string_value: decoder decode_text valid_utf8
  by (unfold_locales, case_tac v) (auto simp: decode_text_def)

interpretation burst: decoder decode_burst burst_ok
  unfolding decode_burst_def by (rule decode_struct_keeps) (auto simp: burst_ok_def intro!: number.keeps_field)

interpretation bursts: decoder "decode_slice decode_burst zero_burst" "\<lambda>sl. list_all burst_ok (sl_arr sl)"
  by (rule burst.keeps_slice) (simp add: burst_ok_def zero_burst_def in64_def)

interpretation process: decoder decode_process process_ok
  unfolding decode_process_def
  by (rule decode_struct_keeps) (auto simp: process_ok_def intro!: number.keeps_field string_value.keeps_field bursts.keeps_field)

interpretation processes: decoder "decode_slice decode_process zero_process" "\<lambda>sl. list_all process_ok (sl_arr sl)"
  by (rule process.keeps_slice) (simp add: process_ok_def zero_process_def in64_def nil_slice_def)

interpretation request: decoder decode_request target_ok
  unfolding decode_request_def
  by (rule decode_struct_keeps) (auto simp: target_ok_def intro!: number.keeps_field string_value.keeps_field processes.keeps_field)

text \<open>Every decoded request has numbers of 64 bits and valid text.\<close>

definition request_ok :: "simulateRequest \<Rightarrow> bool" where
  "request_ok req \<longleftrightarrow> valid_utf8 (req_Algorithm req) \<and> in64 (req_TimeQuantum req) \<and> in64 (req_Speed req) \<and>
     list_all (\<lambda>p. input64 p \<and> valid_utf8 (in_Name p)) (req_Processes req)"

lemma list_all_take: "list_all P xs \<Longrightarrow> list_all P (take n xs)"
  by (auto simp: list_all_iff dest: in_set_takeD)

lemma decodeJSON_ok:
  assumes "decodeJSON bod = Inr req"
  shows "request_ok req"
proof -
  obtain v rest where p: "parse_value 0 (take maxBody bod) = Parsed v rest"
    using assms by (auto simp: decodeJSON_def Let_def split: parsed.splits)
  obtain t where t: "decode_request v (None, zero_request) = (None, t)" "req = request_of t"
    using assms p by (auto simp: decodeJSON_def Let_def split: if_splits prod.splits option.splits)
  have "target_ok zero_request" by (simp add: target_ok_def zero_request_def in64_def nil_slice_def)
  then have "target_ok t" using request.keeps [OF parse_value_utf8(1) [OF p], of zero_request None] t(1) by simp
  moreover have "input64 (process_of p) \<and> valid_utf8 (in_Name (process_of p))" if "process_ok p" for p
    using that list_all_take [of burst_ok "sl_arr (tp_IOBursts p)"]
    by (simp add: process_of_def process_ok_def input64_def slice_list_def burst_ok_def [abs_def])
  ultimately show ?thesis using list_all_take [of process_ok "sl_arr (tr_Processes t)"]
    by (simp add: t(2) request_of_def request_ok_def target_ok_def slice_list_def list_all_iff)
qed

section \<open>A rendered configuration is read back\<close>

text \<open>The contract of a rendering: decoding it into a zero value gives what was rendered.\<close>

locale codec =
  fixes dec :: "'a decode" and zero :: 'a and enc :: "'b \<Rightarrow> jval" and tgt :: "'b \<Rightarrow> 'a" and fine :: "'b \<Rightarrow> bool"
  assumes read_back: "fine x \<Longrightarrow> dec (enc x) (e, zero) = (e, tgt x)"
begin

lemma elems_back: "list_all fine xs \<Longrightarrow> decode_elems dec zero (map enc xs) (e, []) = (e, map tgt xs)"
  by (induction xs) (auto simp: read_back)

lemma slice_back:
  "list_all fine xs \<Longrightarrow> xs \<noteq> [] \<Longrightarrow>
   decode_slice dec zero (VArr (map enc xs)) (e, nil_slice) = (e, \<lparr>sl_arr = map tgt xs, sl_len = length xs\<rparr>)"
  by (simp add: decode_slice_def nil_slice_def elems_back)

end

lemma foldName_fields [simp]:
  "foldName ''afterCPUTime'' = ''AFTERCPUTIME''" "foldName ''duration'' = ''DURATION''" "foldName ''pid'' = ''PID''"
  "foldName ''name'' = ''NAME''" "foldName ''arrivalTime'' = ''ARRIVALTIME''" "foldName ''burstTime'' = ''BURSTTIME''"
  "foldName ''priority'' = ''PRIORITY''" "foldName ''ioBursts'' = ''IOBURSTS''" "foldName ''algorithm'' = ''ALGORITHM''"
  "foldName ''timeQuantum'' = ''TIMEQUANTUM''" "foldName ''speed'' = ''SPEED''" "foldName ''processes'' = ''PROCESSES''"
  by code_simp+

lemma decode_int_itoa [simp]: "in64 n \<Longrightarrow> decode_int (VNum (itoa n)) (e, x) = (e, n)"
  by (simp add: decode_int_def Atoi_itoa)

lemma decode_text_str [simp]: "decode_text (VStr s) (e, x) = (e, s)"
  by (simp add: decode_text_def)

lemma decode_struct_VObj [simp]: "decode_struct fs (VObj ms) (e, r) = decode_members fs ms (e, r)"
  by (simp add: decode_struct_def)

lemma on_field_step [simp]: "on_field get put dec v (e, r) = (case dec v (e, get r) of (e, x) \<Rightarrow> (e, put x r))"
  by (simp add: on_field_def case_prod_beta Let_def)

interpretation burst: codec decode_burst zero_burst burst_value id burst_ok
  by unfold_locales (simp add: decode_burst_def burst_value_def burst_ok_def zero_burst_def)

definition process_target :: "ProcessInput \<Rightarrow> processTarget" where
  "process_target p =
     \<lparr>tp_PID = in_PID p, tp_Name = in_Name p, tp_Arrival = in_Arrival p, tp_Burst = in_Burst p, tp_Priority = in_Priority p,
      tp_IOBursts = (if in_IOBursts p = [] then nil_slice else \<lparr>sl_arr = in_IOBursts p, sl_len = length (in_IOBursts p)\<rparr>)\<rparr>"

interpretation process: codec decode_process zero_process process_value process_target input64
  by unfold_locales
    (auto simp: decode_process_def process_value_def process_target_def input64_def zero_process_def burst_ok_def [abs_def] nil_slice_def
      burst.slice_back [unfolded nil_slice_def])

lemma process_target_back: "process_of (process_target p) = p"
  by (cases p) (simp add: process_of_def process_target_def slice_list_def nil_slice_def)

definition config_request :: "SimulationConfig \<Rightarrow> simulateRequest" where
  "config_request c =
     \<lparr>req_Algorithm = cfg_Algorithm c, req_TimeQuantum = cfg_TimeQuantum c, req_Speed = cfg_Speed c, req_Processes = cfg_Processes c\<rparr>"

lemma decode_config:
  assumes "request_ok (config_request c)"
  shows "\<exists>t. decode_request (config_value c) (None, zero_request) = (None, t) \<and> request_of t = config_request c"
proof -
  have ok: "in64 (cfg_TimeQuantum c)" "in64 (cfg_Speed c)" "list_all input64 (cfg_Processes c)"
    using assms by (auto simp: request_ok_def config_request_def list_all_iff)
  let ?ps = "if cfg_Processes c = [] then nil_slice
    else \<lparr>sl_arr = map process_target (cfg_Processes c), sl_len = length (cfg_Processes c)\<rparr>"
  have n: "decode_slice decode_process zero_process VNull (e, sl) = (e, nil_slice)" for e sl by (simp add: decode_slice_def)
  have "decode_request (config_value c) (None, zero_request) = (None,
      \<lparr>tr_Algorithm = cfg_Algorithm c, tr_TimeQuantum = cfg_TimeQuantum c, tr_Speed = cfg_Speed c, tr_Processes = ?ps\<rparr>)"
    using ok n process.slice_back [OF ok(3)] by (simp add: decode_request_def config_value_def zero_request_def)
  then show ?thesis
    by (auto simp: request_of_def config_request_def slice_list_def nil_slice_def comp_def process_target_back)
qed

lemma renderable_elems_all: "renderable_elems xs \<longleftrightarrow> list_all renderable xs"
  by (induction xs) auto

lemma depth_elems_all: "depth_elems xs \<le> n \<longleftrightarrow> list_all (\<lambda>v. depth v \<le> n) xs"
  by (induction xs) auto

lemma ascii_utf8: "list_all (\<lambda>c. byte c < 0x80) s \<Longrightarrow> valid_utf8 s"
  by (induction s) (auto simp: valid_utf8.simps(2) utf8_size.simps(2))

lemma process_renderable: "valid_utf8 (in_Name p) \<Longrightarrow> renderable (process_value p)" "depth (process_value p) \<le> 3"
proof -
  have b: "renderable (burst_value b)" "depth (burst_value b) \<le> 1" for b
    by (auto simp: burst_value_def ascii_utf8)
  have "depth_elems (map burst_value (in_IOBursts p)) \<le> 1" using b(2) by (simp add: depth_elems_all list_all_iff)
  then show "depth (process_value p) \<le> 3" by (auto simp: process_value_def)
  show "valid_utf8 (in_Name p) \<Longrightarrow> renderable (process_value p)"
    using b(1) by (auto simp: process_value_def ascii_utf8 renderable_elems_all list_all_iff)
qed

lemma config_renderable:
  assumes "request_ok (config_request c)"
  shows "renderable (config_value c)" "depth (config_value c) \<le> 5"
proof -
  have "depth_elems (map process_value (cfg_Processes c)) \<le> 3" using process_renderable(2) by (simp add: depth_elems_all list_all_iff)
  then show "depth (config_value c) \<le> 5" by (auto simp: config_value_def)
  show "renderable (config_value c)" using assms process_renderable(1)
    by (auto simp: config_value_def ascii_utf8 renderable_elems_all list_all_iff request_ok_def config_request_def)
qed

lemma decode_encodeConfig:
  assumes "request_ok (config_request c)" "length (encodeConfig c) \<le> maxBody"
  shows "decodeJSON (encodeConfig c) = Inr (config_request c)"
proof -
  have "parse_value 0 (encodeConfig c @ []) = Parsed (config_value c) []"
    unfolding encodeConfig_def using config_renderable [OF assms(1)] by (intro parse_render(1)) (simp_all add: maxNestingDepth_def)
  moreover obtain t where "decode_request (config_value c) (None, zero_request) = (None, t)" "request_of t = config_request c"
    using decode_config [OF assms(1)] by blast
  ultimately show ?thesis using assms(2) by (simp add: decodeJSON_def Let_def)
qed

section \<open>Requests as bytes\<close>

definition valid_body :: "string \<Rightarrow> bool" where
  "valid_body bod \<longleftrightarrow> (case decodeJSON bod of Inl _ \<Rightarrow> False | Inr req \<Rightarrow> valid_request (Inr req))"

lemma valid_body_request: "valid_body bod \<longleftrightarrow> valid_request (map_sum errText id (decodeJSON bod))"
  by (cases "decodeJSON bod") (simp_all add: valid_body_def valid_request_def)

definition demo_config :: SimulationConfig where
  "demo_config = \<lparr>cfg_Algorithm = ''rr'', cfg_TimeQuantum = 2, cfg_Speed = 0, cfg_Processes = req_Processes demo_request\<rparr>"

lemma demo_config_request: "config_request demo_config = demo_request"
  by (simp add: config_request_def demo_config_def demo_request_def)

lemma demo_body_decodes: "decodeJSON (encodeConfig demo_config) = Inr demo_request"
proof -
  have "length (encodeConfig demo_config) < 200" by code_simp
  then have "length (encodeConfig demo_config) \<le> maxBody" by (simp add: maxBody_def)
  moreover have "request_ok demo_request"
    by (simp add: request_ok_def demo_request_def input64_def in64_def valid_utf8.simps(2) utf8_size.simps(2))
  ultimately show ?thesis using decode_encodeConfig [of demo_config] by (simp add: demo_config_request)
qed

text \<open>
  C15: The handler copes with every body whatsoever. It never panics, and its status tells what
  happened: 503 exactly when no slot is free, 400 exactly when the bytes are not a JSON object with
  known fields of the right types within the size limit, or name no process, an unknown algorithm or
  a process with a negative PID or arrival or a burst below 1, and otherwise 200, 504 or 499. The
  slot is given back in every case, only 200 changes the history, and a rejected request changes
  nothing at all. Every update of the metrics fits a registered instrument, so that it does not panic.
\<close>

theorem simulate_outcomes:
  assumes "slice_sort sortSlice" "int (e_turns env) \<le> MaxInt64"
  shows "\<exists>r h'. postSimulate sortSlice errText env bod h = Some (r, h') \<and> rs_status r \<in> {200, 400, 499, 503, 504} \<and>
    (rs_status r = 503 \<longleftrightarrow> acquire h = None) \<and>
    (rs_status r = 400 \<longleftrightarrow> acquire h \<noteq> None \<and> \<not> valid_body bod) \<and>
    h_simSem h' = h_simSem h \<and> (rs_status r \<noteq> 200 \<longrightarrow> h_store h' = h_store h) \<and>
    (rs_status r \<in> {400, 503} \<longrightarrow> h' = h) \<and>
    (list_all registered (h_metrics h) \<longrightarrow> list_all registered (h_metrics h'))"
proof -
  have "case map_sum errText id (decodeJSON bod) of Inl _ \<Rightarrow> True | Inr req \<Rightarrow> list_all input64 (req_Processes req)"
    using decodeJSON_ok [of bod] by (cases "decodeJSON bod") (auto simp: request_ok_def list_all_iff)
  from handleSimulate_outcomes [OF assms this, of h] show ?thesis
    unfolding postSimulate_def valid_body_request [of _ errText] .
qed

theorem simulate_outcomes_witness:
  "\<exists>r h'. postSimulate (\<lambda>key. sort_key key) (\<lambda>_. []) (demo_env 9) (encodeConfig demo_config) (NewHandler (Store_New 3) 4 100 0) = Some (r, h') \<and>
     rs_status r \<noteq> 503 \<and> rs_status r \<noteq> 400 \<and> list_all registered (h_metrics h')"
proof -
  have a: "acquire (NewHandler (Store_New 3) 4 100 0) \<noteq> None" by (simp add: NewHandler_def acquire_def)
  have v: "valid_body (encodeConfig demo_config)" using demo_request_valid(1) by (simp add: valid_body_def demo_body_decodes)
  have "int (e_turns (demo_env 9)) \<le> MaxInt64" by (simp add: demo_env_def)
  from simulate_outcomes [OF stable.slice_sort_axioms this, of "\<lambda>_. []" "encodeConfig demo_config" "NewHandler (Store_New 3) 4 100 0"]
  show ?thesis using v a by (auto simp: NewHandler_def)
qed

section \<open>Replaying a record\<close>

lemma runTicks_more:
  "runTicks n s = Some s' \<Longrightarrow> sim_state s' = SimStateComplete \<Longrightarrow> sim_state s \<noteq> SimStateComplete \<Longrightarrow> n \<le> m \<Longrightarrow> runTicks m s = Some s'"
proof (induction n arbitrary: s m)
  case (Suc n)
  obtain k where m: "m = Suc k" "n \<le> k" using Suc.prems(4) by (cases m) auto
  obtain t where t: "runTick s = Some t" using Suc.prems(1) by (auto simp: bind_eq_Some_conv)
  then show ?case using Suc m by (cases "sim_state t = SimStateComplete") auto
qed simp

lemma config_request_record: "config_request (r_Config (new_record env name req s h)) = req"
  by (cases req) (simp add: config_request_def new_record_def)

lemma with_defaults_ok:
  assumes "request_ok req" "in64 (h_defaultQuantum h)" "in64 (h_defaultSpeed h)"
  shows "request_ok (with_defaults h req)"
  using assms by (simp add: request_ok_def with_defaults_def)

text \<open>What an answer with status 200 says about the run behind it.\<close>

lemma postSimulate_200:
  assumes "postSimulate sortSlice errText env bod h = Some (\<lparr>rs_status = 200, rs_body = SimulateBody resp\<rparr>, h')"
  obtains h1 req sched name s h2 where "acquire h = Some h1" "decodeJSON bod = Inr req" "valid_request (Inr req)"
    "buildScheduler (req_Algorithm req) (req_TimeQuantum (with_defaults h1 req)) = Inr (sched, name)"
    "runTicks (e_turns env) (request_sim sortSlice sched req) = Some s" "sim_state s = SimStateComplete"
    "resp_State resp = snapshotState (e_now env) s" "resp_ID resp = r_ID (new_record env name (with_defaults h1 req) s h1)"
    "simulate sortSlice env (Inr req) h1 = Some (\<lparr>rs_status = 200, rs_body = SimulateBody resp\<rparr>, h2)"
    "h_store h2 = Save (new_record env name (with_defaults h1 req) s h1) (h_store h1)" "h' = release h2"
proof -
  let ?bod = "map_sum errText id (decodeJSON bod)"
  obtain h1 h2 where h1: "acquire h = Some h1" and h2: "simulate sortSlice env ?bod h1 = Some (\<lparr>rs_status = 200, rs_body = SimulateBody resp\<rparr>, h2)"
    "h' = release h2"
    using assms by (auto simp: postSimulate_def handleSimulate_def writeError_def split: option.splits)
  have v: "valid_request ?bod"
  proof (rule ccontr)
    assume "\<not> valid_request ?bod"
    from simulate_invalid [OF this, of sortSlice env h1] show False using h2(1) by (auto simp: writeError_def)
  qed
  then obtain req where req: "decodeJSON bod = Inr req" by (cases "decodeJSON bod") (auto simp: valid_request_def)
  obtain sched name where b: "buildScheduler (req_Algorithm req) (req_TimeQuantum (with_defaults h1 req)) = Inr (sched, name)"
    and sim: "\<And>env. simulate sortSlice env (Inr req) h1 =
      map_option (\<lambda>s. finish env name (with_defaults h1 req) s h1) (runTicks (e_turns env) (request_sim sortSlice sched req))"
    using simulate_valid [of req h1] v req by auto
  obtain s where s: "runTicks (e_turns env) (request_sim sortSlice sched req) = Some s"
    "finish env name (with_defaults h1 req) s h1 = (\<lparr>rs_status = 200, rs_body = SimulateBody resp\<rparr>, h2)"
    using sim h2(1) req by auto
  have "sim_state s = SimStateComplete"
    using s(2) by (auto simp: finish_def Let_def writeError_def split: if_splits wake.splits)
  with s(2) have "resp_State resp = snapshotState (e_now env) s \<and> resp_ID resp = r_ID (new_record env name (with_defaults h1 req) s h1) \<and>
      h_store h2 = Save (new_record env name (with_defaults h1 req) s h1) (h_store h1)"
    by (auto simp: finish_def Let_def writeJSON_def)
  with that h1 h2 req v b s(1) \<open>sim_state s = SimStateComplete\<close> show thesis by auto
qed

text \<open>A rendered configuration that is posted runs the simulation that it describes.\<close>

lemma configuration_runs:
  assumes "request_ok (config_request cfg)" "length (encodeConfig cfg) \<le> maxBody" "acquire g \<noteq> None"
    and "valid_request (Inr (config_request cfg))" "1 \<le> req_TimeQuantum (config_request cfg)"
    and b: "buildScheduler (req_Algorithm (config_request cfg)) (req_TimeQuantum (config_request cfg)) = Inr (sched, name)"
    and s: "runTicks n (request_sim sortSlice sched (config_request cfg)) = Some s" "sim_state s = SimStateComplete"
    and time: "n \<le> e_turns env"
  shows "\<exists>resp g'. postSimulate sortSlice errText env (encodeConfig cfg) g = Some (\<lparr>rs_status = 200, rs_body = SimulateBody resp\<rparr>, g') \<and>
    resp_State resp = snapshotState (e_now env) s"
proof -
  let ?req = "config_request cfg"
  obtain g1 where g1: "acquire g = Some g1" using assms(3) by blast
  note dec = decode_encodeConfig [OF assms(1,2)]
  have q: "req_TimeQuantum (with_defaults g1 ?req) = req_TimeQuantum ?req" using assms(5) by (simp add: with_defaults_def)
  obtain sched' name' where b': "buildScheduler (req_Algorithm ?req) (req_TimeQuantum (with_defaults g1 ?req)) = Inr (sched', name')"
    and sim: "\<And>env. simulate sortSlice env (Inr ?req) g1 =
      map_option (\<lambda>s. finish env name' (with_defaults g1 ?req) s g1) (runTicks (e_turns env) (request_sim sortSlice sched' ?req))"
    using simulate_valid [OF assms(4), of g1] by metis
  have "sched' = sched" using b b' q by simp
  moreover have "sim_state (request_sim sortSlice sched ?req) \<noteq> SimStateComplete" by (simp add: request_sim_eq)
  ultimately have "runTicks (e_turns env) (request_sim sortSlice sched' ?req) = Some s"
    using runTicks_more [OF s _ time] by simp
  then show ?thesis using sim s(2) g1 dec
    by (simp add: postSimulate_def handleSimulate_def finish_def Let_def writeJSON_def)
qed

text \<open>
  C5: Every simulation can be repeated from its record. When a body was answered with status 200, the
  record can be fetched under the returned ID and holds the returned state and the request with its
  defaults filled in; and when its configuration,
  as the server renders it, is posted again, to any handler with a free slot and with at least as much
  time, the answer is again 200 with exactly the same state but for the time stamp of the metrics. The
  configuration must fit the size limit of a body, and the defaults must be positive 64-bit numbers.
\<close>

theorem record_replays:
  assumes "api_run sortSlice h k" "h_idCounter h \<noteq> - 1" "1 \<le> h_defaultQuantum h" "in64 (h_defaultQuantum h)" "in64 (h_defaultSpeed h)"
    and "postSimulate sortSlice errText env bod h = Some (\<lparr>rs_status = 200, rs_body = SimulateBody resp\<rparr>, h')"
  shows "\<exists>req rec. decodeJSON bod = Inr req \<and> handleGet (resp_ID resp) h' = \<lparr>rs_status = 200, rs_body = RecordBody rec\<rparr> \<and>
    config_request (r_Config rec) = with_defaults h req \<and> r_FinalState rec = Some (resp_State resp) \<and>
    (length (encodeConfig (r_Config rec)) \<le> maxBody \<longrightarrow>
      (\<forall>g env'. acquire g \<noteq> None \<and> e_turns env \<le> e_turns env' \<longrightarrow>
        (\<exists>resp' g'. postSimulate sortSlice errText env' (encodeConfig (r_Config rec)) g =
            Some (\<lparr>rs_status = 200, rs_body = SimulateBody resp'\<rparr>, g') \<and>
          resp_State resp' =
            (resp_State resp)\<lparr>u_Metrics := (u_Metrics (resp_State resp))\<lparr>m_Timestamp := e_now env'\<rparr>\<rparr>)))"
proof -
  obtain h1 req sched name s h2 where h1: "acquire h = Some h1" and req: "decodeJSON bod = Inr req" "valid_request (Inr req)"
    and b: "buildScheduler (req_Algorithm req) (req_TimeQuantum (with_defaults h1 req)) = Inr (sched, name)"
    and s: "runTicks (e_turns env) (request_sim sortSlice sched req) = Some s" "sim_state s = SimStateComplete"
    and resp: "resp_State resp = snapshotState (e_now env) s" "resp_ID resp = r_ID (new_record env name (with_defaults h1 req) s h1)"
    and h2: "simulate sortSlice env (Inr req) h1 = Some (\<lparr>rs_status = 200, rs_body = SimulateBody resp\<rparr>, h2)"
      "h_store h2 = Save (new_record env name (with_defaults h1 req) s h1) (h_store h1)" "h' = release h2"
    by (rule postSimulate_200 [OF assms(6)])
  let ?req = "with_defaults h1 req" and ?rec = "new_record env name (with_defaults h1 req) s h1"
  note fr = acquire_frame [OF h1]
  have "api_run sortSlice (release h2) k"
    using assms(2) fr(2) by (intro api_run.finish [OF api_run.admit [OF assms(1) h1] _ h2(1)]) simp
  then have d: "distinct (map r_ID (records (h_store h2)))" using api_run_inv [of sortSlice "release h2" k] by (simp add: api_inv_def)
  have "?rec \<in> set (records (h_store h2))" by (simp add: h2(2) Save_records)
  then have "Get (resp_ID resp) (h_store h2) = Some ?rec" unfolding resp(2) by (rule Get_distinct [OF d])
  moreover have "resp_ID resp \<noteq> []" by (simp add: resp(2) new_record_def generateID_def Let_def)
  ultimately have get: "handleGet (resp_ID resp) h' = \<lparr>rs_status = 200, rs_body = RecordBody ?rec\<rparr>"
    by (simp add: h2(3) handleGet_def writeJSON_def)
  have df: "h_defaultQuantum h1 = h_defaultQuantum h" "h_defaultSpeed h1 = h_defaultSpeed h"
    using h1 by (auto simp: acquire_def split: option.splits if_splits)
  have rok: "request_ok (config_request (r_Config ?rec))"
    unfolding config_request_record using with_defaults_ok [OF decodeJSON_ok [OF req(1)], of h1] assms(4,5) df by simp
  have "1 \<le> req_TimeQuantum ?req" "valid_request (Inr ?req)"
    using assms(3) df req(2) by (simp_all add: with_defaults_def valid_request_def)
  moreover have "request_sim sortSlice sched ?req = request_sim sortSlice sched req" by (simp add: request_sim_def)
  ultimately have again: "\<exists>resp' g'. postSimulate sortSlice errText env' (encodeConfig (r_Config ?rec)) g =
        Some (\<lparr>rs_status = 200, rs_body = SimulateBody resp'\<rparr>, g') \<and> resp_State resp' = snapshotState (e_now env') s"
    if "length (encodeConfig (r_Config ?rec)) \<le> maxBody" "acquire g \<noteq> None" "e_turns env \<le> e_turns env'" for g env'
    using configuration_runs [OF rok that(1,2) _ _ _ _ s(2) that(3)] b s(1) by (simp add: config_request_record)
  have stamp: "snapshotState now s = (resp_State resp)\<lparr>u_Metrics := (u_Metrics (resp_State resp))\<lparr>m_Timestamp := now\<rparr>\<rparr>" for now
    unfolding resp(1) by (simp add: snapshotState_def calculateMetrics_def Let_def case_prod_beta)
  have "r_FinalState ?rec = Some (resp_State resp)" by (simp add: new_record_def resp(1))
  moreover have "config_request (r_Config ?rec) = with_defaults h req"
    by (simp add: config_request_record with_defaults_def df)
  ultimately show ?thesis using req(1) get again stamp by metis
qed

theorem record_replays_witness:
  "\<exists>resp h' resp' g'. postSimulate (\<lambda>key. sort_key key) (\<lambda>_. []) (demo_env 9) (encodeConfig demo_config) (NewHandler (Store_New 3) 4 100 1) =
       Some (\<lparr>rs_status = 200, rs_body = SimulateBody resp\<rparr>, h') \<and>
     postSimulate (\<lambda>key. sort_key key) (\<lambda>_. []) (demo_env 20) (encodeConfig (demo_config\<lparr>cfg_Speed := 100\<rparr>)) (NewHandler (Store_New 7) 1 1 0) =
       Some (\<lparr>rs_status = 200, rs_body = SimulateBody resp'\<rparr>, g') \<and>
     u_GanttChart (resp_State resp') = u_GanttChart (resp_State resp)"
proof -
  let ?h = "NewHandler (Store_New 3) 4 100 1" and ?g = "NewHandler (Store_New 7) 1 1 0" and ?c = "demo_config\<lparr>cfg_Speed := 100\<rparr>"
  have h: "h_idCounter ?h \<noteq> - 1" "acquire ?h \<noteq> None" "1 \<le> h_defaultQuantum ?h" "in64 (h_defaultQuantum ?h)" "in64 (h_defaultSpeed ?h)"
    by (simp_all add: NewHandler_def acquire_def in64_def)
  have p: "\<forall>p\<in>set (req_Processes demo_request). input64 p \<and> in_Arrival p \<le> 0"
    using demo_request_valid(2) by (simp add: demo_request_def)
  have t: "0 + (\<Sum>p\<leftarrow>req_Processes demo_request. demand (buildProcess p)) \<le> int (e_turns (demo_env 9))"
    by (simp add: demo_request_def demo_env_def demand_def buildProcess_eq) (simp add: NewProcess_def)
  have "int (e_turns (demo_env 9)) \<le> MaxInt64" by (simp add: demo_env_def)
  from simulate_completes [OF stable.slice_sort_axioms api_run.start h(1,2) demo_request_valid(1) p t this]
  obtain resp h' where r: "postSimulate (\<lambda>key. sort_key key) (\<lambda>_. []) (demo_env 9) (encodeConfig demo_config) ?h =
      Some (\<lparr>rs_status = 200, rs_body = SimulateBody resp\<rparr>, h')"
    by (auto simp: postSimulate_def demo_body_decodes)
  from record_replays [OF api_run.start h(1,3,4,5) r] obtain req and rec :: SimRecord where req: "decodeJSON (encodeConfig demo_config) = Inr req"
    and rec: "config_request (r_Config rec) = with_defaults ?h req"
    and again: "length (encodeConfig (r_Config rec)) \<le> maxBody \<longrightarrow>
      (\<forall>g env'. acquire g \<noteq> None \<and> e_turns (demo_env 9) \<le> e_turns env' \<longrightarrow>
        (\<exists>resp' g'. postSimulate (\<lambda>key. sort_key key) (\<lambda>_. []) env' (encodeConfig (r_Config rec)) g =
            Some (\<lparr>rs_status = 200, rs_body = SimulateBody resp'\<rparr>, g') \<and>
          resp_State resp' = (resp_State resp)\<lparr>u_Metrics := (u_Metrics (resp_State resp))\<lparr>m_Timestamp := e_now env'\<rparr>\<rparr>))"
    by blast
  from req have [simp]: "req = demo_request" by (simp add: demo_body_decodes)
  have c: "r_Config rec = ?c"
    using rec by (cases "r_Config rec") (simp add: config_request_def with_defaults_def NewHandler_def demo_config_def demo_request_def)
  have "length (encodeConfig ?c) < 200" by code_simp
  then have "length (encodeConfig ?c) \<le> maxBody" by (simp add: maxBody_def)
  moreover have "acquire ?g \<noteq> None \<and> e_turns (demo_env 9) \<le> e_turns (demo_env 20)"
    by (simp add: NewHandler_def acquire_def demo_env_def)
  ultimately obtain g' and resp' :: simulateResponse where g: "postSimulate (\<lambda>key. sort_key key) (\<lambda>_. []) (demo_env 20) (encodeConfig ?c) ?g =
      Some (\<lparr>rs_status = 200, rs_body = SimulateBody resp'\<rparr>, g')"
    and "resp_State resp' = (resp_State resp)\<lparr>u_Metrics := (u_Metrics (resp_State resp))\<lparr>m_Timestamp := e_now (demo_env 20)\<rparr>\<rparr>"
    using again unfolding c by blast
  then have "u_GanttChart (resp_State resp') = u_GanttChart (resp_State resp)" by simp
  with r g show ?thesis by blast
qed

end
