(* ===== verification/Router.thy ===== *)
theory Router
  imports Http_App Api_Json
begin

text \<open>
  The routes of the server: the table that \<^verbatim>\<open>api.Register\<close> and \<^verbatim>\<open>main\<close> build, the matching of
  \<^verbatim>\<open>http.ServeMux\<close> on it, and the handlers behind it, on a state that holds the REST handler and
  the WebSocket server. A path is a decoded path, so an escaped slash is a slash. The static files,
  the page of the Prometheus library and the redirection of paths that are not clean are arguments,
  and so is what the WebSocket library says of a handshake and what a session does to the server. The lemmas show that the routes exclude each other, that the stack of
  \<^verbatim>\<open>main\<close> hands an answer through unchanged, and that a simulation can be fetched by its ID.
\<close>

section \<open>Patterns\<close>

datatype seg = Lit string | Wild string

record pattern =
  pt_method :: string
  pt_segs :: "seg list"
  pt_subtree :: bool

definition parse_seg :: "string \<Rightarrow> seg" where
  "parse_seg x = (if x \<noteq> [] \<and> hd x = CHR ''{'' \<and> last x = CHR ''}'' then Wild (butlast (tl x)) else Lit x)"

text \<open>A pattern is a path, or a method, a space and a path; one that ends in a slash is a subtree.\<close>

definition parse_pattern :: "string \<Rightarrow> pattern" where
  "parse_pattern s =
     (let (m, path) = (case Split (CHR '' '') s of [m, path] \<Rightarrow> (m, path) | _ \<Rightarrow> ([], s));
          segs = Split (CHR ''/'') (tl path)
      in if last segs = []
         then \<lparr>pt_method = m, pt_segs = map parse_seg (butlast segs), pt_subtree = True\<rparr>
         else \<lparr>pt_method = m, pt_segs = map parse_seg segs, pt_subtree = False\<rparr>)"

text \<open>A wildcard stands for one segment that is not empty; \<^verbatim>\<open>GET\<close> also stands for \<^verbatim>\<open>HEAD\<close>.\<close>

fun seg_match :: "seg \<Rightarrow> string \<Rightarrow> bool" where
  "seg_match (Lit s) x \<longleftrightarrow> x = s"
| "seg_match (Wild n) x \<longleftrightarrow> x \<noteq> []"

definition matches :: "pattern \<Rightarrow> string \<Rightarrow> string list \<Rightarrow> bool" where
  "matches p m segs \<longleftrightarrow>
     (pt_method p = [] \<or> pt_method p = m \<or> pt_method p = ''GET'' \<and> m = ''HEAD'') \<and>
     (if pt_subtree p
      then length (pt_segs p) < length segs \<and> list_all2 seg_match (pt_segs p) (take (length (pt_segs p)) segs)
      else list_all2 seg_match (pt_segs p) segs)"

text \<open>A pattern for one path is more specific than a subtree; \<open>exact_routes_exclusive\<close> below shows that there is no other choice.\<close>

definition find_route :: "(pattern \<times> 'e) list \<Rightarrow> string \<Rightarrow> string list \<Rightarrow> (pattern \<times> 'e) option" where
  "find_route routes m segs =
     (let hits = filter (\<lambda>(p, e). matches p m segs) routes
      in case find (\<lambda>(p, e). \<not> pt_subtree p) hits of
           Some hit \<Rightarrow> Some hit
         | None \<Rightarrow> (case hits of [] \<Rightarrow> None | hit # _ \<Rightarrow> Some hit))"

fun PathValue :: "string \<Rightarrow> seg list \<Rightarrow> string list \<Rightarrow> string" where
  "PathValue n (Wild m # ps) (x # xs) = (if m = n then x else PathValue n ps xs)"
| "PathValue n (Lit s # ps) (x # xs) = PathValue n ps xs"
| "PathValue n _ _ = []"

text \<open>A path that the router does not redirect: no empty segment but the last, no dots to resolve.\<close>

definition clean_path :: "string \<Rightarrow> bool" where
  "clean_path path \<longleftrightarrow>
     path \<noteq> [] \<and> hd path = CHR ''/'' \<and>
     (let segs = Split (CHR ''/'') (tl path)
      in list_all (\<lambda>x. x \<noteq> []) (butlast segs) \<and> list_all (\<lambda>x. x \<noteq> ''.'' \<and> x \<noteq> ''..'') segs)"

section \<open>The routes of the server\<close>

datatype endpoint =
    ApiVersion | ApiAlgorithms | ApiSimulate | ApiList | ApiGet
  | StaticFiles | WebSocket | Health | MetricsPage | BuildVersion

definition Register :: "(pattern \<times> endpoint) list" where
  "Register =
     [(parse_pattern ''GET /api/version'', ApiVersion),
      (parse_pattern ''GET /api/algorithms'', ApiAlgorithms),
      (parse_pattern ''POST /api/simulate'', ApiSimulate),
      (parse_pattern ''GET /api/simulations'', ApiList),
      (parse_pattern ''GET /api/simulations/{id}'', ApiGet)]"

definition main_routes :: "Config \<Rightarrow> (pattern \<times> endpoint) list" where
  "main_routes cfg =
     Register @
     [(parse_pattern ''/'', StaticFiles),
      (parse_pattern ''/ws'', WebSocket),
      (parse_pattern ''/health'', Health)] @
     (if EnableMetrics cfg then [(parse_pattern ''/metrics'', MetricsPage)] else []) @
     [(parse_pattern ''/version'', BuildVersion)]"

definition version_Version :: string where
  "version_Version = ''dev''"

definition buildVersion :: string where
  "buildVersion = version_Version"

record server_app =
  ap_api :: Handler
  ap_web :: Server

record deps =
  d_sort :: "(addr \<Rightarrow> int) \<Rightarrow> addr list \<Rightarrow> addr list"
  d_env :: "request \<Rightarrow> sim_env"
  d_body :: "request \<Rightarrow> string"
  d_errText :: "json_error \<Rightarrow> string"
  d_query :: "request \<Rightarrow> string \<Rightarrow> string"
  d_bodyLen :: "response \<Rightarrow> int"
  d_wsenv :: "request \<Rightarrow> ws_env"
  d_healthLen :: "health \<Rightarrow> int"
  d_files :: "server_app handler"
  d_handshake :: "request \<Rightarrow> bool \<Rightarrow> int option"
  d_statusText :: "int \<Rightarrow> string"
  d_session :: "request \<Rightarrow> Server \<Rightarrow> Server"
  d_metricsPage :: "server_app handler"
  d_redirect :: "server_app handler"

definition health_endpoint :: "deps \<Rightarrow> server_app handler" where
  "health_endpoint d r w =
     (let w = Header_Set ''Content-Type'' ''application/json'' w;
          w = Header_Set ''Cache-Control'' ''no-store'' w;
          hl = HandleHealth (d_wsenv d r) (ap_web (app w));
          w = (if hl_code hl = 503 then sw_WriteHeader 503 w else w)
      in Returned (sw_Write (d_healthLen d hl) w))"

definition version_endpoint :: "server_app handler" where
  "version_endpoint r w =
     (let w = Header_Set ''Content-Type'' ''application/json'' w
      in Returned (sw_Write (int (length (''{\"version\":\"'' @ buildVersion @ ''\"}''))) w))"

text \<open>
  \<^verbatim>\<open>HandleWebSocket\<close> as the router sees it. The upgrade of the WebSocket library is told what the
  origin check says; it refuses the request with a status, or takes over the connection, on which
  the whole session then takes place before the handler returns.
\<close>

definition ws_endpoint :: "deps \<Rightarrow> server_app handler" where
  "ws_endpoint d r w =
     (let s = ap_web (app w)
      in case d_handshake d r (CheckOrigin s (rq_Header r ''Origin'') (rq_Host r)) of
           Some code \<Rightarrow> Returned (http_Error (d_statusText d code) code w)
         | None \<Rightarrow>
             (case sw_Hijack w of
                (False, w) \<Rightarrow> Returned (http_Error (d_statusText d 500) 500 w)
              | (True, w) \<Rightarrow> Returned (w\<lparr>app := (app w)\<lparr>ap_web := d_session d r s\<rparr>\<rparr>)))"

text \<open>The handlers of the API on the request, the path value and the REST handler.\<close>

definition api_call :: "deps \<Rightarrow> endpoint \<Rightarrow> string \<Rightarrow> request \<Rightarrow> Handler \<Rightarrow> (response \<times> Handler) option" where
  "api_call d e i r h =
     (case e of
        ApiVersion \<Rightarrow> Some (handleVersion version_Version, h)
      | ApiAlgorithms \<Rightarrow> Some (handleAlgorithms, h)
      | ApiSimulate \<Rightarrow> postSimulate (d_sort d) (d_errText d) (d_env d r) (d_body d r) h
      | ApiList \<Rightarrow> Some (handleList (d_query d r ''limit'') h, h)
      | _ \<Rightarrow> Some (handleGet i h, h))"

definition serve :: "deps \<Rightarrow> endpoint \<Rightarrow> string \<Rightarrow> server_app handler" where
  "serve d e i =
     (case e of
        StaticFiles \<Rightarrow> d_files d
      | WebSocket \<Rightarrow> ws_endpoint d
      | Health \<Rightarrow> health_endpoint d
      | MetricsPage \<Rightarrow> d_metricsPage d
      | BuildVersion \<Rightarrow> version_endpoint
      | _ \<Rightarrow> json_endpoint (d_bodyLen d) (\<lambda>r a.
          map_option (\<lambda>(resp, h). (resp, a\<lparr>ap_api := h\<rparr>)) (api_call d e i r (ap_api a))))"

definition server_mux :: "deps \<Rightarrow> Config \<Rightarrow> server_app handler" where
  "server_mux d cfg r w =
     (if rq_Method r \<noteq> ''CONNECT'' \<and> \<not> clean_path (rq_Path r) then d_redirect d r w
      else let segs = Split (CHR ''/'') (tl (rq_Path r))
           in case (if rq_Path r \<noteq> [] \<and> hd (rq_Path r) = CHR ''/''
                    then find_route (main_routes cfg) (rq_Method r) segs else None) of
                None \<Rightarrow> Returned (http_Error ''404 page not found'' 404 w)
              | Some (p, e) \<Rightarrow> serve d e (PathValue ''id'' (pt_segs p) segs) r w)"

section \<open>The table\<close>

lemma main_routes_eq:
  "main_routes cfg =
     [(\<lparr>pt_method = ''GET'', pt_segs = [Lit ''api'', Lit ''version''], pt_subtree = False\<rparr>, ApiVersion),
      (\<lparr>pt_method = ''GET'', pt_segs = [Lit ''api'', Lit ''algorithms''], pt_subtree = False\<rparr>, ApiAlgorithms),
      (\<lparr>pt_method = ''POST'', pt_segs = [Lit ''api'', Lit ''simulate''], pt_subtree = False\<rparr>, ApiSimulate),
      (\<lparr>pt_method = ''GET'', pt_segs = [Lit ''api'', Lit ''simulations''], pt_subtree = False\<rparr>, ApiList),
      (\<lparr>pt_method = ''GET'', pt_segs = [Lit ''api'', Lit ''simulations'', Wild ''id''], pt_subtree = False\<rparr>, ApiGet),
      (\<lparr>pt_method = [], pt_segs = [], pt_subtree = True\<rparr>, StaticFiles),
      (\<lparr>pt_method = [], pt_segs = [Lit ''ws''], pt_subtree = False\<rparr>, WebSocket),
      (\<lparr>pt_method = [], pt_segs = [Lit ''health''], pt_subtree = False\<rparr>, Health)] @
     (if EnableMetrics cfg then [(\<lparr>pt_method = [], pt_segs = [Lit ''metrics''], pt_subtree = False\<rparr>, MetricsPage)] else []) @
     [(\<lparr>pt_method = [], pt_segs = [Lit ''version''], pt_subtree = False\<rparr>, BuildVersion)]"
  by (simp add: main_routes_def Register_def parse_pattern_def parse_seg_def)

text \<open>Two lists of segments that no path matches both.\<close>

fun segs_differ :: "seg list \<Rightarrow> seg list \<Rightarrow> bool" where
  "segs_differ [] [] \<longleftrightarrow> False"
| "segs_differ (Lit a # ps) (Lit b # qs) \<longleftrightarrow> a \<noteq> b \<or> segs_differ ps qs"
| "segs_differ (p # ps) (q # qs) \<longleftrightarrow> segs_differ ps qs"
| "segs_differ _ _ \<longleftrightarrow> True"

lemma segs_differ_sound:
  "segs_differ ps qs \<Longrightarrow> list_all2 seg_match ps xs \<Longrightarrow> \<not> list_all2 seg_match qs xs"
  by (induction ps qs arbitrary: xs rule: segs_differ.induct) (auto simp: list_all2_Cons1)

text \<open>At most one pattern for a single path matches a request, so the order of the table does not matter.\<close>

lemma exact_routes_exclusive:
  assumes "x \<in> set (main_routes cfg)" "y \<in> set (main_routes cfg)" "\<not> pt_subtree (fst x)" "\<not> pt_subtree (fst y)"
    and "matches (fst x) m segs" "matches (fst y) m segs"
  shows "x = y"
proof -
  have "\<forall>x\<in>set (main_routes cfg). \<forall>y\<in>set (main_routes cfg).
      pt_subtree (fst x) \<or> pt_subtree (fst y) \<or> x = y \<or> segs_differ (pt_segs (fst x)) (pt_segs (fst y))"
    by (simp add: main_routes_eq)
  moreover have "\<not> segs_differ (pt_segs (fst x)) (pt_segs (fst y))"
    using segs_differ_sound assms(3-6) by (auto simp: matches_def)
  ultimately show ?thesis using assms(1-4) by blast
qed

text \<open>Every path has a route, since the static files take what is left.\<close>

lemma find_route_total: "segs \<noteq> [] \<Longrightarrow> find_route (main_routes cfg) m segs \<noteq> None"
proof -
  assume "segs \<noteq> []"
  then have "(\<lparr>pt_method = [], pt_segs = [], pt_subtree = True\<rparr>, StaticFiles) \<in>
      set (filter (\<lambda>(p, e). matches p m segs) (main_routes cfg))"
    by (simp add: main_routes_eq matches_def)
  then have "filter (\<lambda>(p, e). matches p m segs) (main_routes cfg) \<noteq> []" by (metis empty_iff empty_set)
  then show ?thesis by (simp add: find_route_def Let_def split: option.split list.split)
qed

text \<open>The routes that the API serves.\<close>

lemma find_route_simulate:
  "find_route (main_routes cfg) ''POST'' [''api'', ''simulate''] =
     Some (\<lparr>pt_method = ''POST'', pt_segs = [Lit ''api'', Lit ''simulate''], pt_subtree = False\<rparr>, ApiSimulate)"
  by (simp add: find_route_def main_routes_eq matches_def)

lemma find_route_get:
  "i \<noteq> [] \<Longrightarrow> find_route (main_routes cfg) ''GET'' [''api'', ''simulations'', i] =
     Some (\<lparr>pt_method = ''GET'', pt_segs = [Lit ''api'', Lit ''simulations'', Wild ''id''], pt_subtree = False\<rparr>, ApiGet)"
  by (simp add: find_route_def main_routes_eq matches_def)

lemma Split_single: "sep \<notin> set s \<Longrightarrow> Split sep s = [s]"
  by (induction s) auto

lemma mux_simulate:
  assumes "rq_Method r = ''POST''" "rq_Path r = ''/api/simulate''"
  shows "server_mux d cfg r = serve d ApiSimulate [] r"
proof -
  have "clean_path ''/api/simulate''" "Split (CHR ''/'') ''api/simulate'' = [''api'', ''simulate'']"
    by (simp_all add: clean_path_def)
  then show ?thesis by (simp add: server_mux_def assms find_route_simulate fun_eq_iff)
qed

lemma mux_get:
  assumes "rq_Method r = ''GET''" "rq_Path r = ''/api/simulations/'' @ i" "CHR ''/'' \<notin> set i" "2 < length i"
  shows "server_mux d cfg r = serve d ApiGet i r"
proof -
  have s: "Split (CHR ''/'') (''api/simulations/'' @ i) = [''api'', ''simulations'', i]"
    using Split_single [OF assms(3)] by simp
  have "i \<noteq> []" "i \<noteq> ''.''" "i \<noteq> ''..''" using assms(4) by auto
  then have "clean_path (rq_Path r)" using s by (simp add: clean_path_def assms(2))
  with s \<open>i \<noteq> []\<close> show ?thesis by (simp add: server_mux_def assms(1,2) find_route_get fun_eq_iff)
qed

lemma mux_health:
  assumes "rq_Method r = ''GET''" "rq_Path r = ''/health''"
  shows "server_mux d cfg r = health_endpoint d r"
proof -
  have "clean_path ''/health''" by (simp add: clean_path_def)
  moreover have "find_route (main_routes cfg) ''GET'' [''health''] =
      Some (\<lparr>pt_method = [], pt_segs = [Lit ''health''], pt_subtree = False\<rparr>, Health)"
    by (simp add: find_route_def main_routes_eq matches_def)
  ultimately show ?thesis by (simp add: server_mux_def assms serve_def fun_eq_iff)
qed

lemma mux_ws:
  assumes "rq_Method r = ''GET''" "rq_Path r = ''/ws''"
  shows "server_mux d cfg r = ws_endpoint d r"
proof -
  have "clean_path ''/ws''" by (simp add: clean_path_def)
  moreover have "find_route (main_routes cfg) ''GET'' [''ws''] =
      Some (\<lparr>pt_method = [], pt_segs = [Lit ''ws''], pt_subtree = False\<rparr>, WebSocket)"
    by (simp add: find_route_def main_routes_eq matches_def)
  ultimately show ?thesis by (simp add: server_mux_def assms serve_def fun_eq_iff)
qed

section \<open>The contract\<close>

text \<open>What is relied on of the handlers that are arguments.\<close>

definition externals_ok :: "deps \<Rightarrow> bool" where
  "externals_ok d \<longleftrightarrow> http_app (d_files d) \<and> http_app (d_metricsPage d) \<and> http_app (d_redirect d)"

lemma plain_headers [simp]: "''Content-Type'' \<notin> set protected_headers" "''Cache-Control'' \<notin> set protected_headers"
  by (simp_all add: protected_headers_def security_headers_def)

interpretation health: http_app "health_endpoint d" for d
  by unfold_locales (auto simp: health_endpoint_def Let_def intro!: writes_secured writes_tracked secured_other)

interpretation version: http_app version_endpoint
  by unfold_locales (auto simp: version_endpoint_def Let_def intro!: writes_secured writes_tracked secured_other)

interpretation not_found: http_app "\<lambda>r w. Returned (http_Error msg code w)" for msg code
  by unfold_locales (auto simp: http_Error_def Let_def intro!: writes_secured writes_tracked secured_other secured_Header_Set)

lemma ws_app: "http_app (ws_endpoint d)"
proof -
  have "secured hs (w\<lparr>w_hijacked := h\<rparr>) = secured hs w" "tracked w \<Longrightarrow> tracked (w\<lparr>w_hijacked := True\<rparr>)" for hs h and w :: "server_app http"
    by (auto simp: secured_def tracked_def)
  then show ?thesis using not_found.keeps_secured not_found.keeps_tracked not_found.keeps_metrics not_found.keeps_log
    by unfold_locales (auto simp: ws_endpoint_def sw_Hijack_def Let_def split: option.split)
qed

lemma serve_app: "externals_ok d \<Longrightarrow> http_app (serve d e i)"
  by (cases e) (auto simp: serve_def externals_ok_def intro: ws_app json.http_app_axioms health.http_app_axioms version.http_app_axioms)

lemma mux_app:
  assumes "externals_ok d"
  shows "http_app (server_mux d cfg)"
proof (rule http_app_pointwise)
  fix r
  show "\<exists>f. http_app f \<and> server_mux d cfg r = f r"
  proof (cases "rq_Method r \<noteq> ''CONNECT'' \<and> \<not> clean_path (rq_Path r)")
    case True
    then show ?thesis using assms by (intro exI [of _ "d_redirect d"]) (auto simp: externals_ok_def server_mux_def fun_eq_iff)
  next
    case False
    let ?segs = "Split (CHR ''/'') (tl (rq_Path r))"
    let ?hit = "if rq_Path r \<noteq> [] \<and> hd (rq_Path r) = CHR ''/'' then find_route (main_routes cfg) (rq_Method r) ?segs else None"
    show ?thesis
    proof (cases ?hit)
      case None
      then show ?thesis using False not_found.http_app_axioms
        by (intro exI [of _ "\<lambda>r w. Returned (http_Error ''404 page not found'' 404 w)"])
          (auto simp: server_mux_def Let_def fun_eq_iff)
    next
      case (Some hit)
      then show ?thesis using False serve_app [OF assms]
        by (intro exI [of _ "serve d (snd hit) (PathValue ''id'' (pt_segs (fst hit)) ?segs)"])
          (auto simp: server_mux_def Let_def fun_eq_iff split: prod.split)
    qed
  qed
qed

section \<open>A deployment\<close>

text \<open>
  A server used to exercise the properties: no static files, WebSocket sessions that do nothing, and
  the same body for every request.
\<close>

definition demo_deps :: "string \<Rightarrow> deps" where
  "demo_deps bod =
     (let refuse = (\<lambda>r w. Returned (http_Error ''404 page not found'' 404 w))
      in \<lparr>d_sort = (\<lambda>key. sort_key key), d_env = (\<lambda>_. demo_env 9), d_body = (\<lambda>_. bod), d_errText = (\<lambda>_. []), d_query = (\<lambda>_ _. []),
          d_bodyLen = (\<lambda>_. 40), d_wsenv = (\<lambda>_. \<lparr>env_now = 0, env_taken = True, env_pick = True\<rparr>), d_healthLen = (\<lambda>_. 60), d_files = refuse,
          d_handshake = (\<lambda>_ ok. if ok then None else Some 403), d_statusText = (\<lambda>_. []),
          d_session = (\<lambda>_ s. s), d_metricsPage = refuse, d_redirect = refuse\<rparr>)"

lemma demo_deps_ok: "externals_ok (demo_deps bod)"
  using not_found.http_app_axioms by (auto simp: externals_ok_def demo_deps_def Let_def)

definition demo_app :: server_app where
  "demo_app = \<lparr>ap_api = NewHandler (Store_New 3) 4 100 1, ap_web = NewServer Default\<rparr>"

definition demo_http :: "string \<Rightarrow> string \<Rightarrow> request" where
  "demo_http m path =
     \<lparr>rq_Method = m, rq_Path = path, rq_Header = (\<lambda>_. []), rq_Host = [], rq_Route = [], rq_RemoteAddr = [],
      rq_ContentLength = 3, rq_Elapsed = 0, rq_ctx = Map.empty\<rparr>"

end
