(* ===== verification/Middleware_Props.thy ===== *)
theory Middleware_Props
  imports Router
begin

text \<open>
  Correctness of the middleware stack, as \<^verbatim>\<open>cmd/server\<close> puts it together: every response carries the security headers and a safe
  request ID, every request that does not panic is counted under the status it was answered with,
  and rate limiting treats each address on its own. The router is used through the locale
  \<open>http_app\<close>, which the routes of the server satisfy.
\<close>

section \<open>Request IDs\<close>

definition printable :: "string \<Rightarrow> bool" where
  "printable s \<longleftrightarrow> list_all (\<lambda>b. 0x20 \<le> byte b \<and> byte b \<le> 0x7E) s"

lemma sanitize_loop_filter: "sanitize_loop out s = out @ filter (\<lambda>b. 0x20 \<le> byte b \<and> byte b \<le> 0x7E) s"
  by (induction s arbitrary: out) auto

lemma sanitize_printable: "printable (sanitizeHeaderValue s)"
  by (simp add: sanitizeHeaderValue_def sanitize_loop_filter printable_def list_all_iff)

lemma sanitize_id: "printable s \<Longrightarrow> sanitizeHeaderValue s = s"
  by (simp add: sanitizeHeaderValue_def sanitize_loop_filter printable_def list_all_iff filter_id_conv)

lemma base36_printable: "printable (base36 n)"
proof (induction n rule: base36.induct)
  case (1 n)
  have "list_all (\<lambda>d. printable [base36_digits ! d]) [0..<36]" by code_simp
  then have "printable [base36_digits ! (n mod 36)]" by (simp add: list_all_iff)
  then show ?case using 1 by (subst base36.simps) (auto simp: printable_def)
qed

lemma fresh_id_safe:
  "\<exists>i w'. fresh_id w = Some (i, w') \<and> printable i \<and> 1 \<le> length i \<and> length i \<le> 64 \<and>
     w' = w\<lparr>requestIDCounter := requestIDCounter w + 1\<rparr>"
proof -
  let ?n = "requestIDCounter w + 1"
  have "1 \<le> length (base36 (unat ?n))" if "?n \<noteq> 0"
    using that by (subst base36.simps) (simp add: unat_eq_0)
  moreover have "printable ''0''" by code_simp
  ultimately show ?thesis
    using fmtUint32Base36_eq(2) [of ?n] base36_printable [of "unat ?n"]
    by (auto simp: fresh_id_def NextRequestID_def Let_def fmtUint32Base36_eq(1) intro: order_trans)
qed

abbreviation withID :: "string \<Rightarrow> request \<Rightarrow> request" where
  "withID i r \<equiv> r\<lparr>rq_ctx := ContextWithRequestID (rq_ctx r) i\<rparr>"

text \<open>What \<^verbatim>\<open>RequestID\<close> passes on: the same state with a safe ID in the header.\<close>

lemma RequestID_passes:
  "\<exists>i n. RequestID next r w = next (withID i r) (Header_Set ''X-Request-ID'' i (w\<lparr>requestIDCounter := n\<rparr>)) \<and>
     printable i \<and> 1 \<le> length i \<and> length i \<le> 64"
proof -
  let ?s = "sanitizeHeaderValue (rq_Header r ''X-Request-ID'')"
  show ?thesis
  proof (cases "rq_Header r ''X-Request-ID'' = [] \<or> ?s = []")
    case True
    obtain i where "fresh_id w = Some (i, w\<lparr>requestIDCounter := requestIDCounter w + 1\<rparr>)" "printable i"
      "1 \<le> length i" "length i \<le> 64"
      using fresh_id_safe [of w] by blast
    then show ?thesis using True
      by (intro exI [of _ i] exI [of _ "requestIDCounter w + 1"]) (auto simp: RequestID_def Let_def)
  next
    case False
    let ?i = "if 64 < length ?s then take 64 ?s else ?s"
    have "printable ?i"
      using sanitize_printable by (auto simp: printable_def list_all_iff dest: in_set_takeD)
    moreover have "1 \<le> length ?i" "length ?i \<le> 64" using False by (auto simp: Suc_le_eq)
    ultimately show ?thesis using False
      by (intro exI [of _ ?i] exI [of _ "requestIDCounter w"]) (simp add: RequestID_def Let_def)
  qed
qed

section \<open>The stack\<close>

lemma Chain_loop_foldr: "i \<le> length mws \<Longrightarrow> Chain_loop i mws h = foldr (\<lambda>m h. m h) (take i mws) h"
proof (induction i arbitrary: h)
  case (Suc i)
  then have "take (Suc i) mws = take i mws @ [mws ! i]" by (simp add: take_Suc_conv_app_nth)
  then show ?case using Suc by simp
qed simp

lemma Chain_foldr: "Chain h mws = foldr (\<lambda>m h. m h) mws h"
  by (simp add: Chain_def Chain_loop_foldr)

lemma main_handler_eq:
  "main_handler cfg mux = Recovery (SecureHeaders (RequestID (LogAndMetrics (CORS (WSOriginAllow cfg) mux))))"
  by (simp add: main_handler_def Chain_foldr)

lemma routePath_ctx [simp]: "routePath (r\<lparr>rq_ctx := ctx\<rparr>) = routePath r"
  by (simp add: routePath_def)

lemma secured_frame [simp]:
  "secured hs (w\<lparr>w_writer := sw\<rparr>) = secured hs w" "secured hs (w\<lparr>w_metrics := m\<rparr>) = secured hs w"
  "secured hs (log_with ctx f w) = secured hs w"
  by (simp_all add: secured_def)

lemma http_Error_secured:
  "secured hs w \<Longrightarrow> ''Content-Type'' \<notin> fst ` set hs \<Longrightarrow> (\<forall>v. (''X-Content-Type-Options'', v) \<in> set hs \<longrightarrow> v = ''nosniff'') \<Longrightarrow>
   secured hs (http_Error msg code w)"
  by (auto simp: http_Error_def Let_def intro!: writes_secured secured_Header_Set intro: rev_image_eqI)

lemma http_Error_frame [simp]:
  "w_metrics (http_Error msg code w) = w_metrics w" "w_log (http_Error msg code w) = w_log w"
  "w_status w = 0 \<Longrightarrow> \<not> w_hijacked w \<Longrightarrow> code \<noteq> 0 \<Longrightarrow> w_status (http_Error msg code w) = code"
  "w_hijacked (http_Error msg code w) = w_hijacked w" "app (http_Error msg code w) = app w"
  by (simp_all add: http_Error_def Let_def writes_status)

text \<open>The headers that the stack sets before the router runs.\<close>

abbreviation stack_headers :: "string \<Rightarrow> (string \<times> string) list" where
  "stack_headers i \<equiv> (''X-Request-ID'', i) # security_headers"

definition prepared :: "string \<Rightarrow> 32 word \<Rightarrow> 's http \<Rightarrow> 's http" where
  "prepared i n w =
     (let w = foldl (\<lambda>w (k, v). Header_Set k v w) w security_headers
      in Header_Set ''X-Request-ID'' i (w\<lparr>requestIDCounter := n\<rparr>))"

lemma prepared_frame [simp]:
  "w_status (prepared i n w) = w_status w" "w_metrics (prepared i n w) = w_metrics w"
  "w_writer (prepared i n w) = w_writer w" "w_hijacked (prepared i n w) = w_hijacked w"
  "w_log (prepared i n w) = w_log w" "w_canHijack (prepared i n w) = w_canHijack w" "app (prepared i n w) = app w" "w_bytes (prepared i n w) = w_bytes w"
  by (simp_all add: prepared_def security_headers_def Header_Set_def)

lemma prepared_secured: "w_status w = 0 \<Longrightarrow> secured (stack_headers i) (prepared i n w)"
  by (simp add: secured_def prepared_def security_headers_def Header_Set_def)

lemma stack_passes:
  "\<exists>i n. SecureHeaders (RequestID next) r w = next (withID i r) (prepared i n w) \<and>
     printable i \<and> 1 \<le> length i \<and> length i \<le> 64"
  using RequestID_passes [of "next" r "foldl (\<lambda>w (k, v). Header_Set k v w) w security_headers"]
  by (simp add: SecureHeaders_def prepared_def security_headers_def Let_def)

lemma stack_headers_protected:
  "fst ` set (stack_headers i) \<subseteq> set protected_headers" "''Content-Type'' \<notin> fst ` set (stack_headers i)"
  "\<forall>v. (''X-Content-Type-Options'', v) \<in> set (stack_headers i) \<longrightarrow> v = ''nosniff''"
  by (auto simp: protected_headers_def security_headers_def)

context http_app
begin

lemma cors_app: "http_app (CORS allowed mux)"
proof unfold_locales
  fix hs r and w :: "'s http"
  show "secured hs (final (CORS allowed mux r w))"
    if "secured hs w" "fst ` set hs \<subseteq> set protected_headers"
      "\<forall>v. (''X-Content-Type-Options'', v) \<in> set hs \<longrightarrow> v = ''nosniff''"
  proof -
    have k: "k \<notin> fst ` set hs" if "k \<in> {''Access-Control-Allow-Origin'', ''Vary'', ''Access-Control-Allow-Methods'',
        ''Access-Control-Allow-Headers'', ''Access-Control-Expose-Headers'', ''Access-Control-Max-Age''}" for k
      using that \<open>fst ` set hs \<subseteq> set protected_headers\<close> by (auto simp: protected_headers_def security_headers_def)
    have set: "secured hs (Header_Set k v u)" if "secured hs u" "k \<notin> fst ` set hs" for k v and u :: "'s http"
      using that by (intro secured_Header_Set) (auto intro: rev_image_eqI)
    show ?thesis using that k
      by (auto simp: CORS_def Let_def intro!: writes_secured keeps_secured set)
  qed
  show "tracked (final (CORS allowed mux r w))" if "tracked w"
    using that by (auto simp: CORS_def Let_def intro!: writes_tracked keeps_tracked)
  show "w_metrics (final (CORS allowed mux r w)) = w_metrics w"
    by (simp add: CORS_def Let_def keeps_metrics)
  show "w_log (final (CORS allowed mux r w)) = w_log w"
    by (simp add: CORS_def Let_def keeps_log)
qed

lemma LogAndMetrics_returned:
  assumes "mux r (w\<lparr>w_writer := Some \<lparr>sw_status = 0, sw_bytes = 0\<rparr>\<rparr>) = Returned w1" "w_status w = 0"
  obtains w' status bytes where "LogAndMetrics mux r w = Returned w'" "w_status w' = w_status w1" "\<not> w_hijacked w' \<longrightarrow> status = w_status w'"
    "w_metrics w' = w_metrics w @ ObserveHTTPRequest (rq_Method r) (routePath r) status (rq_Elapsed r) (rq_ContentLength r)"
    "w_log w' = w_log w @ [HttpRequest (let i = RequestIDFromContext (rq_ctx r) in if i = [] then None else Some i)
       (rq_Method r) (rq_Path r) (routePath r) status bytes (Milliseconds (rq_Elapsed r)) (rq_RemoteAddr r)]"
proof -
  let ?w = "w\<lparr>w_writer := Some \<lparr>sw_status = 0, sw_bytes = 0\<rparr>\<rparr>"
  have "tracked ?w" using assms(2) by (simp add: tracked_def)
  then have "tracked w1" using keeps_tracked [of ?w r] assms(1) by simp
  then obtain sw where "w_writer w1 = Some sw" "\<not> w_hijacked w1 \<longrightarrow> sw_status sw = w_status w1" by (auto simp: tracked_def)
  moreover have "w_metrics w1 = w_metrics w" "w_log w1 = w_log w" using keeps_metrics [of r ?w] keeps_log [of r ?w] assms(1) by simp_all
  ultimately show thesis using assms(1)
    by (intro that [of "final (LogAndMetrics mux r w)" "sw_status sw" "sw_bytes sw"]) (simp_all add: LogAndMetrics_def Let_def)
qed

lemma LogAndMetrics_secured:
  assumes "secured (stack_headers i) w"
  shows "secured (stack_headers i) (final (LogAndMetrics mux r w))"
proof -
  let ?w = "w\<lparr>w_writer := Some \<lparr>sw_status = 0, sw_bytes = 0\<rparr>\<rparr>"
  have "secured (stack_headers i) (final (mux r ?w))"
    using assms stack_headers_protected by (intro keeps_secured) simp_all
  then show ?thesis by (auto simp: LogAndMetrics_def Let_def split: result.splits)
qed

end

lemma main_handler_secured:
  assumes "http_app mux" "w_status w = 0"
    and i: "SecureHeaders (RequestID (LogAndMetrics (CORS (WSOriginAllow cfg) mux))) r w =
      LogAndMetrics (CORS (WSOriginAllow cfg) mux) (withID i r) (prepared i n w)"
  shows "\<exists>w'. main_handler cfg mux r w = Returned w' \<and> secured (stack_headers i) w'"
proof (cases "LogAndMetrics (CORS (WSOriginAllow cfg) mux) (withID i r) (prepared i n w)")
  note s = http_app.LogAndMetrics_secured [OF http_app.cors_app [OF assms(1)] prepared_secured [OF assms(2)]]
  {
    case (Returned u)
    then show ?thesis using s i by (intro exI [of _ u]) (metis Recovery_def final.simps(1) main_handler_eq result.simps(5))
  next
    case (Panicked u)
    let ?u = "http_Error ''internal server error'' 500 ((log_with (rq_ctx r) PanicRecovered u)\<lparr>w_writer := w_writer w\<rparr>)"
    have "secured (stack_headers i) ?u"
      using s [where i = i and r = "withID i r"] Panicked by (intro http_Error_secured [OF _ stack_headers_protected(2,3)]) (metis final.simps(2) secured_frame)
    then show ?thesis using Panicked i by (intro exI [of _ ?u]) (simp add: main_handler_eq Recovery_def)
  }
qed

text \<open>
  C18: Every response is safe: whatever the request and the router do, the server's handler returns,
  and a response that was sent carries the four security headers and a request ID of 1 to 64
  printable characters, also when the router panicked or the client chose the ID.
\<close>

theorem responses_secured:
  assumes "http_app mux" "w_status w = 0"
  shows "\<exists>w' i. main_handler cfg mux r w = Returned w' \<and> printable i \<and> 1 \<le> length i \<and> length i \<le> 64 \<and>
    (w_status w' \<noteq> 0 \<longrightarrow> w_sent w' ''X-Request-ID'' = Some i \<and> list_all (\<lambda>(k, v). w_sent w' k = Some v) security_headers)"
proof -
  obtain i n where i: "SecureHeaders (RequestID (LogAndMetrics (CORS (WSOriginAllow cfg) mux))) r w =
      LogAndMetrics (CORS (WSOriginAllow cfg) mux) (withID i r) (prepared i n w)"
      "printable i" "1 \<le> length i" "length i \<le> 64"
    using stack_passes [of "LogAndMetrics (CORS (WSOriginAllow cfg) mux)" r w] by blast
  obtain w' where "main_handler cfg mux r w = Returned w'" "secured (stack_headers i) w'"
    using main_handler_secured [OF assms i(1)] by blast
  then show ?thesis using i
    by (intro exI [of _ w'] exI [of _ i]) (auto simp: secured_def list_all_iff)
qed

lemma demo_returns: "\<exists>w1. server_mux (demo_deps []) cfg r w = Returned w1"
proof -
  have "\<exists>w1. serve (demo_deps []) e i r w = Returned w1" for e i
    by (cases e) (auto simp: serve_def demo_deps_def Let_def json_endpoint_def api_call_def health_endpoint_def
        version_endpoint_def postSimulate_def empty_body handleSimulate_def simulate_def ws_endpoint_def sw_Hijack_def
        split: option.splits)
  then show ?thesis
    by (auto simp: server_mux_def Let_def demo_deps_def split: option.splits)
qed

text \<open>
  A flush sends the status 200 behind the back of the status writer, which goes on to record
  whatever status the handler tries to set afterwards. No handler of the program flushes.
\<close>

lemma flush_untracked:
  assumes "w_canFlush w" "\<not> w_hijacked w" "w_status w = 0" "w_writer w = Some sw" "sw_status sw = 0"
  shows "w_status (sw_WriteHeader code (sw_Flush w)) = 200"
    "\<exists>sw'. w_writer (sw_WriteHeader code (sw_Flush w)) = Some sw' \<and> sw_status sw' = code"
  using assms by (simp_all add: sw_Flush_def sw_WriteHeader_def base_WriteHeader_def)

text \<open>A response that nobody has written to yet.\<close>

definition blank :: "'s \<Rightarrow> 's http" where
  "blank a = \<lparr>w_header = Map.empty, w_status = 0, w_sent = Map.empty, w_bytes = 0, w_canHijack = True, w_canFlush = True,
     w_hijacked = False, w_json = None, w_writer = None, requestIDCounter = 0, w_metrics = [], w_Logger = None, w_log = [], app = a\<rparr>"

theorem responses_secured_witness:
  "\<exists>w'. main_handler Default (server_mux (demo_deps []) Default) (demo_http ''POST'' ''/api/simulate'')
     (blank demo_app) = Returned w'"
proof -
  have "w_status (blank demo_app) = 0" by (simp add: blank_def)
  from responses_secured [OF mux_app [OF demo_deps_ok] this, of Default] show ?thesis by blast
qed

text \<open>The router is called, with the status as it was, unless the request is a preflight.\<close>

lemma CORS_call:
  "rq_Method r \<noteq> ''OPTIONS'' \<Longrightarrow>
     \<exists>u. CORS allowed mux r w = mux r u \<and> w_status u = w_status w \<and> w_hijacked u = w_hijacked w \<and>
       w_canHijack u = w_canHijack w \<and> w_writer u = w_writer w \<and> w_metrics u = w_metrics w \<and>
       w_log u = w_log w \<and> app u = app w \<and> w_bytes u = w_bytes w"
  by (auto simp: CORS_def Let_def)

text \<open>A panic that reaches the stack is answered with 500 and leaves one record, which has no request ID.\<close>

lemma panic_unaccounted:
  assumes "http_app mux" "w_status w = 0" "\<not> w_hijacked w" "RequestIDFromContext (rq_ctx r) = []"
    and i: "SecureHeaders (RequestID (LogAndMetrics (CORS (WSOriginAllow cfg) mux))) r w =
      LogAndMetrics (CORS (WSOriginAllow cfg) mux) (withID i r) (prepared i n w)"
    and Panicked: "CORS (WSOriginAllow cfg) mux (withID i r)
      (prepared i n w\<lparr>w_writer := Some \<lparr>sw_status = 0, sw_bytes = 0\<rparr>\<rparr>) = Panicked w1"
  shows "\<exists>e. main_handler cfg mux r w = Returned e \<and> w_metrics e = w_metrics w \<and> w_log e = w_log w @ [PanicRecovered None] \<and>
    (\<exists>q u. mux q u = Panicked w1 \<and> (w_status w1 = w_status u \<and> w_hijacked w1 = w_hijacked u \<longrightarrow> w_status e = 500))"
proof -
  let ?r = "withID i r" and ?w = "prepared i n w\<lparr>w_writer := Some \<lparr>sw_status = 0, sw_bytes = 0\<rparr>\<rparr>"
  let ?e = "http_Error ''internal server error'' 500 ((log_with (rq_ctx r) PanicRecovered w1)\<lparr>w_writer := w_writer w\<rparr>)"
  note cors = http_app.cors_app [OF assms(1), of "WSOriginAllow cfg"]
  have "w_metrics ?e = w_metrics w" "w_log ?e = w_log w @ [PanicRecovered None]"
    using http_app.keeps_metrics [OF cors, of ?r ?w] http_app.keeps_log [OF cors, of ?r ?w] Panicked assms(4) by simp_all
  moreover have "rq_Method ?r \<noteq> ''OPTIONS''" using Panicked by (auto simp: CORS_def Let_def)
  then obtain u where "mux ?r u = Panicked w1" "w_status u = 0" "\<not> w_hijacked u"
    using Panicked CORS_call [of ?r "WSOriginAllow cfg" mux ?w] assms(2,3) by auto
  moreover have "main_handler cfg mux r w = Returned ?e"
    using i Panicked by (simp add: main_handler_eq Recovery_def LogAndMetrics_def)
  ultimately show ?thesis by (intro exI [of _ ?e] conjI exI [of _ ?r] exI [of _ u]) simp_all
qed



section \<open>Rate limiting\<close>

fun decisions :: "'l \<Rightarrow> ('l \<Rightarrow> bool \<times> 'l) \<Rightarrow> string list \<Rightarrow> 'l RateLimiter \<Rightarrow> bool list" where
  "decisions newLimiter allow [] rl = []"
| "decisions newLimiter allow (ip # ips) rl =
     (let (ok, rl) = RateLimiter_Allow newLimiter allow ip rl in ok # decisions newLimiter allow ips rl)"

text \<open>The reference: a limiter of one's own, asked so many times.\<close>

fun solo :: "('l \<Rightarrow> bool \<times> 'l) \<Rightarrow> nat \<Rightarrow> 'l \<Rightarrow> bool list" where
  "solo allow 0 l = []"
| "solo allow (Suc n) l = (let (ok, l) = allow l in ok # solo allow n l)"

definition seen_by :: "string \<Rightarrow> string list \<Rightarrow> bool list \<Rightarrow> bool list" where
  "seen_by ip ips ds = map snd (filter (\<lambda>(i, d). i = ip) (zip ips ds))"

lemma RateLimiter_Allow_eq:
  "RateLimiter_Allow newLimiter allow ip rl =
     (let l = (case clients rl ip of None \<Rightarrow> newLimiter | Some l \<Rightarrow> l)
      in (fst (allow l), rl\<lparr>clients := (clients rl)(ip \<mapsto> snd (allow l))\<rparr>))"
  by (auto simp: RateLimiter_Allow_def limiter_def Let_def split: option.splits prod.splits)

lemma decisions_solo:
  "seen_by ip ips (decisions newLimiter allow ips rl) =
     solo allow (count_list ips ip) (case clients rl ip of None \<Rightarrow> newLimiter | Some l \<Rightarrow> l)"
proof (induction ips arbitrary: rl)
  case (Cons i ips)
  then show ?case
    by (auto simp: seen_by_def RateLimiter_Allow_eq Let_def case_prod_beta split: option.splits)
qed (simp add: seen_by_def)

text \<open>
  Rate limiting is per address: in any sequence of requests, the decisions for one address are
  exactly those that a new limiter of its own would make for its requests alone.
\<close>

lemma rate_limit_isolated:
  "seen_by ip ips (decisions newLimiter allow ips NewRateLimiter) = solo allow (count_list ips ip) newLimiter"
  by (simp add: decisions_solo NewRateLimiter_def)

end
