(* ===== verification/Server_Props.thy ===== *)
theory Server_Props
  imports Middleware_Props
begin

text \<open>
  The server as a whole, from the bytes of a request to the answer: middleware, routes, handlers,
  engine and history together; the upgrade of a WebSocket; the start of the program and its health probe.
\<close>

section \<open>Answers pass through the stack\<close>

lemma serveJSON_answer:
  assumes "w_status w = 0" "\<not> w_hijacked w" "rs_status resp \<noteq> 0"
  shows "w_status (serveJSON bodyLen resp w) = rs_status resp" "app (serveJSON bodyLen resp w) = app w"
    "w_bytes (serveJSON bodyLen resp w) = w_bytes w + bodyLen resp" "w_json (serveJSON bodyLen resp w) = Some resp"
  using assms by (auto simp: serveJSON_def Let_def sw_WriteHeader_def sw_Write_def base_WriteHeader_def base_Write_def
      split: option.splits)

text \<open>
  A request other than \<^verbatim>\<open>OPTIONS\<close> reaches the router on a fresh status writer, and what the router
  wrote is what was answered and what is counted.
\<close>

lemma main_handler_passes:
  assumes "rq_Method r \<noteq> ''OPTIONS''"
  obtains i u where "w_status u = w_status w" "w_hijacked u = w_hijacked w" "w_canHijack u = w_canHijack w" "app u = app w"
    "w_bytes u = w_bytes w" "w_metrics u = w_metrics w" "w_writer u = Some \<lparr>sw_status = 0, sw_bytes = 0\<rparr>"
    "\<And>v. mux (withID i r) u = Returned v \<Longrightarrow>
       main_handler cfg mux r w = LogAndMetrics (\<lambda>_ _. Returned v) (withID i r) w"
proof -
  let ?cors = "CORS (WSOriginAllow cfg) mux"
  obtain i n where i: "SecureHeaders (RequestID (LogAndMetrics ?cors)) r w =
      LogAndMetrics ?cors (withID i r) (prepared i n w)"
    using stack_passes [of "LogAndMetrics ?cors" r w] by blast
  let ?r = "withID i r" and ?w = "prepared i n w\<lparr>w_writer := Some \<lparr>sw_status = 0, sw_bytes = 0\<rparr>\<rparr>"
  have "rq_Method ?r \<noteq> ''OPTIONS''" using assms by simp
  from CORS_call [OF this, of "WSOriginAllow cfg" mux ?w]
  obtain u where u: "?cors ?r ?w = mux ?r u" "w_status u = w_status w" "w_hijacked u = w_hijacked w" "w_canHijack u = w_canHijack w"
      "app u = app w" "w_bytes u = w_bytes w" "w_metrics u = w_metrics w" "w_writer u = Some \<lparr>sw_status = 0, sw_bytes = 0\<rparr>"
    by auto
  show thesis
    by (rule that [where i = i and u = u, OF u(2-8)]) (use i u(1) in \<open>simp add: main_handler_eq Recovery_def LogAndMetrics_def Let_def\<close>)
qed

lemma main_handler_call:
  assumes "rq_Method r \<noteq> ''OPTIONS''"
  shows "\<exists>i u. w_status u = w_status w \<and> w_hijacked u = w_hijacked w \<and> app u = app w \<and> w_bytes u = w_bytes w \<and>
    (\<forall>v. mux (withID i r) u = Returned v \<longrightarrow>
       main_handler cfg mux r w = LogAndMetrics (\<lambda>_ _. Returned v) (withID i r) w)"
  by (rule main_handler_passes [OF assms, of w mux cfg]) blast

text \<open>What the logging middleware adds to an answer.\<close>

lemma LogAndMetrics_final:
  "\<exists>v'. LogAndMetrics (\<lambda>_ _. Returned v) r w = Returned v' \<and> w_status v' = w_status v \<and> w_hijacked v' = w_hijacked v \<and>
     app v' = app v \<and> w_bytes v' = w_bytes v \<and> w_json v' = w_json v \<and>
     w_metrics v' = w_metrics v @ ObserveHTTPRequest (rq_Method r) (routePath r)
       (case w_writer v of None \<Rightarrow> 0 | Some sw \<Rightarrow> sw_status sw) (rq_Elapsed r) (rq_ContentLength r)"
  by (simp add: LogAndMetrics_def Let_def)

text \<open>An answer of the API reaches the client with its status and its bytes.\<close>

lemma main_handler_json:
  assumes "rq_Method r \<noteq> ''OPTIONS''" "w_status w = 0" "\<not> w_hijacked w" "rs_status resp \<noteq> 0"
    and mux: "\<And>i u. app u = app w \<Longrightarrow> mux (withID i r) u = Returned (serveJSON bodyLen resp (u\<lparr>app := a\<rparr>))"
  shows "\<exists>w'. main_handler cfg mux r w = Returned w' \<and> w_status w' = rs_status resp \<and> app w' = a \<and>
    w_bytes w' = w_bytes w + bodyLen resp \<and> w_json w' = Some resp"
proof -
  obtain i u where u: "w_status u = w_status w" "app u = app w" "w_bytes u = w_bytes w" "w_hijacked u = w_hijacked w"
    "\<forall>v. mux (withID i r) u = Returned v \<longrightarrow>
       main_handler cfg mux r w = LogAndMetrics (\<lambda>_ _. Returned v) (withID i r) w"
    using main_handler_call [OF assms(1)] by blast
  then have "main_handler cfg mux r w =
      LogAndMetrics (\<lambda>_ _. Returned (serveJSON bodyLen resp (u\<lparr>app := a\<rparr>))) (withID i r) w"
    using mux [OF u(2)] by blast
  with LogAndMetrics_final [of "serveJSON bodyLen resp (u\<lparr>app := a\<rparr>)" "withID i r" w] show ?thesis
    using serveJSON_answer [of "u\<lparr>app := a\<rparr>" resp bodyLen] u assms(2-4) by auto
qed

lemma serve_simulate:
  assumes "postSimulate (d_sort d) (d_errText d) (d_env d r) (d_body d r) (ap_api (app u)) = Some (resp, h)"
  shows "serve d ApiSimulate i r u = Returned (serveJSON (d_bodyLen d) resp (u\<lparr>app := (app u)\<lparr>ap_api := h\<rparr>\<rparr>))"
  using assms by (simp add: serve_def json_endpoint_def api_call_def)

lemma serve_get:
  "serve d ApiGet i r u = Returned (serveJSON (d_bodyLen d) (handleGet i (ap_api (app u))) u)"
  by (simp add: serve_def json_endpoint_def api_call_def)

section \<open>Simulate and fetch\<close>

text \<open>
  C3: A simulation can be posted and fetched over HTTP: when a slot is free and the handler waits
  for as many turns of the run loop as the last arrival plus all CPU and I/O bursts, a valid
  \<^verbatim>\<open>POST /api/simulate\<close>, given as the bytes of its body, is answered through the whole stack with status 200 and the final state,
  which is complete, lists exactly the requested processes as completed and charts exactly their
  bursts; and every later \<^verbatim>\<open>GET /api/simulations/\<close> followed by the returned ID, on the state it left, is
  answered with status 200 and the record of this run. The rendered start time has no slash.
\<close>

theorem simulate_then_fetch:
  assumes "slice_sort (d_sort d)" "api_run (d_sort d) (ap_api (app w)) k" "h_idCounter (ap_api (app w)) \<noteq> - 1"
    and "acquire (ap_api (app w)) \<noteq> None" "w_status w = 0 \<and> \<not> w_hijacked w"
    and "rq_Method r = ''POST''" "rq_Path r = ''/api/simulate''"
    and "decodeJSON bod = Inr req" "\<And>i. d_body d (withID i r) = bod" "\<And>i. d_env d (withID i r) = env"
    and "valid_request (Inr req)" "\<forall>p\<in>set (req_Processes req). in_Arrival p \<le> lastArrival"
    and "lastArrival + (\<Sum>p\<leftarrow>req_Processes req. demand (buildProcess p)) \<le> int (e_turns env)"
    and "int (e_turns env) \<le> MaxInt64" "CHR ''/'' \<notin> set (e_stamp env)"
  shows "\<exists>w' resp rec. main_handler cfg (server_mux d cfg) r w = Returned w' \<and> w_status w' = 200 \<and>
    w_json w' = Some \<lparr>rs_status = 200, rs_body = SimulateBody resp\<rparr> \<and>
    u_State (resp_State resp) = SimStateComplete \<and>
    mset (map resetProcess (u_CompletedProcesses (resp_State resp))) = mset (map buildProcess (req_Processes req)) \<and>
    (\<forall>pid. pid \<noteq> -1 \<longrightarrow> gantt_time pid (u_GanttChart (resp_State resp)) =
       (\<Sum>p\<leftarrow>req_Processes req. if in_PID p = pid then in_Burst p else 0)) \<and>
    r_FinalState rec = Some (resp_State resp) \<and> cfg_Processes (r_Config rec) = req_Processes req \<and>
    (\<forall>q v. rq_Method q = ''GET'' \<and> rq_Path q = ''/api/simulations/'' @ resp_ID resp \<and> w_status v = 0 \<and> \<not> w_hijacked v \<and>
       app v = app w' \<longrightarrow>
       (\<exists>v'. main_handler cfg (server_mux d cfg) q v = Returned v' \<and> w_status v' = 200 \<and> app v' = app w' \<and>
          w_json v' = Some \<lparr>rs_status = 200, rs_body = RecordBody rec\<rparr>))"
proof -
  have arrivals: "\<forall>p\<in>set (req_Processes req). input64 p \<and> in_Arrival p \<le> lastArrival"
    using decodeJSON_ok [OF assms(8)] assms(12) by (auto simp: request_ok_def list_all_iff)
  obtain resp rec h where id: "\<exists>q sched name m. buildScheduler (req_Algorithm req) q = Inr (sched, name) \<and>
       resp_ID resp = name @ ''-'' @ e_stamp env @ ''-'' @ nat_digits m"
    and sim: "handleSimulate (d_sort d) env (Inr req) (ap_api (app w)) = Some (\<lparr>rs_status = 200, rs_body = SimulateBody resp\<rparr>, h)"
    and get: "handleGet (resp_ID resp) h = \<lparr>rs_status = 200, rs_body = RecordBody rec\<rparr>"
    and res: "r_FinalState rec = Some (resp_State resp)" "cfg_Processes (r_Config rec) = req_Processes req"
      "u_State (resp_State resp) = SimStateComplete"
      "mset (map resetProcess (u_CompletedProcesses (resp_State resp))) = mset (map buildProcess (req_Processes req))"
      "\<forall>pid. pid \<noteq> -1 \<longrightarrow> gantt_time pid (u_GanttChart (resp_State resp)) =
         (\<Sum>p\<leftarrow>req_Processes req. if in_PID p = pid then in_Burst p else 0)"
    using simulate_completes [OF assms(1-4,11) arrivals assms(13,14)] by blast
  let ?a = "(app w)\<lparr>ap_api := h\<rparr>" and ?mux = "server_mux d cfg"
  have "?mux (withID i r) u =
      Returned (serveJSON (d_bodyLen d) \<lparr>rs_status = 200, rs_body = SimulateBody resp\<rparr> (u\<lparr>app := ?a\<rparr>))"
    if "app u = app w" for i u
    using sim that assms(6-10) by (simp add: mux_simulate serve_simulate postSimulate_def)
  from main_handler_json [where cfg = cfg and mux = ?mux and r = r and w = w and bodyLen = "d_bodyLen d" and a = ?a, OF _ assms(5) [THEN conjunct1] assms(5) [THEN conjunct2] _ this]
  obtain w' where w': "main_handler cfg ?mux r w = Returned w'" "w_status w' = 200"
      "app w' = ?a" "w_json w' = Some \<lparr>rs_status = 200, rs_body = SimulateBody resp\<rparr>"
    using assms(6) by auto
  have seg: "CHR ''/'' \<notin> set (resp_ID resp)" "2 < length (resp_ID resp)"
    using id buildScheduler_name assms(15) by (auto simp: itoa_no_slash)
  have "\<exists>v'. main_handler cfg ?mux q v = Returned v' \<and> w_status v' = 200 \<and> app v' = app w' \<and>
      w_json v' = Some \<lparr>rs_status = 200, rs_body = RecordBody rec\<rparr>"
    if "rq_Method q = ''GET''" "rq_Path q = ''/api/simulations/'' @ resp_ID resp" "w_status v = 0" "\<not> w_hijacked v" "app v = app w'" for q v
  proof -
    have "?mux (withID i q) u =
        Returned (serveJSON (d_bodyLen d) \<lparr>rs_status = 200, rs_body = RecordBody rec\<rparr> (u\<lparr>app := app w'\<rparr>))"
      if "app u = app v" for i u
    proof -
      have "u\<lparr>app := app w'\<rparr> = u" using that \<open>app v = app w'\<close> by (cases u) simp
      moreover have "ap_api (app u) = h" using that \<open>app v = app w'\<close> w'(3) by simp
      ultimately show ?thesis
        using mux_get [of "withID i q" "resp_ID resp"] seg \<open>rq_Method q = _\<close> \<open>rq_Path q = _\<close> get by (simp add: serve_get)
    qed
    from main_handler_json [where cfg = cfg and mux = ?mux and r = q and w = v and bodyLen = "d_bodyLen d" and a = "app w'", OF _ that(3,4) _ this]
    show ?thesis using that(1) by auto
  qed
  with w' res show ?thesis by blast
qed

theorem simulate_then_fetch_witness:
  "\<exists>w' i. main_handler Default (server_mux (demo_deps (encodeConfig demo_config)) Default) (demo_http ''POST'' ''/api/simulate'')
       (blank demo_app) = Returned w' \<and> w_status w' = 200 \<and>
     (\<exists>v'. main_handler Default (server_mux (demo_deps (encodeConfig demo_config)) Default)
       (demo_http ''GET'' (''/api/simulations/'' @ i)) (blank (app w')) = Returned v' \<and> w_status v' = 200)"
proof -
  let ?d = "demo_deps (encodeConfig demo_config)" and ?w = "blank demo_app"
  have d: "d_sort ?d = (\<lambda>key. sort_key key)" "\<And>r. d_env ?d r = demo_env 9" "\<And>r. d_body ?d r = encodeConfig demo_config"
    by (simp_all add: demo_deps_def Let_def)
  have a: "ap_api (app ?w) = NewHandler (Store_New 3) 4 100 1" "w_status ?w = 0 \<and> \<not> w_hijacked ?w" by (simp_all add: blank_def demo_app_def)
  have h: "h_idCounter (ap_api (app ?w)) \<noteq> - 1" "acquire (ap_api (app ?w)) \<noteq> None"
    unfolding a by (simp_all add: NewHandler_def acquire_def)
  have p: "\<forall>p\<in>set (req_Processes demo_request). in_Arrival p \<le> 0"
    by (simp add: demo_request_def)
  have t: "0 + (\<Sum>p\<leftarrow>req_Processes demo_request. demand (buildProcess p)) \<le> int (e_turns (demo_env 9))"
    by (simp add: demo_request_def demo_env_def demand_def buildProcess_eq) (simp add: NewProcess_def)
  have s: "slice_sort (d_sort ?d)" "api_run (d_sort ?d) (ap_api (app ?w)) 0"
    unfolding d a using stable.slice_sort_axioms api_run.start by blast+
  have e: "int (e_turns (demo_env 9)) \<le> MaxInt64" "CHR ''/'' \<notin> set (e_stamp (demo_env 9))"
    by (simp_all add: demo_env_def)
  have r: "rq_Method (demo_http ''POST'' ''/api/simulate'') = ''POST''" "rq_Path (demo_http ''POST'' ''/api/simulate'') = ''/api/simulate''"
    by (simp_all add: demo_http_def)
  from simulate_then_fetch [where cfg = Default, OF s h a(2) r demo_body_decodes d(3,2) demo_request_valid(1) p t e]
  obtain w' rec and resp :: simulateResponse where w': "main_handler Default (server_mux ?d Default) (demo_http ''POST'' ''/api/simulate'') ?w = Returned w'"
    "w_status w' = 200" and get: "\<forall>q v. rq_Method q = ''GET'' \<and> rq_Path q = ''/api/simulations/'' @ resp_ID resp \<and> w_status v = 0 \<and> \<not> w_hijacked v \<and>
       app v = app w' \<longrightarrow> (\<exists>v'. main_handler Default (server_mux ?d Default) q v = Returned v' \<and> w_status v' = 200 \<and>
         app v' = app w' \<and> w_json v' = Some \<lparr>rs_status = 200, rs_body = RecordBody rec\<rparr>)"
    by blast
  show ?thesis using w' get [rule_format, of "demo_http ''GET'' (''/api/simulations/'' @ resp_ID resp)" "blank (app w')"]
    by (intro exI [of _ w'] exI [of _ "resp_ID resp"]) (auto simp: demo_http_def blank_def)
qed

section \<open>The WebSocket upgrade\<close>

lemma http_Error_writer:
  assumes "w_status w = 0" "\<not> w_hijacked w" "w_writer w = Some \<lparr>sw_status = 0, sw_bytes = 0\<rparr>" "code \<noteq> 0"
  shows "\<exists>sw. w_writer (http_Error msg code w) = Some sw \<and> sw_status sw = code"
  using assms by (simp add: http_Error_def Let_def sw_WriteHeader_def sw_Write_def base_WriteHeader_def base_Write_def)



section \<open>Start-up and health\<close>

lemma health_status:
  assumes "rq_Method r = ''GET''" "rq_Path r = ''/health''" "w_status w = 0" "\<not> w_hijacked w"
  shows "w_status (final (main_handler cfg (server_mux d cfg) r w)) = (if srv_closed (ap_web (app w)) then 503 else 200)"
proof -
  have "rq_Method r \<noteq> ''OPTIONS''" using assms(1) by simp
  from main_handler_call [OF this] obtain i u where u: "w_status u = 0" "app u = app w" "\<not> w_hijacked u"
    "\<forall>v. server_mux d cfg (withID i r) u = Returned v \<longrightarrow>
       main_handler cfg (server_mux d cfg) r w = LogAndMetrics (\<lambda>_ _. Returned v) (withID i r) w"
    using assms(3,4) by metis
  moreover have "\<exists>v. server_mux d cfg (withID i r) u = Returned v \<and>
      w_status v = (if srv_closed (ap_web (app w)) then 503 else 200)"
    using u(1-3) assms(1,2)
    by (auto simp: mux_health health_endpoint_def HandleHealth_def Header_Set_def Let_def sw_WriteHeader_def sw_Write_def
        base_WriteHeader_def base_Write_def split: option.split)
  ultimately obtain v where "main_handler cfg (server_mux d cfg) r w = LogAndMetrics (\<lambda>_ _. Returned v) (withID i r) w"
      "w_status v = (if srv_closed (ap_web (app w)) then 503 else 200)" by blast
  then show ?thesis using LogAndMetrics_final [of v "withID i r" w] by auto
qed

lemma main_Listening:
  "main client_Get Args Getenv = Listening p \<longleftrightarrow>
     \<not> (length Args = 2 \<and> Args ! 1 = ''--health'') \<and> Validate (FromEnv Getenv) = Inr (FromEnv Getenv) \<and>
     p = (let cfg = FromEnv Getenv
          in \<lparr>rn_cfg = cfg, rn_logger = Init (LogLevel cfg) (LogFormat cfg), rn_server = NewServer cfg,
              rn_api = NewHandler (Store_New 100) (DefaultTimeQuantum cfg) (DefaultSpeed cfg) (SimConcurrencyLimit cfg),
              rn_http = http_server cfg\<rparr>)"
proof -
  have "Validate c = Inr c' \<Longrightarrow> c' = c" for c c' by (auto simp: Validate_def split: if_splits option.splits)
  then show ?thesis by (auto simp: main_def startup_def Let_def split: sum.splits)
qed



end
