(* ===== verification/Web_Props.thy ===== *)
theory Web_Props
  imports Web_Server
begin

text \<open>
  Correctness of the WebSocket server: no message makes it panic or breaks the simulator, its
  queues and client limits hold under any interleaving of messages, connections and engine turns,
  and initialising over the WebSocket with decoded numbers builds the same simulation as the REST API.
\<close>

section \<open>Parsed processes\<close>

lemma numberOr_in64: "float_conv conv \<Longrightarrow> in64 d \<Longrightarrow> in64 (numberOr conv m key d)"
  by (auto simp: numberOr_def float_conv.conv_in64 split: option.splits json.splits)

text \<open>A process that is fresh but for its I/O bursts stays so when bursts are appended.\<close>

lemma parseBursts_fresh: "float_conv conv \<Longrightarrow> fresh p \<Longrightarrow> fresh (parseBursts conv items p)"
proof (induction conv items p rule: parseBursts.induct)
  case (2 conv item items p)
  show ?case
  proof (cases item)
    case (JObj bMap)
    let ?a = "numberOr conv bMap ''afterCPUTime'' 0" and ?d = "numberOr conv bMap ''duration'' 0"
    have "?d \<le> MaxInt64" using numberOr_in64 [OF 2(7), of 0 bMap "''duration''"] by (simp add: in64_def)
    then have "fresh (p\<lparr>IOBursts := IOBursts p @ [\<lparr>AfterCPUTime = ?a, Duration = ?d, Completed = False\<rparr>]\<rparr>)"
      using 2(8) by (simp add: fresh_def resetProcess_def) (cases p, simp)
    then show ?thesis using 2 JObj by (simp add: Let_def)
  qed (use 2 in simp_all)
qed simp

lemma getInt_in64: "float_conv conv \<Longrightarrow> getInt conv m k = Inr n \<Longrightarrow> in64 n"
  by (auto simp: getInt_def float_conv.conv_in64 split: option.splits json.splits)

lemma parseProcess_fresh:
  assumes "float_conv conv" "parseProcess conv m = Inr p"
  shows "fresh p"
proof -
  have f: "fresh (NewProcess pid name arrival burst prio)"
    if "getInt conv m ''arrivalTime'' = Inr arrival" "getInt conv m ''burstTime'' = Inr burst" "\<not> arrival < 0" "\<not> burst \<le> 0"
    for pid name arrival burst prio
    using that getInt_in64 [OF assms(1)] by (intro fresh_NewProcess) (auto simp: in64_def)
  then show ?thesis using assms(2) parseBursts_fresh [OF assms(1)]
    by (auto simp: parseProcess_def Let_def split: sum.splits if_splits option.splits json.splits)
qed

lemma parseProcesses_fresh:
  "float_conv conv \<Longrightarrow> parseProcesses conv ps acc = Inr qs \<Longrightarrow> \<forall>p\<in>set acc. fresh p \<Longrightarrow> \<forall>p\<in>set qs. fresh p"
proof (induction ps arbitrary: acc)
  case (Cons j ps)
  obtain pMap p where "j = JObj pMap" "parseProcess conv pMap = Inr p" "parseProcesses conv ps (acc @ [p]) = Inr qs"
    using Cons.prems(2) by (auto split: json.splits sum.splits)
  then show ?case using Cons.IH [of "acc @ [p]"] Cons.prems(1,3) parseProcess_fresh by auto
qed simp

lemma initScheduler_ok: "initScheduler a q = Some s \<Longrightarrow> sched_ok s"
  using constructors_ok by (auto simp: initScheduler_def split: if_splits)

section \<open>Engine turns\<close>

lemma tick_updates_runTick: "map_option snd (tick_updates now s) = runTick s"
  by (cases "executeTimeUnit s") (simp_all add: tick_updates_def runTick_def Let_def)

lemma Step_updates_Step: "map_option snd (Step_updates now s) = Step s"
  by (simp add: Step_updates_def Step_def tick_updates_runTick)

lemma tick_total:
  assumes "slice_sort sortSlice" "reachable sortSlice s" "currentTime s < MaxInt64"
  shows "runTick s \<noteq> None" "Step s \<noteq> None"
proof -
  have "sim_inv s" using structural.reachable_inv [OF assms(1,2)] by (simp add: base_inv_def)
  then have t: "runTick (s\<lparr>sim_state := st\<rparr>) \<noteq> None" for st
    using executeTimeUnit_total [of "s\<lparr>sim_state := st\<rparr>"] assms(3) by (fastforce simp: runTick_def)
  show "runTick s \<noteq> None" using t [of "sim_state s"] by simp
  then show "Step s \<noteq> None" using t by (auto simp: Step_def)
qed

lemma trySend_frame [simp]:
  "srv_simulator (trySend env u s) = srv_simulator s" "srv_clients (trySend env u s) = srv_clients s"
  "srv_cfg (trySend env u s) = srv_cfg s" "srv_metrics (trySend env u s) = srv_metrics s"
  "srv_closed (trySend env u s) = srv_closed s"
  by (simp_all add: trySend_def)

lemma fold_trySend_frame [simp]:
  "srv_simulator (fold (trySend env) us s) = srv_simulator s" "srv_clients (fold (trySend env) us s) = srv_clients s"
  "srv_cfg (fold (trySend env) us s) = srv_cfg s" "srv_metrics (fold (trySend env) us s) = srv_metrics s"
  by (induction us arbitrary: s) simp_all

definition queue_ok :: "Server \<Rightarrow> bool" where
  "queue_ok s \<longleftrightarrow> int (length (srv_broadcast s)) \<le> max 0 (BroadcastBufferSize (srv_cfg s))"

lemma queue_ok_sim [simp]: "queue_ok (s\<lparr>srv_simulator := x\<rparr>) = queue_ok s"
  by (simp add: queue_ok_def)

lemma trySend_queue: "queue_ok s \<Longrightarrow> queue_ok (trySend env u s)"
  by (auto simp: queue_ok_def trySend_def)

lemma fold_trySend_queue: "queue_ok s \<Longrightarrow> queue_ok (fold (trySend env) us s)"
  by (induction us arbitrary: s) (simp_all add: trySend_queue)

section \<open>The server under any sequence of events\<close>

definition clock_ok :: "Server \<Rightarrow> bool" where
  "clock_ok s \<longleftrightarrow> (case srv_simulator s of None \<Rightarrow> True | Some sim \<Rightarrow> currentTime sim < MaxInt64)"

text \<open>
  What happens to a server: messages of clients, turns of the run loop, deliveries from the
  broadcast queue, connections that come and go or break, the two halves of an \<^verbatim>\<open>init\<close>, updates
  of a simulator that has been replaced, and the parts of the shutdown, in any order. The list names
  the connections whose handler is still running.
\<close>

inductive server_run ::
    "((addr \<Rightarrow> int) \<Rightarrow> addr list \<Rightarrow> addr list) \<Rightarrow> (rat \<Rightarrow> int) \<Rightarrow> Server \<Rightarrow> nat list \<Rightarrow> bool" for sortSlice conv where
  new: "server_run sortSlice conv (NewServer cfg) []"
| message: "server_run sortSlice conv s cs \<Longrightarrow> clock_ok s \<Longrightarrow> handleMessage sortSlice conv env msg s = Some (replies, s') \<Longrightarrow>
    server_run sortSlice conv s' cs"
| turn: "server_run sortSlice conv s cs \<Longrightarrow> clock_ok s \<Longrightarrow> engine_turn env s = Some s' \<Longrightarrow> server_run sortSlice conv s' cs"
| deliver: "server_run sortSlice conv s cs \<Longrightarrow> handleBroadcasts fails s = Some (out, s') \<Longrightarrow> server_run sortSlice conv s' cs"
| connected: "server_run sortSlice conv s cs \<Longrightarrow> wc \<notin> set cs \<Longrightarrow> connect env wc s = (True, ms, s') \<Longrightarrow>
    server_run sortSlice conv s' (wc # cs)"
| broken: "server_run sortSlice conv s cs \<Longrightarrow> server_run sortSlice conv (unregisterClient wc s) cs"
| disconnected: "server_run sortSlice conv s cs \<Longrightarrow> wc \<in> set cs \<Longrightarrow>
    server_run sortSlice conv (disconnect wc s) (remove1 wc cs)"
| read_error: "server_run sortSlice conv s cs \<Longrightarrow>
    server_run sortSlice conv (s\<lparr>srv_metrics := srv_metrics s @ IncWSError ''read''\<rparr>) cs"
| installed: "server_run sortSlice conv s cs \<Longrightarrow> buildInit sortSlice conv msg = Inr sim \<Longrightarrow>
    server_run sortSlice conv (s\<lparr>srv_simulator := Some sim\<rparr>) cs"
| stray: "server_run sortSlice conv s cs \<Longrightarrow> server_run sortSlice conv (trySend env u s) cs"
| closing: "server_run sortSlice conv s cs \<Longrightarrow> server_run sortSlice conv (s\<lparr>srv_closed := True\<rparr>) cs"
| stopped: "server_run sortSlice conv s cs \<Longrightarrow>
    server_run sortSlice conv (s\<lparr>srv_simulator := map_option (Stop taken) (srv_simulator s)\<rparr>) cs"
| dropped: "server_run sortSlice conv s cs \<Longrightarrow> server_run sortSlice conv (s\<lparr>srv_clients := []\<rparr>) cs"

definition sim_ok :: "((addr \<Rightarrow> int) \<Rightarrow> addr list \<Rightarrow> addr list) \<Rightarrow> Server \<Rightarrow> bool" where
  "sim_ok sortSlice s \<longleftrightarrow> (\<forall>sim. srv_simulator s = Some sim \<longrightarrow> reachable sortSlice sim)"

text \<open>What a message does to the parts of the server.\<close>

definition message_effect ::
    "((addr \<Rightarrow> int) \<Rightarrow> addr list \<Rightarrow> addr list) \<Rightarrow> Server \<Rightarrow> (ws_message list \<times> Server) option \<Rightarrow> bool" where
  "message_effect sortSlice s res \<longleftrightarrow>
     (case res of None \<Rightarrow> False
      | Some (_, s') \<Rightarrow> sim_ok sortSlice s' \<and> (queue_ok s \<longrightarrow> queue_ok s') \<and> srv_clients s' = srv_clients s \<and>
          srv_cfg s' = srv_cfg s \<and> srv_metrics s' = srv_metrics s)"

lemma message_effect_same: "sim_ok sortSlice s \<Longrightarrow> message_effect sortSlice s (Some (ms, s))"
  by (simp add: message_effect_def)

lemma message_effect_sim:
  "reachable sortSlice sim \<Longrightarrow> message_effect sortSlice s (Some (ms, fold (trySend env) us (s\<lparr>srv_simulator := Some sim\<rparr>)))"
  by (simp add: message_effect_def sim_ok_def fold_trySend_queue)

lemma buildInit_reachable:
  assumes "slice_sort sortSlice" "float_conv conv" "buildInit sortSlice conv msg = Inr sim"
  shows "reachable sortSlice sim" "sim_state sim = SimStateIdle" "currentTime sim = 0"
proof -
  have "reachable sortSlice (Simulator_AddProcesses sortSlice ps (NewSimulator sched))"
    if "sched_ok sched" "\<forall>p\<in>set ps. fresh p" for ps sched
    using AddProcesses_workload [OF assms(1) reachable.new [OF that(1)] that(2)] by blast
  moreover have "\<forall>p\<in>set qs. fresh p" if "parseProcesses conv ps [] = Inr qs" for ps qs
    using parseProcesses_fresh [OF assms(2) that] by simp
  moreover obtain ps sched where sim: "sim = Simulator_AddProcesses sortSlice ps (NewSimulator sched)"
      "\<exists>a q. initScheduler a q = Some sched" "\<exists>js. parseProcesses conv js [] = Inr ps"
    using assms(3) by (auto simp: buildInit_def Let_def split: option.splits sum.splits json.splits if_splits)
  ultimately show "reachable sortSlice sim" using initScheduler_ok by blast
  show "sim_state sim = SimStateIdle" "currentTime sim = 0" by (simp_all add: sim(1) NewSimulator_def)
qed

lemma handleInit_effect:
  assumes "slice_sort sortSlice" "float_conv conv" "sim_ok sortSlice s"
  shows "message_effect sortSlice s (sent env (Some (handleInit sortSlice conv env msg s)))"
  using buildInit_reachable(1) [OF assms(1,2)] assms(3)
  by (auto simp: sent_def handleInit_def message_effect_def sim_ok_def split: sum.splits)

lemma handleMessage_effect:
  assumes "slice_sort sortSlice" "float_conv conv" "sim_ok sortSlice s" "clock_ok s"
  shows "message_effect sortSlice s (handleMessage sortSlice conv env msg s)"
proof (cases "srv_simulator s")
  case None
  have "message_effect sortSlice s (sent env (with_sim s f))" for f
    using None message_effect_same [OF assms(3)] by (simp add: with_sim_def sent_def)
  then show ?thesis
    using handleInit_effect [OF assms(1-3)] message_effect_same [OF assms(3)]
    by (auto simp: handleMessage_def sent_def [of _ "Some x" for x] route_message_def handleStart_def handlePause_def handleResume_def handleStop_def handleReset_def
        handleStep_def handleSpeed_def handleAddProcess_def handleGetState_def split: option.splits json.splits)
next
  case (Some sim)
  have r: "reachable sortSlice sim" using Some assms(3) by (simp add: sim_ok_def)
  have t: "currentTime sim < MaxInt64" using Some assms(4) by (simp add: clock_ok_def)
  note w = with_sim_def [of s, unfolded Some, simplified] sent_def
  note eff = message_effect_sim [of sortSlice _ s _ env "[]", simplified]
    message_effect_sim [of sortSlice _ s _ env "[u]" for u, simplified] message_effect_same [OF assms(3)]
  have same: "message_effect sortSlice s (sent env (Some (ms, [], s)))" for ms using eff(3) by (simp add: sent_def)
  have step: "message_effect sortSlice s (sent env (handleStep env s))"
  proof -
    obtain us sim' where u: "Step_updates (env_now env) sim = Some (us, sim')"
      using tick_total(2) [OF assms(1) r t] Step_updates_Step [of "env_now env" sim]
      by (cases "Step_updates (env_now env) sim") auto
    then have "reachable sortSlice sim'"
      using reachable.step [OF r t] Step_updates_Step [of "env_now env" sim] by (metis option.simps(9) snd_conv)
    then show ?thesis using u message_effect_sim by (simp add: handleStep_def w)
  qed
  have add: "message_effect sortSlice s (sent env (handleAddProcess sortSlice conv env msg s))"
    using parseProcess_fresh [OF assms(2)] reachable.add [OF r] eff
    by (auto simp: handleAddProcess_def w Let_def split: option.splits json.splits sum.splits)
  have speed: "message_effect sortSlice s (sent env (handleSpeed conv msg s))"
    using reachable.speed [OF r] eff by (auto simp: handleSpeed_def w split: option.splits json.splits)
  have ctl: "message_effect sortSlice s (sent env (handleStart s))" "message_effect sortSlice s (sent env (handlePause s))"
    "message_effect sortSlice s (sent env (handleResume s))" "message_effect sortSlice s (sent env (handleStop env s))"
    "message_effect sortSlice s (sent env (handleReset env s))" "message_effect sortSlice s (sent env (handleGetState env s))"
    using reachable.start [OF r] reachable.pause [OF r] reachable.resume [OF r] reachable.stop [OF r] reachable.reset [OF r] eff
    by (simp_all add: handleStart_def handlePause_def handleResume_def handleStop_def handleReset_def handleGetState_def w Let_def)
  show ?thesis
    using handleInit_effect [OF assms(1-3)] step add speed ctl same
    by (auto simp: handleMessage_def route_message_def split: option.splits json.splits)
qed

lemma engine_turn_effect:
  assumes "slice_sort sortSlice" "sim_ok sortSlice s" "clock_ok s"
  shows "message_effect sortSlice s (map_option (\<lambda>s'. ([], s')) (engine_turn env s))"
proof (cases "srv_simulator s")
  case None
  then show ?thesis using message_effect_same [OF assms(2)] by (simp add: engine_turn_def)
next
  case (Some sim)
  have r: "reachable sortSlice sim" using Some assms(2) by (simp add: sim_ok_def)
  have t: "currentTime sim < MaxInt64" using Some assms(3) by (simp add: clock_ok_def)
  obtain us sim' where u: "tick_updates (env_now env) sim = Some (us, sim')"
    using tick_total(1) [OF assms(1) r t] tick_updates_runTick [of "env_now env" sim]
    by (cases "tick_updates (env_now env) sim") auto
  then have "reachable sortSlice sim'"
    using reachable.tick [OF r t] tick_updates_runTick [of "env_now env" sim] by (metis option.simps(9) snd_conv)
  then show ?thesis
    using Some u message_effect_sim message_effect_same [OF assms(2)] by (simp add: engine_turn_def)
qed

definition clients_ok :: "Server \<Rightarrow> nat list \<Rightarrow> bool" where
  "clients_ok s cs \<longleftrightarrow>
     distinct cs \<and> distinct (srv_clients s) \<and> set (srv_clients s) \<subseteq> set cs \<and>
     (0 < MaxClients (srv_cfg s) \<longrightarrow> int (length (srv_clients s)) \<le> MaxClients (srv_cfg s)) \<and>
     increments ''scheduler_ws_clients'' (srv_metrics s) = decrements ''scheduler_ws_clients'' (srv_metrics s) + length cs"

definition server_inv :: "((addr \<Rightarrow> int) \<Rightarrow> addr list \<Rightarrow> addr list) \<Rightarrow> Server \<Rightarrow> nat list \<Rightarrow> bool" where
  "server_inv sortSlice s cs \<longleftrightarrow> sim_ok sortSlice s \<and> queue_ok s \<and> clients_ok s cs"

lemma clients_ok_cong:
  "srv_clients s' = srv_clients s \<Longrightarrow> srv_cfg s' = srv_cfg s \<Longrightarrow> srv_metrics s' = srv_metrics s \<Longrightarrow>
   clients_ok s' cs = clients_ok s cs"
  by (simp add: clients_ok_def)

lemma effect_inv:
  assumes "message_effect sortSlice s (Some (ms, s'))" "server_inv sortSlice s cs"
  shows "server_inv sortSlice s' cs"
  using assms clients_ok_cong [of s' s cs] by (simp add: message_effect_def server_inv_def)

lemma int_removeAll: "int (length (removeAll x xs)) \<le> int (length xs)"
  by simp

lemma clients_ok_remove:
  assumes "clients_ok s cs" "srv_clients s' = removeAll wc (srv_clients s)" "srv_cfg s' = srv_cfg s"
    "srv_metrics s' = srv_metrics s"
  shows "clients_ok s' cs"
  using assms by (auto simp: clients_ok_def distinct_removeAll intro: order_trans [OF int_removeAll])

lemma unregisterClient_frame [simp]:
  "srv_simulator (unregisterClient wc s) = srv_simulator s" "srv_broadcast (unregisterClient wc s) = srv_broadcast s"
  "srv_cfg (unregisterClient wc s) = srv_cfg s" "srv_metrics (unregisterClient wc s) = srv_metrics s"
  "srv_closed (unregisterClient wc s) = srv_closed s" "srv_clients (unregisterClient wc s) = removeAll wc (srv_clients s)"
  by (auto simp: unregisterClient_def)

lemma write_all_frame [simp]:
  "srv_simulator (snd (write_all fails u ws s)) = srv_simulator s" "srv_broadcast (snd (write_all fails u ws s)) = srv_broadcast s"
  "srv_cfg (snd (write_all fails u ws s)) = srv_cfg s" "srv_closed (snd (write_all fails u ws s)) = srv_closed s"
  by (induction fails u ws s rule: write_all.induct) (auto split: prod.splits)

lemma unregisterClient_clients: "clients_ok s cs \<Longrightarrow> clients_ok (unregisterClient wc s) cs"
  by (rule clients_ok_remove [of s cs _ wc]) simp_all

lemma write_all_clients: "clients_ok s cs \<Longrightarrow> clients_ok (snd (write_all fails u ws s)) cs"
proof (induction fails u ws s rule: write_all.induct)
  case (2 fails u wc ws s)
  have "clients_ok (s\<lparr>srv_metrics := srv_metrics s @ IncWSError ''write''\<rparr>) cs"
    using 2(3) by (simp add: clients_ok_def IncWSError_def)
  then show ?case using 2 unregisterClient_clients by (auto split: prod.splits)
qed simp

lemma server_run_inv:
  assumes "slice_sort sortSlice" "float_conv conv"
  shows "server_run sortSlice conv s cs \<Longrightarrow> server_inv sortSlice s cs"
proof (induction rule: server_run.induct)
  case (new cfg)
  then show ?case by (simp add: server_inv_def sim_ok_def queue_ok_def clients_ok_def NewServer_def)
next
  case (message s cs env msg replies s')
  have "message_effect sortSlice s (Some (replies, s'))"
    using handleMessage_effect [OF assms, of s env msg] message by (simp add: server_inv_def)
  then show ?case using message effect_inv by blast
next
  case (turn s cs env s')
  have "message_effect sortSlice s (Some ([], s'))"
    using engine_turn_effect [OF assms(1), of s env] turn by (simp add: server_inv_def)
  then show ?case using turn effect_inv by blast
next
  case (deliver s cs fails out s')
  then obtain u us where u: "srv_broadcast s = u # us"
    "s' = snd (write_all fails u (srv_clients s) (s\<lparr>srv_broadcast := us\<rparr>))"
    by (auto simp: handleBroadcasts_def split: list.splits)
  have "clients_ok (s\<lparr>srv_broadcast := us\<rparr>) cs" using deliver by (simp add: server_inv_def clients_ok_def)
  then have "clients_ok s' cs" unfolding u(2) by (rule write_all_clients)
  then show ?case using deliver by (simp add: u server_inv_def sim_ok_def queue_ok_def)
next
  case (connected s cs wc env ms s')
  then have s': "s' = s\<lparr>srv_clients := srv_clients s @ [wc], srv_metrics := srv_metrics s @ IncClient\<rparr>"
    "\<not> (0 < MaxClients (srv_cfg s) \<and> MaxClients (srv_cfg s) \<le> int (length (srv_clients s)))"
    by (auto simp: connect_def Let_def split: if_splits)
  then show ?case using connected
    by (auto simp: server_inv_def sim_ok_def queue_ok_def clients_ok_def IncClient_def)
next
  case (broken s cs wc)
  then show ?case using unregisterClient_clients by (simp add: server_inv_def sim_ok_def queue_ok_def)
next
  case (disconnected s cs wc)
  have "length cs = Suc (length (remove1 wc cs))" using disconnected(2) by (auto simp: length_remove1 Suc_diff_1 dest: length_pos_if_in_set)
  then have "clients_ok (disconnect wc s) (remove1 wc cs)"
    using disconnected
    by (auto simp: server_inv_def clients_ok_def disconnect_def DecClient_def distinct_removeAll
        intro: order_trans [OF int_removeAll])
  then show ?case using disconnected by (simp add: server_inv_def sim_ok_def queue_ok_def disconnect_def)
next
  case (read_error s cs)
  then show ?case by (simp add: server_inv_def sim_ok_def queue_ok_def clients_ok_def IncWSError_def)
next
  case (installed s cs msg sim)
  then show ?case using buildInit_reachable(1) [OF assms installed.hyps(2)]
    by (simp add: server_inv_def sim_ok_def clients_ok_def)
next
  case (stray s cs env u)
  then show ?case using trySend_queue clients_ok_cong [of "trySend env u s" s cs] by (simp add: server_inv_def sim_ok_def)
next
  case (closing s cs)
  then show ?case by (simp add: server_inv_def sim_ok_def queue_ok_def clients_ok_def)
next
  case (stopped s cs taken)
  then show ?case by (auto simp: server_inv_def sim_ok_def clients_ok_def intro: reachable.stop)
next
  case (dropped s cs)
  then show ?case by (simp add: server_inv_def sim_ok_def queue_ok_def clients_ok_def)
qed

text \<open>The shutdown without anything in between.\<close>

lemma server_run_Shutdown: "server_run sortSlice conv s cs \<Longrightarrow> server_run sortSlice conv (Shutdown env s) cs"
  using server_run.dropped [OF server_run.stopped [OF server_run.closing], of sortSlice conv s cs "env_taken env"]
  by (simp add: Shutdown_def)

section \<open>The two ways to start a simulation\<close>

text \<open>
  The message that asks for what a REST request asks for: every number as decoding it as a JSON
  number gives it, a double.
\<close>

definition json_int :: "int \<Rightarrow> json" where
  "json_int n = JNum (float64 n)"

definition json_process :: "ProcessInput \<Rightarrow> json" where
  "json_process p =
     JObj ([(''pid'', json_int (in_PID p)), (''name'', JStr (in_Name p)), (''arrivalTime'', json_int (in_Arrival p)),
        (''burstTime'', json_int (in_Burst p)), (''priority'', json_int (in_Priority p))] @
       (if in_IOBursts p = [] then []
        else [(''ioBursts'', JArr (map (\<lambda>b. JObj [(''afterCPUTime'', json_int (in_AfterCPUTime b)), (''duration'', json_int (in_Duration b))])
          (in_IOBursts p)))]))"

definition json_init :: "simulateRequest \<Rightarrow> object" where
  "json_init req =
     [(''type'', JStr ''init''), (''algorithm'', JStr (req_Algorithm req)), (''timeQuantum'', json_int (req_TimeQuantum req)),
      (''processes'', JArr (map json_process (req_Processes req)))]"

definition exact :: "int \<Rightarrow> bool" where
  "exact n \<longleftrightarrow> \<bar>n\<bar> < 2 ^ 53"

definition exact_input :: "ProcessInput \<Rightarrow> bool" where
  "exact_input p \<longleftrightarrow> list_all exact [in_PID p, in_Arrival p, in_Burst p, in_Priority p] \<and>
     list_all (\<lambda>b. exact (in_AfterCPUTime b) \<and> exact (in_Duration b)) (in_IOBursts p)"

lemma conv_exact_int:
  assumes "float_conv conv" "exact n"
  shows "conv (float64 n) = n"
proof -
  have f: "float64 n = of_int n" using fround_int assms(2) by (simp add: float64_def exact_def)
  have t: "trunc_int (of_int n) = n" by (simp add: trunc_int_def flip: of_int_minus)
  then show ?thesis using float_conv.conv_exact [OF assms(1), of "of_int n"] assms(2) f unfolding in64_def exact_def by simp linarith
qed

lemma json_bursts:
  assumes "float_conv conv"
  shows "list_all (\<lambda>b. exact (in_AfterCPUTime b) \<and> exact (in_Duration b)) bs \<Longrightarrow>
    parseBursts conv (map (\<lambda>b. JObj [(''afterCPUTime'', json_int (in_AfterCPUTime b)), (''duration'', json_int (in_Duration b))]) bs) p =
    foldl (\<lambda>proc b. if 0 < in_Duration b
       then proc\<lparr>IOBursts := IOBursts proc @ [\<lparr>AfterCPUTime = in_AfterCPUTime b, Duration = in_Duration b, Completed = False\<rparr>]\<rparr>
       else proc) p bs"
  by (induction bs arbitrary: p) (simp_all add: numberOr_def json_int_def conv_exact_int [OF assms])

lemma json_process_parse:
  assumes "float_conv conv" "exact_input p" "validateProcess p = None"
  shows "\<exists>m. json_process p = JObj m \<and> parseProcess conv m = Inr (buildProcess p)"
proof -
  have e: "exact (in_PID p)" "exact (in_Arrival p)" "exact (in_Burst p)" "exact (in_Priority p)"
    "list_all (\<lambda>b. exact (in_AfterCPUTime b) \<and> exact (in_Duration b)) (in_IOBursts p)"
    using assms(2) by (simp_all add: exact_input_def)
  show ?thesis
    using assms(3) e unfolding json_process_def validateProcess_None
    by (simp add: parseProcess_def getInt_def getString_def json_int_def [of "in_PID p"] json_int_def [of "in_Arrival p"]
        json_int_def [of "in_Burst p"] json_int_def [of "in_Priority p"] conv_exact_int [OF assms(1)]
        json_bursts [OF assms(1)] buildProcess_def Let_def)
qed

lemma json_processes_parse:
  assumes "float_conv conv"
  shows "list_all exact_input ps \<Longrightarrow> list_all (\<lambda>p. validateProcess p = None) ps \<Longrightarrow>
    parseProcesses conv (map json_process ps) acc = Inr (acc @ map buildProcess ps)"
proof (induction ps arbitrary: acc)
  case (Cons p ps)
  then show ?case using json_process_parse [OF assms, of p] by fastforce
qed simp

lemma initScheduler_buildScheduler:
  "initScheduler a q = (case buildScheduler a q of Inl _ \<Rightarrow> None | Inr (s, _) \<Rightarrow> Some s)"
  by (simp add: initScheduler_def buildScheduler_def Let_def)

text \<open>
  The handler of an \<^verbatim>\<open>init\<close> message installs the simulator that the REST handler builds from the same
  request.
\<close>

lemma init_installs_request:
  assumes "float_conv conv" "valid_request (Inr req)" "exact (req_TimeQuantum req)" "list_all exact_input (req_Processes req)"
  shows "\<exists>sched name sim. buildScheduler (req_Algorithm req) (req_TimeQuantum req) = Inr (sched, name) \<and>
    addRequestProcesses sortSlice (req_Processes req) (NewSimulator sched) = Inr sim \<and>
    handleMessage sortSlice conv env (json_init req) s =
      Some ([Success ''Simulator initialized'', StateUpdate (snapshotState (env_now env) sim)], s\<lparr>srv_simulator := Some sim\<rparr>)"
proof -
  have v: "req_Processes req \<noteq> []" "list_all (\<lambda>p. validateProcess p = None) (req_Processes req)"
    using assms(2) by (auto simp: valid_request_def validateProcess_None)
  obtain sched name where b: "buildScheduler (req_Algorithm req) (req_TimeQuantum req) = Inr (sched, name)"
    using assms(2) buildScheduler_known [of "req_Algorithm req" "req_TimeQuantum req"] by (auto simp: valid_request_def)
  then have i: "initScheduler (req_Algorithm req) (req_TimeQuantum req) = Some sched"
    by (simp add: initScheduler_buildScheduler)
  let ?sim = "Simulator_AddProcesses sortSlice (map buildProcess (req_Processes req)) (NewSimulator sched)"
  have a: "addRequestProcesses sortSlice (req_Processes req) (NewSimulator sched) = Inr ?sim"
    using all_valid_find [of "req_Processes req"] assms(2) by (simp add: addRequestProcesses_eq valid_request_def)
  have p: "parseProcesses conv (map json_process (req_Processes req)) [] = Inr (map buildProcess (req_Processes req))"
    using json_processes_parse [OF assms(1,4) v(2)] by simp
  have q: "numberOr conv (json_init req) ''timeQuantum'' 4 = req_TimeQuantum req"
    by (simp add: numberOr_def json_init_def json_int_def conv_exact_int [OF assms(1,3)])
  have "handleMessage sortSlice conv env (json_init req) s =
      Some ([Success ''Simulator initialized'', StateUpdate (snapshotState (env_now env) ?sim)], s\<lparr>srv_simulator := Some ?sim\<rparr>)"
  proof -
    have m: "map_of (json_init req) ''type'' = Some (JStr ''init'')"
      "map_of (json_init req) ''algorithm'' = Some (JStr (req_Algorithm req))"
      "map_of (json_init req) ''processes'' = Some (JArr (map json_process (req_Processes req)))"
      by (simp_all add: json_init_def)
    then show ?thesis using q i p v(1) by (simp add: handleMessage_def sent_def route_message_def handleInit_def buildInit_def m Let_def)
  qed
  with a b show ?thesis by blast
qed

end
