(* ===== verification/Web_Lifecycle.thy ===== *)
theory Web_Lifecycle
  imports Web_Props
begin

text \<open>
  The goroutines of the WebSocket server: one \<^verbatim>\<open>HandleWebSocket\<close> per connection, its pinger, the
  broadcaster, the run loops of the simulators, and \<^verbatim>\<open>Shutdown\<close> step by step, interleaved between
  any two critical sections. Sending on a closed queue panics. The wait group \<^verbatim>\<open>clientWg\<close> counts the
  handlers, so waiting for it ends when there is none. A simulator that an \<^verbatim>\<open>init\<close> message replaced
  while it was running lives on as an orphan. \<^verbatim>\<open>Stop\<close> is one step here: when it returns at all is
  treated in \<open>Control\<close>.
\<close>

section \<open>Model\<close>

text \<open>
  The points of a handler: before the upgrade has returned, in the read loop, in \<^verbatim>\<open>handleInit\<close> after
  it has stopped the old simulator and before it installs the new one, and after the read loop.
\<close>

datatype conn_pc = Connecting | Reading | Installing Simulator | Leaving

text \<open>How far \<^verbatim>\<open>Shutdown\<close> has come.\<close>

datatype shutdown_pc = Serving | Closing | SimStopped | ConnsClosed | ClientsGone | QueueClosed | Down

record net =
  nt_srv :: Server
  nt_conns :: "(nat \<times> conn_pc) list"
  nt_closed :: "nat list"
  nt_pingers :: "nat list"
  nt_orphans :: "Simulator list"
  nt_phase :: shutdown_pc

datatype outcome = Blocked | Crash | Next net

datatype net_label =
    Arrive nat | Upgraded nat bool ws_env | Receive nat object ws_env | Install nat | ReadError nat bool | Cleanup nat
  | PingTick nat bool | PingStop nat | EngineTurn ws_env | OrphanTurn nat ws_env | Deliver "nat list" | ShutdownStep ws_env

definition start_net :: "Config \<Rightarrow> net" where
  "start_net cfg =
     \<lparr>nt_srv = NewServer cfg, nt_conns = [], nt_closed = [], nt_pingers = [], nt_orphans = [], nt_phase = Serving\<rparr>"

definition set_pc :: "nat \<Rightarrow> conn_pc \<Rightarrow> net \<Rightarrow> net" where
  "set_pc wc pc n = n\<lparr>nt_conns := map (\<lambda>(c, p). if c = wc then (c, pc) else (c, p)) (nt_conns n)\<rparr>"

definition exit_conn :: "nat \<Rightarrow> net \<Rightarrow> net" where
  "exit_conn wc n = n\<lparr>nt_conns := filter (\<lambda>(c, p). c \<noteq> wc) (nt_conns n), nt_closed := wc # nt_closed n\<rparr>"

definition queue_closed :: "net \<Rightarrow> bool" where
  "queue_closed n \<longleftrightarrow> nt_phase n = QueueClosed \<or> nt_phase n = Down"

text \<open>
  The sends of a goroutine. Once the queue is closed, both the send and the case of the closed
  server are ready: the \<^verbatim>\<open>select\<close> may pick the send, which panics.
\<close>

definition broadcast_all :: "ws_env \<Rightarrow> SimulationUpdate list \<Rightarrow> net \<Rightarrow> outcome" where
  "broadcast_all env us n =
     (if us \<noteq> [] \<and> queue_closed n \<and> env_pick env then Crash
      else Next (n\<lparr>nt_srv := fold (trySend env) us (nt_srv n)\<rparr>))"

text \<open>The read loop: an \<^verbatim>\<open>init\<close> message stops the old simulator and leaves the new one to be installed.\<close>

definition receive ::
    "((addr \<Rightarrow> int) \<Rightarrow> addr list \<Rightarrow> addr list) \<Rightarrow> (rat \<Rightarrow> int) \<Rightarrow> nat \<Rightarrow> object \<Rightarrow> ws_env \<Rightarrow> net \<Rightarrow> outcome" where
  "receive sortSlice conv wc msg env n =
     (if map_of msg ''type'' = Some (JStr ''init'')
      then case buildInit sortSlice conv msg of
             Inl err \<Rightarrow> Next n
           | Inr newSim \<Rightarrow>
               Next (set_pc wc (Installing newSim)
                 (n\<lparr>nt_srv := (nt_srv n)\<lparr>srv_simulator := map_option (Stop (env_taken env)) (srv_simulator (nt_srv n))\<rparr>\<rparr>))
      else case route_message sortSlice conv env msg (nt_srv n) of
             None \<Rightarrow> Crash
           | Some (ms, us, s) \<Rightarrow> broadcast_all env us (n\<lparr>nt_srv := s\<rparr>))"

definition install :: "Simulator \<Rightarrow> net \<Rightarrow> net" where
  "install newSim n =
     n\<lparr>nt_srv := (nt_srv n)\<lparr>srv_simulator := Some newSim\<rparr>,
       nt_orphans := nt_orphans n @
         (case srv_simulator (nt_srv n) of
            None \<Rightarrow> []
          | Some old \<Rightarrow> if sim_state old = SimStateRunning \<or> sim_state old = SimStatePaused then [old] else [])\<rparr>"

text \<open>A turn of the run loop of a simulator, given where the simulator is kept.\<close>

definition run_turn :: "ws_env \<Rightarrow> Simulator \<Rightarrow> (Simulator \<Rightarrow> net) \<Rightarrow> outcome" where
  "run_turn env sim put =
     (if sim_state sim \<noteq> SimStateRunning then Blocked
      else case tick_updates (env_now env) sim of
             None \<Rightarrow> Crash
           | Some (us, sim) \<Rightarrow> broadcast_all env us (put sim))"

fun shutdown_step :: "ws_env \<Rightarrow> shutdown_pc \<Rightarrow> net \<Rightarrow> outcome" where
  "shutdown_step env Serving n = Next (n\<lparr>nt_srv := (nt_srv n)\<lparr>srv_closed := True\<rparr>, nt_phase := Closing\<rparr>)"
| "shutdown_step env Closing n =
     Next (n\<lparr>nt_srv := (nt_srv n)\<lparr>srv_simulator := map_option (Stop (env_taken env)) (srv_simulator (nt_srv n))\<rparr>,
             nt_phase := SimStopped\<rparr>)"
| "shutdown_step env SimStopped n =
     Next (n\<lparr>nt_closed := srv_clients (nt_srv n) @ nt_closed n, nt_srv := (nt_srv n)\<lparr>srv_clients := []\<rparr>, nt_phase := ConnsClosed\<rparr>)"
| "shutdown_step env ConnsClosed n = (if nt_conns n = [] then Next (n\<lparr>nt_phase := ClientsGone\<rparr>) else Blocked)"
| "shutdown_step env ClientsGone n = Next (n\<lparr>nt_phase := QueueClosed\<rparr>)"
| "shutdown_step env QueueClosed n = Next (n\<lparr>nt_phase := Down\<rparr>)"
| "shutdown_step env Down n = Blocked"

definition connecting :: "net \<Rightarrow> nat \<Rightarrow> bool" where
  "connecting n wc \<longleftrightarrow> (case map_of (nt_conns n) wc of Some Connecting \<Rightarrow> True | _ \<Rightarrow> False)"

definition reading :: "net \<Rightarrow> nat \<Rightarrow> bool" where
  "reading n wc \<longleftrightarrow> (case map_of (nt_conns n) wc of Some Reading \<Rightarrow> True | _ \<Rightarrow> False)"

definition leaving :: "net \<Rightarrow> nat \<Rightarrow> bool" where
  "leaving n wc \<longleftrightarrow> (case map_of (nt_conns n) wc of Some Leaving \<Rightarrow> True | _ \<Rightarrow> False)"

lemma at_pc [simp]:
  "connecting n wc \<longleftrightarrow> map_of (nt_conns n) wc = Some Connecting" "reading n wc \<longleftrightarrow> map_of (nt_conns n) wc = Some Reading"
  "leaving n wc \<longleftrightarrow> map_of (nt_conns n) wc = Some Leaving"
  by (auto simp: connecting_def reading_def leaving_def split: option.splits conn_pc.splits)

fun net_step :: "((addr \<Rightarrow> int) \<Rightarrow> addr list \<Rightarrow> addr list) \<Rightarrow> (rat \<Rightarrow> int) \<Rightarrow> net_label \<Rightarrow> net \<Rightarrow> outcome" where
  "net_step sortSlice conv (Arrive wc) n =
     (if nt_phase n = Down \<or> wc \<in> fst ` set (nt_conns n) \<or> wc \<in> set (nt_closed n) then Blocked
      else Next (n\<lparr>nt_conns := nt_conns n @ [(wc, Connecting)]\<rparr>))"
| "net_step sortSlice conv (Upgraded wc ok env) n =
     (if \<not> connecting n wc then Blocked
      else if \<not> ok then Next (exit_conn wc n)
      else case connect env wc (nt_srv n) of
             (False, _, _) \<Rightarrow> Next (exit_conn wc n)
           | (True, _, s) \<Rightarrow> Next (set_pc wc Reading (n\<lparr>nt_srv := s, nt_pingers := wc # nt_pingers n\<rparr>)))"
| "net_step sortSlice conv (Receive wc msg env) n =
     (if \<not> reading n wc \<or> wc \<in> set (nt_closed n) then Blocked
      else receive sortSlice conv wc msg env n)"
| "net_step sortSlice conv (Install wc) n =
     (case map_of (nt_conns n) wc of
        Some (Installing newSim) \<Rightarrow> Next (set_pc wc Reading (install newSim n))
      | _ \<Rightarrow> Blocked)"
| "net_step sortSlice conv (ReadError wc normal) n =
     (if \<not> reading n wc then Blocked
      else Next (set_pc wc Leaving
             (if normal \<and> wc \<notin> set (nt_closed n) then n
              else n\<lparr>nt_srv := (nt_srv n)\<lparr>srv_metrics := srv_metrics (nt_srv n) @ IncWSError ''read''\<rparr>\<rparr>)))"
| "net_step sortSlice conv (Cleanup wc) n =
     (if \<not> leaving n wc then Blocked
      else Next (exit_conn wc (n\<lparr>nt_srv := disconnect wc (nt_srv n)\<rparr>)))"
| "net_step sortSlice conv (PingTick wc failed) n =
     (if wc \<notin> set (nt_pingers n) then Blocked
      else Next (if wc \<notin> set (srv_clients (nt_srv n)) \<or> failed then n\<lparr>nt_pingers := removeAll wc (nt_pingers n)\<rparr> else n))"
| "net_step sortSlice conv (PingStop wc) n =
     (if wc \<in> set (nt_pingers n) \<and> (srv_closed (nt_srv n) \<or> wc \<notin> fst ` set (nt_conns n))
      then Next (n\<lparr>nt_pingers := removeAll wc (nt_pingers n)\<rparr>) else Blocked)"
| "net_step sortSlice conv (EngineTurn env) n =
     (case srv_simulator (nt_srv n) of
        None \<Rightarrow> Blocked
      | Some sim \<Rightarrow> run_turn env sim (\<lambda>sim. n\<lparr>nt_srv := (nt_srv n)\<lparr>srv_simulator := Some sim\<rparr>\<rparr>))"
| "net_step sortSlice conv (OrphanTurn i env) n =
     (if i < length (nt_orphans n)
      then run_turn env (nt_orphans n ! i) (\<lambda>sim. n\<lparr>nt_orphans := (nt_orphans n)[i := sim]\<rparr>) else Blocked)"
| "net_step sortSlice conv (Deliver failing) n =
     (case handleBroadcasts (\<lambda>wc. wc \<in> set failing) (nt_srv n) of
        None \<Rightarrow> Blocked
      | Some (out, s) \<Rightarrow> Next (n\<lparr>nt_srv := s, nt_closed := filter (\<lambda>wc. wc \<in> set failing) (srv_clients (nt_srv n)) @ nt_closed n\<rparr>))"
| "net_step sortSlice conv (ShutdownStep env) n = shutdown_step env (nt_phase n) n"

section \<open>Every interleaving is a run of the server\<close>

definition net_clock :: "net \<Rightarrow> bool" where
  "net_clock n \<longleftrightarrow> clock_ok (nt_srv n) \<and> (\<forall>sim\<in>set (nt_orphans n). currentTime sim < MaxInt64)"

inductive net_run ::
    "((addr \<Rightarrow> int) \<Rightarrow> addr list \<Rightarrow> addr list) \<Rightarrow> (rat \<Rightarrow> int) \<Rightarrow> net \<Rightarrow> bool" for sortSlice conv where
  start: "net_run sortSlice conv (start_net cfg)"
| step: "net_run sortSlice conv n \<Longrightarrow> net_clock n \<Longrightarrow> net_step sortSlice conv l n = Next n' \<Longrightarrow> net_run sortSlice conv n'"

text \<open>The connections that are registered or will be cleaned up: the handlers past the upgrade.\<close>

fun joined :: "(nat \<times> conn_pc) list \<Rightarrow> nat list" where
  "joined [] = []"
| "joined ((c, pc) # cs) = (if pc = Connecting then joined cs else c # joined cs)"

fun update_pc :: "nat \<Rightarrow> conn_pc \<Rightarrow> (nat \<times> conn_pc) list \<Rightarrow> (nat \<times> conn_pc) list" where
  "update_pc wc pc [] = []"
| "update_pc wc pc ((c, p) # cs) = (if c = wc then (c, pc) else (c, p)) # update_pc wc pc cs"

lemma set_pc_eq: "set_pc wc pc n = n\<lparr>nt_conns := update_pc wc pc (nt_conns n)\<rparr>"
proof -
  have "map (\<lambda>(c, p). if c = wc then (c, pc) else (c, p)) cs = update_pc wc pc cs" for cs
    by (induction wc pc cs rule: update_pc.induct) auto
  then show ?thesis by (simp add: set_pc_def)
qed

lemma update_pc_fst [simp]: "map fst (update_pc wc pc cs) = map fst cs" "fst ` set (update_pc wc pc cs) = fst ` set cs"
proof -
  show "map fst (update_pc wc pc cs) = map fst cs" by (induction wc pc cs rule: update_pc.induct) auto
  then show "fst ` set (update_pc wc pc cs) = fst ` set cs" by (metis list.set_map)
qed

lemma update_pc_new [simp]: "wc \<notin> fst ` set cs \<Longrightarrow> update_pc wc pc cs = cs"
  by (induction wc pc cs rule: update_pc.induct) auto

lemma set_update_pc: "x \<in> set (update_pc wc pc cs) \<Longrightarrow> x = (wc, pc) \<or> x \<in> set cs"
  by (induction wc pc cs rule: update_pc.induct) (auto split: if_splits)

lemma joined_subset: "set (joined cs) \<subseteq> fst ` set cs"
  by (induction cs rule: joined.induct) auto

lemma joined_append [simp]: "joined (xs @ ys) = joined xs @ joined ys"
  by (induction xs rule: joined.induct) auto

lemma joined_update:
  assumes "distinct (map fst cs)" "map_of cs wc = Some p" "pc \<noteq> Connecting"
  shows "p \<noteq> Connecting \<Longrightarrow> joined (update_pc wc pc cs) = joined cs"
    "p = Connecting \<Longrightarrow> mset (joined (update_pc wc pc cs)) = add_mset wc (mset (joined cs)) \<and> wc \<notin> set (joined cs)"
  using assms
proof (induction wc pc cs rule: update_pc.induct)
  case (2 wc pc c p' cs)
  { case 1
    with 2 show ?case by (auto split: if_splits)
  next
    case 2
    with "2.IH" show ?case using joined_subset [of cs] by (auto split: if_splits) }
qed simp_all

lemma joined_exit:
  assumes "distinct (map fst cs)" "map_of cs wc = Some p"
  shows "p = Connecting \<Longrightarrow> joined (filter (\<lambda>(c, p). c \<noteq> wc) cs) = joined cs"
    "p \<noteq> Connecting \<Longrightarrow> joined (filter (\<lambda>(c, p). c \<noteq> wc) cs) = remove1 wc (joined cs) \<and> wc \<in> set (joined cs)"
  using assms
proof (induction cs rule: joined.induct)
  case (2 c pc cs)
  have f: "filter (\<lambda>(c, p). c \<noteq> wc) cs = cs" if "wc \<notin> fst ` set cs"
    using that by (induction cs) auto
  { case 1
    with 2 f show ?case by (auto split: if_splits)
  next
    case 2
    with "2.IH" f joined_subset [of cs] show ?case by (auto split: if_splits) }
qed simp_all

text \<open>
  The invariant: the shared state is one that the server reaches with the same connections, every
  simulator that waits to be installed was built from a message, and the orphans are consistent.
\<close>

definition backed ::
    "((addr \<Rightarrow> int) \<Rightarrow> addr list \<Rightarrow> addr list) \<Rightarrow> (rat \<Rightarrow> int) \<Rightarrow> Server \<Rightarrow> nat multiset \<Rightarrow> bool" where
  "backed sortSlice conv s cs \<longleftrightarrow> (\<exists>ls. mset ls = cs \<and> server_run sortSlice conv s ls)"

definition net_ok :: "((addr \<Rightarrow> int) \<Rightarrow> addr list \<Rightarrow> addr list) \<Rightarrow> (rat \<Rightarrow> int) \<Rightarrow> net \<Rightarrow> bool" where
  "net_ok sortSlice conv n \<longleftrightarrow>
     distinct (map fst (nt_conns n)) \<and>
     backed sortSlice conv (nt_srv n) (mset (joined (nt_conns n))) \<and>
     (\<forall>c sim. (c, Installing sim) \<in> set (nt_conns n) \<longrightarrow> (\<exists>msg. buildInit sortSlice conv msg = Inr sim)) \<and>
     (\<forall>sim\<in>set (nt_orphans n). reachable sortSlice sim) \<and>
     (srv_closed (nt_srv n) \<longleftrightarrow> nt_phase n \<noteq> Serving)"

lemma backed_mono:
  "(\<And>cs. server_run sortSlice conv s cs \<Longrightarrow> server_run sortSlice conv s' cs) \<Longrightarrow>
   backed sortSlice conv s x \<Longrightarrow> backed sortSlice conv s' x"
  unfolding backed_def by blast

lemmas backed_steps = backed_mono [OF server_run.closing] backed_mono [OF server_run.stopped] backed_mono [OF server_run.dropped]
  backed_mono [OF server_run.installed]

lemma server_run_strays: "server_run sortSlice conv s cs \<Longrightarrow> server_run sortSlice conv (fold (trySend env) us s) cs"
  by (induction us arbitrary: s) (simp_all add: server_run.stray)

lemma fold_trySend_closed [simp]: "srv_closed (fold (trySend env) us s) = srv_closed s"
  by (induction us arbitrary: s) simp_all

lemma broadcast_all_Next: "broadcast_all env us n = Next n' \<Longrightarrow> n' = n\<lparr>nt_srv := fold (trySend env) us (nt_srv n)\<rparr>"
  by (simp add: broadcast_all_def split: if_splits)

text \<open>A step that changes only the shared state, along the server's own steps.\<close>

lemma net_ok_srv:
  assumes "net_ok sortSlice conv n" "\<And>cs. server_run sortSlice conv (nt_srv n) cs \<Longrightarrow> server_run sortSlice conv s cs"
    and "srv_closed s = srv_closed (nt_srv n)"
  shows "net_ok sortSlice conv (n\<lparr>nt_srv := s\<rparr>)"
  using assms backed_mono [OF assms(2)] unfolding net_ok_def by simp

lemma net_ok_move:
  assumes "net_ok sortSlice conv n" "map_of (nt_conns n) wc = Some p" "p \<noteq> Connecting" "pc \<noteq> Connecting"
    and "\<And>sim. pc = Installing sim \<Longrightarrow> \<exists>msg. buildInit sortSlice conv msg = Inr sim"
  shows "net_ok sortSlice conv (set_pc wc pc n)"
proof -
  have "joined (update_pc wc pc (nt_conns n)) = joined (nt_conns n)"
    using joined_update(1) [of "nt_conns n" wc p pc] assms by (simp add: net_ok_def)
  moreover have "\<exists>msg. buildInit sortSlice conv msg = Inr sim" if "(c, Installing sim) \<in> set (update_pc wc pc (nt_conns n))" for c sim
    using set_update_pc [OF that] assms(1,5) by (auto simp: net_ok_def)
  ultimately show ?thesis using assms(1) unfolding net_ok_def set_pc_eq by simp
qed

lemma net_ok_exit:
  assumes "net_ok sortSlice conv n" "mset (joined (filter (\<lambda>(c, p). c \<noteq> wc) (nt_conns n))) = mset (joined (nt_conns n))"
  shows "net_ok sortSlice conv (exit_conn wc n)"
  using assms unfolding net_ok_def exit_conn_def by (auto simp: distinct_map_filter)

lemma net_ok_frame [simp]:
  "net_ok sortSlice conv (n\<lparr>nt_pingers := ps\<rparr>) = net_ok sortSlice conv n"
  "net_ok sortSlice conv (n\<lparr>nt_closed := cl\<rparr>) = net_ok sortSlice conv n"
  by (simp_all add: net_ok_def)

lemma net_ok_sims:
  assumes "slice_sort sortSlice" "float_conv conv" "net_ok sortSlice conv n"
  shows "srv_simulator (nt_srv n) = Some sim \<Longrightarrow> reachable sortSlice sim"
  using assms server_run_inv [OF assms(1,2)] by (auto simp: net_ok_def backed_def server_inv_def sim_ok_def)

lemma run_turn_Next:
  assumes "run_turn env sim put = Next n'"
  obtains us sim' where "sim_state sim = SimStateRunning" "tick_updates (env_now env) sim = Some (us, sim')"
    "n' = (put sim')\<lparr>nt_srv := fold (trySend env) us (nt_srv (put sim'))\<rparr>"
  using assms by (auto simp: run_turn_def dest!: broadcast_all_Next split: if_splits option.splits)

lemma tick_updates_reachable:
  "reachable sortSlice sim \<Longrightarrow> currentTime sim < MaxInt64 \<Longrightarrow> tick_updates now sim = Some (us, sim') \<Longrightarrow> reachable sortSlice sim'"
  using tick_updates_runTick [of now sim] reachable.tick by (metis option.simps(9) snd_conv)

text \<open>A handler changes only the simulator of the server.\<close>

lemma route_message_frame:
  assumes "route_message sortSlice conv env msg s = Some (ms, us, s')"
  shows "srv_closed s' = srv_closed s" "srv_clients s' = srv_clients s" "srv_broadcast s' = srv_broadcast s"
  using assms by (auto simp: route_message_def handleInit_def handleStart_def handlePause_def handleResume_def handleStop_def
      handleReset_def handleStep_def handleSpeed_def handleAddProcess_def handleGetState_def with_sim_def Let_def
      bind_eq_Some_conv split: option.splits json.splits if_splits sum.splits)

lemma receive_ok:
  assumes ok: "net_ok sortSlice conv n" and "clock_ok (nt_srv n)"
    and pc: "map_of (nt_conns n) wc = Some Reading" and "receive sortSlice conv wc msg env n = Next n'"
  shows "net_ok sortSlice conv n'"
proof (cases "map_of msg ''type'' = Some (JStr ''init'')")
  case True
  let ?n = "n\<lparr>nt_srv := (nt_srv n)\<lparr>srv_simulator := map_option (Stop (env_taken env)) (srv_simulator (nt_srv n))\<rparr>\<rparr>"
  have "net_ok sortSlice conv ?n" by (rule net_ok_srv [OF ok]) (simp_all add: server_run.stopped)
  then have "net_ok sortSlice conv (set_pc wc (Installing newSim) ?n)" if "buildInit sortSlice conv msg = Inr newSim" for newSim
    using pc that by (intro net_ok_move [where p = Reading]) auto
  then show ?thesis using assms True by (auto simp: receive_def split: sum.splits)
next
  case False
  then obtain ms us s where m: "route_message sortSlice conv env msg (nt_srv n) = Some (ms, us, s)"
    "n' = n\<lparr>nt_srv := fold (trySend env) us s\<rparr>"
    using assms(4) by (auto simp: receive_def dest!: broadcast_all_Next split: option.splits)
  have "handleMessage sortSlice conv env msg (nt_srv n) = Some (ms, fold (trySend env) us s)"
    by (simp add: handleMessage_def sent_def m)
  then have run: "server_run sortSlice conv (fold (trySend env) us s) cs" if "server_run sortSlice conv (nt_srv n) cs" for cs
    using server_run.message [OF that assms(2)] by blast
  have "srv_closed s = srv_closed (nt_srv n)" by (rule route_message_frame(1) [OF m(1)])
  then show ?thesis unfolding m(2) by (intro net_ok_srv [OF ok run]) simp_all
qed

lemma shutdown_step_ok:
  "net_ok sortSlice conv n \<Longrightarrow> shutdown_step env (nt_phase n) n = Next n' \<Longrightarrow> net_ok sortSlice conv n'"
  by (cases "nt_phase n")
    (auto simp: net_ok_def split: if_splits intro: backed_steps)

lemma upgraded_ok:
  assumes ok: "net_ok sortSlice conv n" and pc: "map_of (nt_conns n) wc = Some Connecting"
    and s: "connect env wc (nt_srv n) = (True, ms, s)"
  shows "net_ok sortSlice conv (set_pc wc Reading (n\<lparr>nt_srv := s, nt_pingers := ps\<rparr>))"
proof -
  obtain cs where cs: "mset cs = mset (joined (nt_conns n))" "server_run sortSlice conv (nt_srv n) cs"
    using ok by (auto simp: net_ok_def backed_def)
  have j: "mset (joined (update_pc wc Reading (nt_conns n))) = add_mset wc (mset (joined (nt_conns n)))"
    "wc \<notin> set (joined (nt_conns n))"
    using joined_update(2) [of "nt_conns n" wc Connecting Reading] ok pc by (simp_all add: net_ok_def)
  then have "server_run sortSlice conv s (wc # cs)"
    using server_run.connected [OF cs(2) _ s] cs(1) by (metis mset_eq_setD)
  moreover have "mset (wc # cs) = mset (joined (update_pc wc Reading (nt_conns n)))" using cs(1) j(1) by simp
  ultimately have "backed sortSlice conv s (mset (joined (update_pc wc Reading (nt_conns n))))" unfolding backed_def by blast
  moreover have "srv_closed s = srv_closed (nt_srv n)" using s by (auto simp: connect_def Let_def split: if_splits)
  moreover have "\<exists>msg. buildInit sortSlice conv msg = Inr sim" if "(c, Installing sim) \<in> set (update_pc wc Reading (nt_conns n))" for c sim
    using set_update_pc [OF that] ok by (auto simp: net_ok_def)
  ultimately show ?thesis using ok unfolding net_ok_def set_pc_eq by simp
qed

lemma cleanup_ok:
  assumes ok: "net_ok sortSlice conv n" and pc: "map_of (nt_conns n) wc = Some Leaving"
  shows "net_ok sortSlice conv (exit_conn wc (n\<lparr>nt_srv := disconnect wc (nt_srv n)\<rparr>))"
proof -
  obtain cs where cs: "mset cs = mset (joined (nt_conns n))" "server_run sortSlice conv (nt_srv n) cs"
    using ok by (auto simp: net_ok_def backed_def)
  let ?cs = "filter (\<lambda>(c, p). c \<noteq> wc) (nt_conns n)"
  have j: "joined ?cs = remove1 wc (joined (nt_conns n))" "wc \<in> set (joined (nt_conns n))"
    using joined_exit(2) [of "nt_conns n" wc Leaving] ok pc by (simp_all add: net_ok_def)
  then have "server_run sortSlice conv (disconnect wc (nt_srv n)) (remove1 wc cs)"
    using server_run.disconnected [OF cs(2)] cs(1) by (metis mset_eq_setD)
  moreover have "mset (remove1 wc cs) = mset (joined ?cs)" using cs(1) j(1) by simp
  ultimately have "backed sortSlice conv (disconnect wc (nt_srv n)) (mset (joined ?cs))" unfolding backed_def by blast
  moreover have "srv_closed (disconnect wc (nt_srv n)) = srv_closed (nt_srv n)" by (simp add: disconnect_def)
  ultimately show ?thesis using ok unfolding net_ok_def exit_conn_def by (auto simp: distinct_map_filter)
qed

lemma handleBroadcasts_closed: "handleBroadcasts fails s = Some (out, s') \<Longrightarrow> srv_closed s' = srv_closed s"
proof (cases "srv_broadcast s")
  case (Cons u us)
  assume "handleBroadcasts fails s = Some (out, s')"
  then have "s' = snd (write_all fails u (srv_clients s) (s\<lparr>srv_broadcast := us\<rparr>))" using Cons by (simp add: handleBroadcasts_def)
  then show ?thesis by simp
qed (simp add: handleBroadcasts_def)

lemma net_step_ok:
  assumes "slice_sort sortSlice" "float_conv conv" and ok: "net_ok sortSlice conv n" and clock: "net_clock n"
    and step: "net_step sortSlice conv l n = Next n'"
  shows "net_ok sortSlice conv n'"
proof (cases l)
  case (Arrive wc)
  then show ?thesis using ok step by (auto simp: net_ok_def split: if_splits)
next
  case (Upgraded wc up env)
  have "net_ok sortSlice conv (exit_conn wc n)" if "map_of (nt_conns n) wc = Some Connecting"
  proof (rule net_ok_exit [OF ok])
    have "distinct (map fst (nt_conns n))" using ok by (simp add: net_ok_def)
    then show "mset (joined (filter (\<lambda>(c, p). c \<noteq> wc) (nt_conns n))) = mset (joined (nt_conns n))"
      using joined_exit(1) [OF _ that] by simp
  qed
  then show ?thesis using Upgraded step upgraded_ok [OF ok, of wc env]
    by (auto split: if_splits prod.splits bool.splits)
next
  case (Receive wc msg env)
  then show ?thesis using step clock receive_ok [OF ok, of wc msg env] by (auto simp: net_clock_def split: if_splits)
next
  case (Install wc)
  then obtain sim where pc: "map_of (nt_conns n) wc = Some (Installing sim)" and n': "n' = set_pc wc Reading (install sim n)"
    using step by (auto split: option.splits conn_pc.splits)
  obtain msg where msg: "buildInit sortSlice conv msg = Inr sim"
    using ok map_of_SomeD [OF pc] unfolding net_ok_def by blast
  have "backed sortSlice conv ((nt_srv n)\<lparr>srv_simulator := Some sim\<rparr>) (mset (joined (nt_conns n)))"
    using backed_mono [OF server_run.installed [OF _ msg]] ok by (simp add: net_ok_def)
  moreover have "\<forall>sim\<in>set (nt_orphans (install sim n)). reachable sortSlice sim"
    using ok net_ok_sims [OF assms(1-3)] by (auto simp: net_ok_def install_def split: option.splits)
  ultimately have "net_ok sortSlice conv (install sim n)" using ok by (simp add: net_ok_def install_def)
  then show ?thesis unfolding n' by (rule net_ok_move [where p = "Installing sim"]) (simp_all add: pc install_def)
next
  case (ReadError wc normal)
  let ?e = "n\<lparr>nt_srv := (nt_srv n)\<lparr>srv_metrics := srv_metrics (nt_srv n) @ IncWSError ''read''\<rparr>\<rparr>"
  have "net_ok sortSlice conv ?e" by (rule net_ok_srv [OF ok]) (simp_all add: server_run.read_error)
  then have e: "net_ok sortSlice conv (if normal \<and> wc \<notin> set (nt_closed n) then n else ?e)" using ok by simp
  have pc: "map_of (nt_conns n) wc = Some Reading" and n': "n' = set_pc wc Leaving (if normal \<and> wc \<notin> set (nt_closed n) then n else ?e)"
    using ReadError step by (auto split: if_splits)
  show ?thesis unfolding n' by (rule net_ok_move [where p = Reading, OF e]) (simp_all add: pc)
next
  case (Cleanup wc)
  then show ?thesis using step cleanup_ok [OF ok, of wc] by (auto split: if_splits)
next
  case (PingTick wc failed)
  then show ?thesis using step ok by (auto split: if_splits)
next
  case (PingStop wc)
  then show ?thesis using step ok by (auto split: if_splits)
next
  case (EngineTurn env)
  then obtain sim where sim: "srv_simulator (nt_srv n) = Some sim"
    and t: "run_turn env sim (\<lambda>sim. n\<lparr>nt_srv := (nt_srv n)\<lparr>srv_simulator := Some sim\<rparr>\<rparr>) = Next n'"
    using step by (auto split: option.splits)
  from t obtain us sim' where u: "sim_state sim = SimStateRunning" "tick_updates (env_now env) sim = Some (us, sim')"
      "n' = n\<lparr>nt_srv := fold (trySend env) us ((nt_srv n)\<lparr>srv_simulator := Some sim'\<rparr>)\<rparr>"
    by (rule run_turn_Next) simp
  have e: "engine_turn env (nt_srv n) = Some (fold (trySend env) us ((nt_srv n)\<lparr>srv_simulator := Some sim'\<rparr>))"
    using sim u(1,2) by (simp add: engine_turn_def)
  have c: "clock_ok (nt_srv n)" using clock by (simp add: net_clock_def)
  show ?thesis unfolding u(3) by (rule net_ok_srv [OF ok server_run.turn [OF _ c e]]) simp_all
next
  case (OrphanTurn i env)
  then obtain i: "i < length (nt_orphans n)"
    and t: "run_turn env (nt_orphans n ! i) (\<lambda>sim. n\<lparr>nt_orphans := (nt_orphans n)[i := sim]\<rparr>) = Next n'"
    using step by (auto split: if_splits)
  from t obtain us sim' where u: "tick_updates (env_now env) (nt_orphans n ! i) = Some (us, sim')"
      "n' = n\<lparr>nt_orphans := (nt_orphans n)[i := sim'], nt_srv := fold (trySend env) us (nt_srv n)\<rparr>"
    by (rule run_turn_Next) simp
  have "reachable sortSlice sim'"
    using u(1) i ok clock by (intro tick_updates_reachable [OF _ _ u(1)]) (auto simp: net_ok_def net_clock_def)
  then have "net_ok sortSlice conv (n\<lparr>nt_orphans := (nt_orphans n)[i := sim']\<rparr>)"
    using ok set_update_subset_insert [of "nt_orphans n" i sim'] by (auto simp: net_ok_def)
  then have "net_ok sortSlice conv (n\<lparr>nt_orphans := (nt_orphans n)[i := sim'], nt_srv := fold (trySend env) us (nt_srv n)\<rparr>)"
    by (rule net_ok_srv) (simp_all add: server_run_strays)
  then show ?thesis by (simp add: u(2))
next
  case (Deliver failing)
  then obtain out s where d: "handleBroadcasts (\<lambda>wc. wc \<in> set failing) (nt_srv n) = Some (out, s)"
    "\<exists>cl. n' = n\<lparr>nt_srv := s, nt_closed := cl\<rparr>"
    using step by (auto split: option.splits)
  have "net_ok sortSlice conv (n\<lparr>nt_srv := s\<rparr>)"
    by (rule net_ok_srv [OF ok server_run.deliver [OF _ d(1)] handleBroadcasts_closed [OF d(1)]])
  then show ?thesis using d(2) by auto
next
  case (ShutdownStep env)
  then show ?thesis using step shutdown_step_ok [OF ok] by simp
qed

lemma net_run_ok:
  assumes "slice_sort sortSlice" "float_conv conv"
  shows "net_run sortSlice conv n \<Longrightarrow> net_ok sortSlice conv n"
proof (induction rule: net_run.induct)
  case (start cfg)
  then show ?case using server_run.new [of sortSlice conv cfg]
    by (auto simp: net_ok_def start_net_def backed_def NewServer_def)
next
  case (step n l n')
  then show ?case using net_step_ok [OF assms] by blast
qed

lemma net_ok_server_inv:
  assumes "slice_sort sortSlice" "float_conv conv" "net_ok sortSlice conv n"
  obtains cs where "mset cs = mset (joined (nt_conns n))" "server_inv sortSlice (nt_srv n) cs"
  using assms server_run_inv [OF assms(1,2)] by (auto simp: net_ok_def backed_def)

section \<open>Panics\<close>

lemma broadcast_all_Crash: "broadcast_all env us n = Crash \<Longrightarrow> queue_closed n"
  by (simp add: broadcast_all_def split: if_splits)

lemma run_turn_Crash:
  assumes "slice_sort sortSlice" "reachable sortSlice sim" "currentTime sim < MaxInt64" "run_turn env sim put = Crash"
  shows "\<exists>sim. queue_closed (put sim)"
proof -
  obtain us sim' where "tick_updates (env_now env) sim = Some (us, sim')"
    using tick_total(1) [OF assms(1-3)] tick_updates_runTick [of "env_now env" sim]
    by (cases "tick_updates (env_now env) sim") auto
  then show ?thesis using assms(4) by (auto simp: run_turn_def dest: broadcast_all_Crash split: if_splits)
qed

lemma queue_closed_frame [simp]:
  "queue_closed (n\<lparr>nt_srv := s\<rparr>) = queue_closed n" "queue_closed (n\<lparr>nt_orphans := os\<rparr>) = queue_closed n"
  by (simp_all add: queue_closed_def)

lemma net_step_Crash:
  assumes "slice_sort sortSlice" "float_conv conv" and ok: "net_ok sortSlice conv n" and clock: "net_clock n"
    and step: "net_step sortSlice conv l n = Crash"
  shows "queue_closed n"
proof -
  obtain cs where inv: "server_inv sortSlice (nt_srv n) cs" by (rule net_ok_server_inv [OF assms(1-3)])
  show ?thesis
  proof (cases l)
    case (Receive wc msg env)
    have "handleMessage sortSlice conv env msg (nt_srv n) \<noteq> None"
      using handleMessage_effect [OF assms(1,2), of "nt_srv n" env msg] inv clock
      by (auto simp: server_inv_def net_clock_def message_effect_def split: option.splits)
    then obtain ms us s where "route_message sortSlice conv env msg (nt_srv n) = Some (ms, us, s)"
      by (auto simp: handleMessage_def sent_def)
    then show ?thesis using Receive step
      by (auto simp: receive_def dest: broadcast_all_Crash split: if_splits sum.splits)
  next
    case (EngineTurn env)
    then obtain sim where sim: "srv_simulator (nt_srv n) = Some sim"
      and t: "run_turn env sim (\<lambda>sim. n\<lparr>nt_srv := (nt_srv n)\<lparr>srv_simulator := Some sim\<rparr>\<rparr>) = Crash"
      using step by (auto split: option.splits)
    have "reachable sortSlice sim" "currentTime sim < MaxInt64"
      using sim inv clock by (auto simp: server_inv_def sim_ok_def net_clock_def clock_ok_def)
    then show ?thesis using run_turn_Crash [OF assms(1) _ _ t] by auto
  next
    case (OrphanTurn i env)
    then have i: "i < length (nt_orphans n)"
      and t: "run_turn env (nt_orphans n ! i) (\<lambda>sim. n\<lparr>nt_orphans := (nt_orphans n)[i := sim]\<rparr>) = Crash"
      using step by (auto split: if_splits)
    have "reachable sortSlice (nt_orphans n ! i)" "currentTime (nt_orphans n ! i) < MaxInt64"
      using i ok clock by (auto simp: net_ok_def net_clock_def)
    then show ?thesis using run_turn_Crash [OF assms(1) _ _ t] by auto
  next
    case (Upgraded wc up env)
    then show ?thesis using step by (auto split: if_splits prod.splits bool.splits)
  next
    case (ShutdownStep env)
    then show ?thesis using step by (cases "nt_phase n") (auto split: if_splits)
  qed (use step in \<open>auto split: if_splits option.splits conn_pc.splits prod.splits\<close>)
qed


text \<open>A server with one client in its read loop.\<close>

definition demo_ws :: ws_env where
  "demo_ws = \<lparr>env_now = 0, env_taken = True, env_pick = True\<rparr>"

definition demo_net :: net where
  "demo_net = (start_net Default)
     \<lparr>nt_srv := (NewServer Default)\<lparr>srv_clients := [1], srv_metrics := IncClient\<rparr>, nt_conns := [(1, Reading)], nt_pingers := [1]\<rparr>"

lemma demo_net_steps:
  "net_step sortSlice conv (Arrive 1) (start_net Default) = Next ((start_net Default)\<lparr>nt_conns := [(1, Connecting)]\<rparr>)"
  "net_step sortSlice conv (Upgraded 1 True demo_ws) ((start_net Default)\<lparr>nt_conns := [(1, Connecting)]\<rparr>) = Next demo_net"
  by (simp_all add: demo_net_def start_net_def NewServer_def connect_def set_pc_def Default_def)

lemma demo_net_run: "net_run sortSlice conv demo_net"
proof -
  have "net_clock (start_net Default)" "net_clock ((start_net Default)\<lparr>nt_conns := [(1, Connecting)]\<rparr>)"
    by (simp_all add: net_clock_def clock_ok_def start_net_def NewServer_def)
  then show ?thesis using net_run.step [OF net_run.step [OF net_run.start]] demo_net_steps by blast
qed


end
