(* ===== verification/Web_Shutdown.thy ===== *)
theory Web_Shutdown
  imports Web_Lifecycle
begin

text \<open>
  The shutdown of the WebSocket server. It promises that nothing sends on the broadcast queue once
  it is closed. This holds when clients stop connecting and sending once the shutdown has begun, and
  when messages are handled one at a time: then the shutdown always ends, and leaves no handler, no
  client and no running simulator. Without these conditions it fails, which three runs show.
\<close>

section \<open>Well-behaved clients\<close>

definition installing :: "net \<Rightarrow> bool" where
  "installing n \<longleftrightarrow> list_ex (\<lambda>(c, pc). case pc of Installing _ \<Rightarrow> True | _ \<Rightarrow> False) (nt_conns n)"

fun polite :: "net_label \<Rightarrow> net \<Rightarrow> bool" where
  "polite (Arrive wc) n \<longleftrightarrow> nt_phase n = Serving"
| "polite (Upgraded wc up env) n \<longleftrightarrow> (up \<longrightarrow> nt_phase n = Serving)"
| "polite (Receive wc msg env) n \<longleftrightarrow> nt_phase n = Serving \<and> \<not> installing n"
| "polite l n \<longleftrightarrow> True"

inductive polite_run ::
    "((addr \<Rightarrow> int) \<Rightarrow> addr list \<Rightarrow> addr list) \<Rightarrow> (rat \<Rightarrow> int) \<Rightarrow> net \<Rightarrow> bool" for sortSlice conv where
  start: "polite_run sortSlice conv (start_net cfg)"
| step: "polite_run sortSlice conv n \<Longrightarrow> net_clock n \<Longrightarrow> polite l n \<Longrightarrow> net_step sortSlice conv l n = Next n' \<Longrightarrow>
    polite_run sortSlice conv n'"

lemma polite_run_net_run: "polite_run sortSlice conv n \<Longrightarrow> net_run sortSlice conv n"
  by (induction rule: polite_run.induct) (auto intro: net_run.intros)

text \<open>How many steps of the shutdown are still to come.\<close>

fun phases_left :: "shutdown_pc \<Rightarrow> nat" where
  "phases_left Serving = 6"
| "phases_left Closing = 5"
| "phases_left SimStopped = 4"
| "phases_left ConnsClosed = 3"
| "phases_left ClientsGone = 2"
| "phases_left QueueClosed = 1"
| "phases_left Down = 0"

definition idle_sim :: "Server \<Rightarrow> bool" where
  "idle_sim s \<longleftrightarrow> (\<forall>sim. srv_simulator s = Some sim \<longrightarrow> sim_state sim = SimStateIdle)"

text \<open>
  The invariant of polite runs: no orphans; the simulator is idle while another is being installed
  and once the shutdown has stopped it; a handler that reads is registered or its connection is
  closed; after the connections are closed no client is registered; after the wait no handler is left.
\<close>

definition readers :: "(nat \<times> conn_pc) list \<Rightarrow> nat set" where
  "readers cs = fst ` set (filter (\<lambda>(c, pc). pc \<noteq> Connecting \<and> pc \<noteq> Leaving) cs)"

definition calm :: "net \<Rightarrow> bool" where
  "calm n \<longleftrightarrow>
     nt_orphans n = [] \<and>
     (installing n \<or> phases_left (nt_phase n) \<le> 4 \<longrightarrow> idle_sim (nt_srv n)) \<and>
     readers (nt_conns n) \<subseteq> set (srv_clients (nt_srv n)) \<union> set (nt_closed n) \<and>
     (phases_left (nt_phase n) \<le> 3 \<longrightarrow> srv_clients (nt_srv n) = []) \<and>
     (phases_left (nt_phase n) \<le> 2 \<longrightarrow> nt_conns n = [])"

lemma Stop_idle [simp]: "sim_state (Stop taken sim) = SimStateIdle"
  by (cases "sim_state sim") (simp_all add: Stop_def)

lemma idle_Stop: "idle_sim (s\<lparr>srv_simulator := map_option (Stop taken) x\<rparr>)"
  by (auto simp: idle_sim_def)

lemma phases_left_0 [simp]: "phases_left p = 0 \<longleftrightarrow> p = Down" "p \<noteq> Down \<Longrightarrow> 0 < phases_left p"
  by (cases p; simp)+

lemma installing_iff: "installing n \<longleftrightarrow> (\<exists>c sim. (c, Installing sim) \<in> set (nt_conns n))"
  by (fastforce simp: installing_def list_ex_iff split: conn_pc.splits)

lemma idle_sim_frame [simp]:
  "idle_sim (s\<lparr>srv_clients := cs\<rparr>) = idle_sim s" "idle_sim (s\<lparr>srv_metrics := ms\<rparr>) = idle_sim s"
  "idle_sim (s\<lparr>srv_closed := b\<rparr>) = idle_sim s" "idle_sim (fold (trySend env) us s) = idle_sim s"
  "idle_sim (disconnect wc s) = idle_sim s" "idle_sim (snd (write_all fails u ws s)) = idle_sim s"
  by (simp_all add: idle_sim_def disconnect_def)

lemma readers_simps [simp]:
  "readers [] = {}" "readers (cs @ [(wc, Connecting)]) = readers cs"
  by (simp_all add: readers_def)

lemma readers_mem: "map_of cs wc = Some pc \<Longrightarrow> pc \<noteq> Connecting \<Longrightarrow> pc \<noteq> Leaving \<Longrightarrow> wc \<in> readers cs"
  by (force simp: readers_def dest: map_of_SomeD)

lemma readers_update: "readers (update_pc wc pc cs) \<subseteq> insert wc (readers cs)"
  by (auto simp: readers_def dest!: set_update_pc)

lemma readers_exit: "readers (filter P cs) \<subseteq> readers cs"
  by (auto simp: readers_def)

lemma readers_removed: "readers (filter (\<lambda>(c, p). c \<noteq> wc) cs) \<subseteq> readers cs - {wc}"
  by (auto simp: readers_def)

text \<open>Moving a handler on, without an installation, keeps what is needed of the handlers.\<close>

lemma installing_move: "installing (set_pc wc pc n) \<Longrightarrow> pc = Reading \<or> pc = Leaving \<Longrightarrow> installing n"
  by (auto simp: installing_iff set_pc_eq dest!: set_update_pc)

lemma set_pc_frame [simp]:
  "nt_srv (set_pc wc pc n) = nt_srv n" "nt_closed (set_pc wc pc n) = nt_closed n" "nt_phase (set_pc wc pc n) = nt_phase n"
  "nt_orphans (set_pc wc pc n) = nt_orphans n" "nt_conns (set_pc wc pc n) = update_pc wc pc (nt_conns n)"
  by (simp_all add: set_pc_eq)

lemma calm_move:
  assumes "calm n" "map_of (nt_conns n) wc = Some p" "p \<noteq> Connecting" "p \<noteq> Leaving" "pc = Reading \<or> pc = Leaving"
  shows "calm (set_pc wc pc n)"
proof -
  have "nt_conns n \<noteq> []" using assms(2) by auto
  moreover have "readers (update_pc wc pc (nt_conns n)) \<subseteq> readers (nt_conns n)"
    using readers_update [of wc pc] readers_mem [OF assms(2-4)] by blast
  ultimately show ?thesis using assms(1) installing_move [OF _ assms(5), of wc n] by (auto simp: calm_def)
qed

lemma exit_conn_frame [simp]:
  "nt_srv (exit_conn wc n) = nt_srv n" "nt_closed (exit_conn wc n) = wc # nt_closed n" "nt_phase (exit_conn wc n) = nt_phase n"
  "nt_orphans (exit_conn wc n) = nt_orphans n" "nt_conns (exit_conn wc n) = filter (\<lambda>(c, p). c \<noteq> wc) (nt_conns n)"
  by (simp_all add: exit_conn_def)

lemma calm_exit:
  assumes "calm n"
  shows "calm (exit_conn wc n)" "calm (exit_conn wc (n\<lparr>nt_srv := disconnect wc (nt_srv n)\<rparr>))"
proof -
  have i: "installing (exit_conn wc n) \<Longrightarrow> installing n" "installing (exit_conn wc (n\<lparr>nt_srv := disconnect wc (nt_srv n)\<rparr>)) \<Longrightarrow> installing n"
    by (auto simp: installing_iff)
  have r: "readers (filter (\<lambda>(c, p). c \<noteq> wc) (nt_conns n)) \<subseteq> set (srv_clients (nt_srv n)) \<union> set (nt_closed n) - {wc}"
    using assms readers_removed [of wc "nt_conns n"] unfolding calm_def by blast
  show "calm (exit_conn wc n)" using assms i(1) r unfolding calm_def by auto
  have "set (srv_clients (disconnect wc (nt_srv n))) = set (srv_clients (nt_srv n)) - {wc}"
    "srv_clients (nt_srv n) = [] \<Longrightarrow> srv_clients (disconnect wc (nt_srv n)) = []"
    by (simp_all add: disconnect_def)
  then show "calm (exit_conn wc (n\<lparr>nt_srv := disconnect wc (nt_srv n)\<rparr>))" using assms i(2) r unfolding calm_def by auto
qed

lemma calm_upgraded:
  assumes "calm n" "nt_phase n = Serving" "connect env wc (nt_srv n) = (True, ms, s)"
  shows "calm (set_pc wc Reading (n\<lparr>nt_srv := s, nt_pingers := ps\<rparr>))"
proof -
  let ?n = "n\<lparr>nt_srv := s, nt_pingers := ps\<rparr>"
  have s: "srv_clients s = srv_clients (nt_srv n) @ [wc]" "srv_simulator s = srv_simulator (nt_srv n)"
    using assms(3) by (auto simp: connect_def Let_def split: if_splits)
  have "installing (set_pc wc Reading ?n) \<Longrightarrow> installing n" using installing_move [of wc Reading ?n] by (simp add: installing_def)
  then show ?thesis using assms(1,2) s readers_update [of wc Reading "nt_conns n"] by (auto simp: calm_def idle_sim_def)
qed

lemma calm_receive:
  assumes "calm n" "polite (Receive wc msg env) n" "map_of (nt_conns n) wc = Some Reading"
    and "receive sortSlice conv wc msg env n = Next n'"
  shows "calm n'"
proof (cases "map_of msg ''type'' = Some (JStr ''init'')")
  case True
  let ?s = "(nt_srv n)\<lparr>srv_simulator := map_option (Stop (env_taken env)) (srv_simulator (nt_srv n))\<rparr>"
  have "calm (set_pc wc (Installing sim) (n\<lparr>nt_srv := ?s\<rparr>))" for sim
    using assms(1,2) readers_update [of wc "Installing sim" "nt_conns n"] readers_mem [OF assms(3)] idle_Stop
    by (auto simp: calm_def)
  then show ?thesis using True assms(1,4) by (auto simp: receive_def split: sum.splits)
next
  case False
  then obtain ms us s where m: "route_message sortSlice conv env msg (nt_srv n) = Some (ms, us, s)"
    "n' = n\<lparr>nt_srv := fold (trySend env) us s\<rparr>"
    using assms(4) by (auto simp: receive_def dest!: broadcast_all_Next split: option.splits)
  have "installing n' = installing n" by (simp add: m(2) installing_def)
  then show ?thesis using assms(1,2) route_message_frame(2) [OF m(1)] by (auto simp: calm_def m(2))
qed

lemma calm_install:
  assumes "calm n" "map_of (nt_conns n) wc = Some (Installing sim)" "sim_state sim = SimStateIdle"
  shows "calm (set_pc wc Reading (install sim n))"
proof -
  have "installing n" using map_of_SomeD [OF assms(2)] by (auto simp: installing_iff)
  then have "idle_sim (nt_srv n)" using assms(1) by (simp add: calm_def)
  then have "calm (install sim n)"
    using assms(1,3) by (auto simp: calm_def install_def idle_sim_def split: option.splits)
  then show ?thesis by (rule calm_move [where p = "Installing sim"]) (use assms(2) in \<open>simp_all add: install_def\<close>)
qed

lemma calm_shutdown: "calm n \<Longrightarrow> shutdown_step env (nt_phase n) n = Next n' \<Longrightarrow> calm n'"
  by (cases "nt_phase n") (auto simp: calm_def installing_def idle_Stop split: if_splits)

lemma write_all_dropped:
  "set (srv_clients (snd (write_all fails u ws s))) = set (srv_clients s) - {c \<in> set ws. fails c}"
proof (induction fails u ws s rule: write_all.induct)
  case (2 fails u wc ws s)
  then show ?case by (cases "fails wc") (auto simp: case_prod_beta)
qed simp

lemma calm_deliver:
  assumes "calm n" "handleBroadcasts (\<lambda>wc. wc \<in> set failing) (nt_srv n) = Some (out, s)"
  shows "calm (n\<lparr>nt_srv := s, nt_closed := filter (\<lambda>wc. wc \<in> set failing) (srv_clients (nt_srv n)) @ nt_closed n\<rparr>)"
proof -
  obtain u us where s: "s = snd (write_all (\<lambda>wc. wc \<in> set failing) u (srv_clients (nt_srv n)) ((nt_srv n)\<lparr>srv_broadcast := us\<rparr>))"
    using assms(2) by (auto simp: handleBroadcasts_def split: list.splits) (metis snd_conv)+
  have "set (srv_clients s) = set (srv_clients (nt_srv n)) - {c \<in> set (srv_clients (nt_srv n)). c \<in> set failing}"
    by (simp add: s write_all_dropped)
  moreover have "idle_sim s = idle_sim (nt_srv n)" by (simp add: s) (simp add: idle_sim_def)
  moreover have "srv_clients (nt_srv n) = [] \<Longrightarrow> srv_clients s = []" by (simp add: s)
  ultimately show ?thesis using assms(1) by (auto simp: calm_def installing_def)
qed

lemma calm_step:
  assumes "slice_sort sortSlice" "float_conv conv" "net_ok sortSlice conv n" and calm: "calm n"
    and "polite l n" and step: "net_step sortSlice conv l n = Next n'"
  shows "calm n'"
proof (cases l)
  case (Arrive wc)
  then show ?thesis using calm step assms(5) by (auto simp: calm_def installing_iff split: if_splits)
next
  case (Upgraded wc up env)
  then show ?thesis using step assms(5) calm_exit(1) [OF calm] calm_upgraded [OF calm]
    by (auto split: if_splits prod.splits bool.splits)
next
  case (Receive wc msg env)
  then show ?thesis using step assms(5) calm_receive [OF calm, of wc msg env] by (auto split: if_splits)
next
  case (Install wc)
  then obtain sim where pc: "map_of (nt_conns n) wc = Some (Installing sim)" and n': "n' = set_pc wc Reading (install sim n)"
    using step by (auto split: option.splits conn_pc.splits)
  obtain msg where "buildInit sortSlice conv msg = Inr sim"
    using assms(3) map_of_SomeD [OF pc] unfolding net_ok_def by blast
  then show ?thesis unfolding n' by (rule calm_install [OF calm pc buildInit_reachable(2) [OF assms(1,2)]])
next
  case (ReadError wc normal)
  let ?e = "n\<lparr>nt_srv := (nt_srv n)\<lparr>srv_metrics := srv_metrics (nt_srv n) @ IncWSError ''read''\<rparr>\<rparr>"
  have e: "calm (if normal \<and> wc \<notin> set (nt_closed n) then n else ?e)" using calm by (simp add: calm_def installing_def)
  have pc: "map_of (nt_conns n) wc = Some Reading" and n': "n' = set_pc wc Leaving (if normal \<and> wc \<notin> set (nt_closed n) then n else ?e)"
    using ReadError step by (auto split: if_splits)
  show ?thesis unfolding n' by (rule calm_move [where p = Reading, OF e]) (simp_all add: pc)
next
  case (Cleanup wc)
  then show ?thesis using step calm_exit(2) [OF calm] by (auto split: if_splits)
next
  case (PingTick wc failed)
  then show ?thesis using step calm by (auto simp: calm_def installing_def split: if_splits)
next
  case (PingStop wc)
  then show ?thesis using step calm by (auto simp: calm_def installing_def split: if_splits)
next
  case (EngineTurn env)
  then obtain sim where sim: "srv_simulator (nt_srv n) = Some sim"
    and t: "run_turn env sim (\<lambda>sim. n\<lparr>nt_srv := (nt_srv n)\<lparr>srv_simulator := Some sim\<rparr>\<rparr>) = Next n'"
    using step by (auto split: option.splits)
  from t obtain us sim' where u: "sim_state sim = SimStateRunning"
      "n' = n\<lparr>nt_srv := fold (trySend env) us ((nt_srv n)\<lparr>srv_simulator := Some sim'\<rparr>)\<rparr>"
    by (rule run_turn_Next) simp
  then have "\<not> idle_sim (nt_srv n)" using sim by (simp add: idle_sim_def)
  then show ?thesis using calm by (auto simp: calm_def u(2) installing_def)
next
  case (OrphanTurn i env)
  then show ?thesis using step calm by (simp add: calm_def)
next
  case (Deliver failing)
  then show ?thesis using step calm_deliver [OF calm, of failing] by (auto split: option.splits)
next
  case (ShutdownStep env)
  then show ?thesis using step calm_shutdown [OF calm] by simp
qed

lemma polite_run_calm:
  assumes "slice_sort sortSlice" "float_conv conv"
  shows "polite_run sortSlice conv n \<Longrightarrow> calm n"
proof (induction rule: polite_run.induct)
  case (start cfg)
  then show ?case by (simp add: calm_def start_net_def installing_def)
next
  case (step n l n')
  then show ?case using calm_step [OF assms] net_run_ok [OF assms polite_run_net_run] by blast
qed

section \<open>The shutdown ends\<close>

text \<open>What the server does by itself: a connection that it has closed fails to read.\<close>

fun own_step :: "net_label \<Rightarrow> net \<Rightarrow> bool" where
  "own_step (Upgraded wc up env) n \<longleftrightarrow> \<not> up"
| "own_step (Install wc) n \<longleftrightarrow> True"
| "own_step (ReadError wc normal) n \<longleftrightarrow> wc \<in> set (nt_closed n)"
| "own_step (Cleanup wc) n \<longleftrightarrow> True"
| "own_step (ShutdownStep env) n \<longleftrightarrow> True"
| "own_step l n \<longleftrightarrow> False"

inductive own_run ::
    "((addr \<Rightarrow> int) \<Rightarrow> addr list \<Rightarrow> addr list) \<Rightarrow> (rat \<Rightarrow> int) \<Rightarrow> net \<Rightarrow> net \<Rightarrow> bool" for sortSlice conv where
  refl: "own_run sortSlice conv n n"
| step: "net_step sortSlice conv l n = Next n' \<Longrightarrow> own_step l n \<Longrightarrow> own_run sortSlice conv n' n'' \<Longrightarrow> own_run sortSlice conv n n''"

fun handler_work :: "conn_pc \<Rightarrow> nat" where
  "handler_work Connecting = 1"
| "handler_work Reading = 2"
| "handler_work (Installing _) = 3"
| "handler_work Leaving = 1"

definition shutdown_work :: "net \<Rightarrow> nat" where
  "shutdown_work n = phases_left (nt_phase n) + (\<Sum>(c, pc)\<leftarrow>nt_conns n. handler_work pc)"

lemma handler_work_pos: "0 < handler_work pc"
  by (cases pc) simp_all

text \<open>While the shutdown is not done, the server itself has a step that brings it nearer to its end.\<close>

lemma shutdown_progress:
  assumes "distinct (map fst (nt_conns n))" "calm n" "nt_phase n \<noteq> Serving" "nt_phase n \<noteq> Down"
  shows "\<exists>l n'. own_step l n \<and> polite l n \<and> net_step sortSlice conv l n = Next n' \<and> shutdown_work n' < shutdown_work n \<and>
    nt_phase n' \<noteq> Serving"
proof (cases "nt_phase n = ConnsClosed \<and> nt_conns n \<noteq> []")
  case False
  then obtain n' where "shutdown_step demo_ws (nt_phase n) n = Next n'" "shutdown_work n' < shutdown_work n" "nt_phase n' \<noteq> Serving"
    using assms(3,4) by (cases "nt_phase n") (auto simp: shutdown_work_def)
  then show ?thesis by (intro exI [of _ "ShutdownStep demo_ws"]) auto
next
  case True
  then obtain c pc cs where cs: "nt_conns n = (c, pc) # cs" by (metis list.exhaust surj_pair)
  have other: "c \<notin> fst ` set cs" using assms(1) cs by simp
  then have f: "filter (\<lambda>(c', p). c' \<noteq> c) cs = cs" by (force simp: filter_id_conv)
  have closed: "c \<in> set (nt_closed n)" if "pc \<noteq> Connecting" "pc \<noteq> Leaving"
  proof -
    have "c \<in> readers (nt_conns n)" using that cs by (intro readers_mem [of _ _ pc]) simp_all
    moreover have "srv_clients (nt_srv n) = []" using True assms(2) by (simp add: calm_def)
    ultimately show ?thesis using assms(2) by (auto simp: calm_def)
  qed
  show ?thesis
  proof (cases pc)
    case Connecting
    then show ?thesis using cs f True handler_work_pos
      by (intro exI [of _ "Upgraded c False demo_ws"]) (simp add: shutdown_work_def)
  next
    case Reading
    then show ?thesis using cs other True closed
      by (intro exI [of _ "ReadError c False"]) (simp add: shutdown_work_def)
  next
    case (Installing sim)
    then show ?thesis using cs other True
      by (intro exI [of _ "Install c"]) (simp add: shutdown_work_def install_def)
  next
    case Leaving
    then show ?thesis using cs f True
      by (intro exI [of _ "Cleanup c"]) (simp add: shutdown_work_def)
  qed
qed

lemma own_step_clock:
  assumes "slice_sort sortSlice" "float_conv conv" "net_ok sortSlice conv n" "net_clock n"
    and "own_step l n" "net_step sortSlice conv l n = Next n'"
  shows "net_clock n'"
proof -
  have stop: "currentTime (Stop taken sim) = currentTime sim" for taken sim
    by (cases "sim_state sim") (simp_all add: Stop_def)
  have new: "currentTime sim = 0" if "(c, Installing sim) \<in> set (nt_conns n)" for c sim
    using assms(3) that buildInit_reachable(3) [OF assms(1,2)] unfolding net_ok_def by blast
  show ?thesis
  proof (cases l)
    case (Install wc)
    then obtain sim where "map_of (nt_conns n) wc = Some (Installing sim)" "n' = set_pc wc Reading (install sim n)"
      using assms(6) by (auto split: option.splits conn_pc.splits)
    then show ?thesis using assms(4) new map_of_SomeD
      by (fastforce simp: net_clock_def clock_ok_def install_def split: option.splits)
  next
    case (ShutdownStep env)
    then show ?thesis using assms(4,6) stop
      by (cases "nt_phase n") (auto simp: net_clock_def clock_ok_def split: if_splits option.splits)
  qed (use assms(4-6) in \<open>auto simp: net_clock_def clock_ok_def disconnect_def split: if_splits\<close>)
qed

lemma shutdown_ends:
  assumes "slice_sort sortSlice" "float_conv conv" "net_ok sortSlice conv n" "net_clock n" "calm n" "nt_phase n \<noteq> Serving"
  shows "\<exists>n'. own_run sortSlice conv n n' \<and> nt_phase n' = Down"
  using assms(3-6)
proof (induction "shutdown_work n" arbitrary: n rule: less_induct)
  case less
  show ?case
  proof (cases "nt_phase n = Down")
    case True
    then show ?thesis using own_run.refl by blast
  next
    case False
    have "distinct (map fst (nt_conns n))" using less.prems(1) by (simp add: net_ok_def)
    from shutdown_progress [OF this less.prems(3,4) False, of sortSlice conv]
    obtain l n' where l: "own_step l n" "polite l n" "net_step sortSlice conv l n = Next n'"
      "shutdown_work n' < shutdown_work n" "nt_phase n' \<noteq> Serving" by blast
    have "net_ok sortSlice conv n'" by (rule net_step_ok [OF assms(1,2) less.prems(1,2) l(3)])
    moreover have "calm n'" by (rule calm_step [OF assms(1,2) less.prems(1,3) l(2,3)])
    moreover have "net_clock n'" using own_step_clock [OF assms(1,2) less.prems(1,2) l(1,3)] .
    ultimately show ?thesis using less.hyps [OF l(4)] l(5) own_run.step [OF l(3,1)] by blast
  qed
qed


lemma demo_polite: "polite_run sortSlice conv demo_net"
proof -
  let ?n = "(start_net Default)\<lparr>nt_conns := [(1, Connecting)]\<rparr>"
  have c: "net_clock (start_net Default)" "net_clock ?n"
    by (simp_all add: net_clock_def clock_ok_def start_net_def NewServer_def)
  have "polite (Arrive 1) (start_net Default)" "polite (Upgraded 1 True demo_ws) ?n" by (simp_all add: start_net_def)
  then show ?thesis
    using polite_run.step [OF polite_run.step [OF polite_run.start c(1)] c(2)] demo_net_steps by blast
qed


section \<open>What can go wrong\<close>

fun net_steps :: "((addr \<Rightarrow> int) \<Rightarrow> addr list \<Rightarrow> addr list) \<Rightarrow> (rat \<Rightarrow> int) \<Rightarrow> net_label list \<Rightarrow> net \<Rightarrow> outcome" where
  "net_steps sortSlice conv [] n = Next n"
| "net_steps sortSlice conv (l # ls) n =
     (case net_step sortSlice conv l n of Next n' \<Rightarrow> net_steps sortSlice conv ls n' | r \<Rightarrow> r)"

fun crashes :: "outcome \<Rightarrow> bool" where
  "crashes Crash \<longleftrightarrow> True"
| "crashes _ \<longleftrightarrow> False"

definition demo_init :: object where
  "demo_init =
     [(''type'', JStr ''init''), (''algorithm'', JStr ''fcfs''),
      (''processes'', JArr [JObj [(''pid'', JNum 1), (''arrivalTime'', JNum 0), (''burstTime'', JNum 5)]])]"

definition demo_start :: object where
  "demo_start = [(''type'', JStr ''start'')]"

text \<open>A client starts the simulation again after the shutdown has stopped it, and before it closes the connections.\<close>

definition late_start :: "net_label list" where
  "late_start =
     [Arrive 1, Upgraded 1 True demo_ws, Receive 1 demo_init demo_ws, Install 1,
      ShutdownStep demo_ws, ShutdownStep demo_ws, Receive 1 demo_start demo_ws, ShutdownStep demo_ws,
      ReadError 1 False, Cleanup 1, ShutdownStep demo_ws, ShutdownStep demo_ws, EngineTurn demo_ws]"

text \<open>
  Two clients initialise at the same time: the first installs and starts its simulator before the
  second replaces it, so that nobody can stop it any more.
\<close>

definition racing_init :: "net_label list" where
  "racing_init =
     [Arrive 1, Upgraded 1 True demo_ws, Arrive 2, Upgraded 2 True demo_ws,
      Receive 1 demo_init demo_ws, Receive 2 demo_init demo_ws, Install 1, Receive 1 demo_start demo_ws, Install 2,
      ShutdownStep demo_ws, ShutdownStep demo_ws, ShutdownStep demo_ws,
      ReadError 1 False, Cleanup 1, ReadError 2 False, Cleanup 2,
      ShutdownStep demo_ws, ShutdownStep demo_ws, OrphanTurn 0 demo_ws]"

text \<open>A client connects after the shutdown has closed the connections.\<close>

definition late_client :: "net_label list" where
  "late_client =
     [ShutdownStep demo_ws, ShutdownStep demo_ws, ShutdownStep demo_ws, Arrive 1, Upgraded 1 True demo_ws]"

lemma update_pc_other: "c \<noteq> wc \<Longrightarrow> map_of (update_pc c pc cs) wc = map_of cs wc"
  by (induction c pc cs rule: update_pc.induct) auto

lemma map_of_exit: "c \<noteq> wc \<Longrightarrow> map_of (filter (\<lambda>(c', p). c' \<noteq> c) cs) wc = map_of cs wc"
  by (induction cs) auto

text \<open>As long as such a client stays, the shutdown waits for it.\<close>

lemma late_client_blocks:
  assumes "own_run sortSlice conv n n'" "nt_phase n = ConnsClosed" "map_of (nt_conns n) wc = Some Reading" "wc \<notin> set (nt_closed n)"
  shows "nt_phase n' = ConnsClosed"
  using assms
proof (induction rule: own_run.induct)
  case (step l n n' n'')
  have "nt_phase n' = ConnsClosed \<and> map_of (nt_conns n') wc = Some Reading \<and> wc \<notin> set (nt_closed n')"
  proof (cases l)
    case (Install c)
    then obtain sim where "map_of (nt_conns n) c = Some (Installing sim)" "n' = set_pc c Reading (install sim n)"
      using step.hyps(1) by (auto split: option.splits conn_pc.splits)
    moreover from this have "c \<noteq> wc" using step.prems(2) by auto
    ultimately show ?thesis using step.prems by (simp add: install_def update_pc_other)
  next
    case (Upgraded c up env)
    then show ?thesis using step.hyps(1,2) step.prems by (cases "c = wc") (auto simp: map_of_exit split: if_splits)
  next
    case (ReadError c normal)
    then show ?thesis using step.hyps(1,2) step.prems by (cases "c = wc") (auto simp: update_pc_other split: if_splits)
  next
    case (Cleanup c)
    then show ?thesis using step.hyps(1,2) step.prems by (cases "c = wc") (auto simp: map_of_exit split: if_splits)
  next
    case (ShutdownStep env)
    then show ?thesis using step.hyps(1) step.prems by (auto split: if_splits)
  qed (use step.hyps(2) in auto)
  then show ?case using step.IH by blast
qed simp

text \<open>
  C21: Three runs break the promise of the shutdown. When a client sends \<^verbatim>\<open>start\<close> between the stop of
  the simulator and the close of the connections, and when two clients initialise at the same time
  and the first starts its simulator before it is replaced, a run loop outlives the shutdown and its
  send on the closed broadcast queue panics. And when a client connects after the connections were
  closed, the shutdown hangs until this client leaves.
\<close>

theorem shutdown_hazards:
  "crashes (net_steps (\<lambda>key. sort_key key) conv_amd64 late_start (start_net Default)) \<and>
   crashes (net_steps (\<lambda>key. sort_key key) conv_amd64 racing_init (start_net Default)) \<and>
   (\<exists>n. net_steps (\<lambda>key. sort_key key) conv_amd64 late_client (start_net Default) = Next n \<and> nt_phase n = ConnsClosed \<and>
      (\<forall>n'. own_run (\<lambda>key. sort_key key) conv_amd64 n n' \<longrightarrow> nt_phase n' = ConnsClosed))"
proof (intro conjI)
  show "crashes (net_steps (\<lambda>key. sort_key key) conv_amd64 late_start (start_net Default))" by code_simp
  show "crashes (net_steps (\<lambda>key. sort_key key) conv_amd64 racing_init (start_net Default))" by code_simp
  obtain n where n: "net_steps (\<lambda>key. sort_key key) conv_amd64 late_client (start_net Default) = Next n"
    "nt_phase n = ConnsClosed" "map_of (nt_conns n) 1 = Some Reading" "1 \<notin> set (nt_closed n)"
    by (simp add: late_client_def start_net_def NewServer_def connect_def Default_def set_pc_def)
  then show "\<exists>n. net_steps (\<lambda>key. sort_key key) conv_amd64 late_client (start_net Default) = Next n \<and> nt_phase n = ConnsClosed \<and>
      (\<forall>n'. own_run (\<lambda>key. sort_key key) conv_amd64 n n' \<longrightarrow> nt_phase n' = ConnsClosed)"
    using late_client_blocks [OF _ n(2-4)] by blast
qed

theorem shutdown_hazards_witness:
  "\<exists>n. net_steps (\<lambda>key. sort_key key) conv_amd64 late_client (start_net Default) = Next n \<and>
     nt_phase n = ConnsClosed \<and> own_run (\<lambda>key. sort_key key) conv_amd64 n n"
  using shutdown_hazards own_run.refl by blast

end
