(* ===== verification/Web_Json.thy ===== *)
theory Web_Json
  imports Web_Lifecycle Api_Json "HOL-Library.AList"
begin

text \<open>
  WebSocket messages as text: what \<^verbatim>\<open>ReadJSON\<close> makes of the bytes of a message when it decodes them
  into a map of any values, and what the read loop does with it. The REST API and the WebSocket read
  the same grammar, but numbers differently: into 64-bit integers or into doubles.
\<close>

section \<open>Numbers\<close>

text \<open>The number that a literal denotes, exactly.\<close>

definition decimal :: "string \<Rightarrow> rat" where
  "decimal lit =
     (let neg = (lit \<noteq> [] \<and> hd lit = CHR ''-'');
          s = (if neg then tl lit else lit);
          whole = digits_of s; s = dropWhile is_digit s;
          frac = (if s \<noteq> [] \<and> hd s = CHR ''.'' then digits_of (tl s) else []);
          s = (if s \<noteq> [] \<and> hd s = CHR ''.'' then dropWhile is_digit (tl s) else s);
          minus = (take 1 (tl s) = ''-'');
          ds = (if take 1 (tl s) = ''-'' \<or> take 1 (tl s) = ''+'' then tl (tl s) else tl s);
          ex = (if s = [] then 0 else case parse_digits 0 ds of None \<Rightarrow> 0 | Some n \<Rightarrow> if minus then - n else n);
          m = (case parse_digits 0 (whole @ frac) of None \<Rightarrow> 0 | Some m \<Rightarrow> m)
      in (if neg then -1 else 1) * of_int m * 10 powi (ex - int (length frac)))"

text \<open>
  \<^verbatim>\<open>strconv.ParseFloat\<close> of a valid literal: the nearest double, which below the normal range is a
  multiple of the smallest one; an error when the result would be infinite.
\<close>

definition ParseFloat :: "string \<Rightarrow> rat option" where
  "ParseFloat lit =
     (let x = decimal lit;
          y = (if \<bar>x\<bar> < 2 powi (-1022) then of_int (half_even (x * 2 powi 1074)) / 2 powi 1074 else fround x)
      in if 2 powi 1024 \<le> \<bar>y\<bar> then None else Some y)"

section \<open>Messages\<close>

text \<open>
  Decoding into \<^verbatim>\<open>interface{}\<close>; a key that occurs again replaces its value. The only error is a number
  that is out of range.
\<close>

fun interface :: "jval \<Rightarrow> json option"
  and interface_elems :: "jval list \<Rightarrow> json list option"
  and interface_members :: "(string \<times> jval) list \<Rightarrow> object \<Rightarrow> object option" where
  "interface VNull = Some JNull"
| "interface (VBool b) = Some (JBool b)"
| "interface (VNum lit) = map_option JNum (ParseFloat lit)"
| "interface (VStr s) = Some (JStr s)"
| "interface (VArr vs) = map_option JArr (interface_elems vs)"
| "interface (VObj ms) = map_option JObj (interface_members ms [])"
| "interface_elems [] = Some []"
| "interface_elems (v # vs) = do { x \<leftarrow> interface v; xs \<leftarrow> interface_elems vs; Some (x # xs) }"
| "interface_members [] m = Some m"
| "interface_members ((k, v) # ms) m = do { x \<leftarrow> interface v; interface_members ms (AList.update k x m) }"

definition ReadJSON :: "string \<Rightarrow> object option" where
  "ReadJSON bytes =
     (case parse_value 0 bytes of
        Parsed (VObj ms) _ \<Rightarrow> interface_members ms []
      | Parsed VNull _ \<Rightarrow> Some []
      | _ \<Rightarrow> None)"

text \<open>A turn of the read loop on a message: it is handled, or the loop ends and counts a read error.\<close>

definition read_message :: "nat \<Rightarrow> string \<Rightarrow> ws_env \<Rightarrow> net_label" where
  "read_message wc bytes env = (case ReadJSON bytes of Some msg \<Rightarrow> Receive wc msg env | None \<Rightarrow> ReadError wc False)"

section \<open>The same text for both\<close>

lemma decimal_itoa: "decimal (itoa n) = of_int n"
proof -
  have d: "takeWhile is_digit (nat_digits m) = nat_digits m" "dropWhile is_digit (nat_digits m) = []" for m
    using nat_digits_digit by (simp_all add: takeWhile_eq_all_conv dropWhile_eq_Nil_conv)
  show ?thesis
  proof (cases "n < 0")
    case True
    then show ?thesis using parse_nat_digits [of "nat (- n)"] by (simp add: decimal_def itoa_def digits_of_def Let_def d)
  next
    case False
    have "is_digit (hd (nat_digits (nat n)))" by (rule nat_digits_digit [of _ "nat n"]) simp
    then have "hd (nat_digits (nat n)) \<noteq> CHR ''-''" using not_digit by auto
    then show ?thesis using False parse_nat_digits [of "nat n"]
      by (simp add: decimal_def itoa_def digits_of_def Let_def d)
  qed
qed

lemma ParseFloat_itoa:
  assumes "exact n"
  shows "ParseFloat (itoa n) = Some (float64 n)"
proof -
  have f: "float64 n = of_int n" using assms float64_exact by (simp add: exact_def)
  have one: "\<not> \<bar>of_int n :: rat\<bar> < 2 powi (-1022)" if "n \<noteq> 0"
  proof -
    have "(2::rat) powi (-1022) \<le> 2 powi 0" by (intro power_int_increasing) simp_all
    moreover have "1 \<le> \<bar>n\<bar>" using that by simp
    then have "(1::rat) \<le> \<bar>of_int n\<bar>" by (metis of_int_1_le_iff of_int_abs)
    ultimately show ?thesis by simp
  qed
  have "\<bar>n\<bar> < 2 ^ 53" using assms by (simp add: exact_def)
  then have "\<bar>of_int n :: rat\<bar> < 2 ^ 53" by (metis of_int_abs of_int_less_iff of_int_numeral of_int_power)
  also have "(2 :: rat) ^ 53 = 2 powi 53" by simp
  also have "\<dots> \<le> 2 powi 1024" by (intro power_int_increasing) simp_all
  finally have big: "\<not> 2 powi 1024 \<le> \<bar>of_int n :: rat\<bar>" by simp
  show ?thesis
  proof (cases "n = 0")
    case True
    have "half_even 0 = 0" using half_even_of_int [of 0] by simp
    then show ?thesis using big f by (simp add: ParseFloat_def decimal_itoa True)
  next
    case False
    then show ?thesis using one big f by (simp add: ParseFloat_def decimal_itoa Let_def float64_def)
  qed
qed

lemma interface_int: "exact n \<Longrightarrow> interface (VNum (itoa n)) = Some (json_int n)"
  by (simp add: ParseFloat_itoa json_int_def)

lemma interface_list: "(\<forall>x\<in>set xs. interface (f x) = Some (g x)) \<Longrightarrow> interface_elems (map f xs) = Some (map g xs)"
  by (induction xs) auto

lemma interface_burst:
  "exact (in_AfterCPUTime b) \<and> exact (in_Duration b) \<Longrightarrow>
   interface (burst_value b) = Some (JObj [(''afterCPUTime'', json_int (in_AfterCPUTime b)), (''duration'', json_int (in_Duration b))])"
  by (simp add: burst_value_def interface_int del: interface.simps(3))

lemma interface_process:
  assumes "exact_input p"
  shows "interface (process_value p) = Some (json_process p)"
proof -
  have e: "exact (in_PID p)" "exact (in_Arrival p)" "exact (in_Burst p)" "exact (in_Priority p)"
    "\<forall>b\<in>set (in_IOBursts p). exact (in_AfterCPUTime b) \<and> exact (in_Duration b)"
    using assms by (auto simp: exact_input_def list_all_iff)
  have "interface_elems (map burst_value (in_IOBursts p)) =
      Some (map (\<lambda>b. JObj [(''afterCPUTime'', json_int (in_AfterCPUTime b)), (''duration'', json_int (in_Duration b))]) (in_IOBursts p))"
    using e(5) interface_burst by (intro interface_list) blast
  then show ?thesis using e(1-4) by (simp add: process_value_def json_process_def interface_int del: interface.simps(3))
qed

text \<open>The message that asks for what a request asks for; the processes are rendered as in the body of the request.\<close>

definition init_value :: "simulateRequest \<Rightarrow> jval" where
  "init_value req =
     VObj [(''type'', VStr ''init''), (''algorithm'', VStr (req_Algorithm req)), (''timeQuantum'', VNum (itoa (req_TimeQuantum req))),
       (''processes'', VArr (map process_value (req_Processes req)))]"

definition request_config :: "simulateRequest \<Rightarrow> SimulationConfig" where
  "request_config req =
     \<lparr>cfg_Algorithm = req_Algorithm req, cfg_TimeQuantum = req_TimeQuantum req, cfg_Speed = req_Speed req,
      cfg_Processes = req_Processes req\<rparr>"

lemma config_request_config [simp]: "config_request (request_config req) = req"
  by (cases req) (simp add: config_request_def request_config_def)

lemma ReadJSON_init:
  assumes "valid_utf8 (req_Algorithm req)" "list_all (\<lambda>p. valid_utf8 (in_Name p)) (req_Processes req)"
    and "exact (req_TimeQuantum req)" "list_all exact_input (req_Processes req)"
  shows "ReadJSON (render (init_value req)) = Some (json_init req)"
proof -
  have ps: "renderable_elems (map process_value (req_Processes req))" "depth_elems (map process_value (req_Processes req)) \<le> 3"
    using assms(2) process_renderable by (auto simp: renderable_elems_all depth_elems_all list_all_iff)
  have "renderable (init_value req)" "0 + depth (init_value req) \<le> maxNestingDepth"
    using assms(1) ps by (auto simp: init_value_def ascii_utf8 maxNestingDepth_def)
  from parse_render(1) [OF this, of "[]"] have p: "parse_value 0 (render (init_value req)) = Parsed (init_value req) []"
    by simp
  have "interface_elems (map process_value (req_Processes req)) = Some (map json_process (req_Processes req))"
    using assms(4) interface_process by (intro interface_list) (simp add: list_all_iff)
  then show ?thesis using p assms(3)
    by (simp add: ReadJSON_def init_value_def json_init_def interface_int del: interface.simps(3))
qed

text \<open>
  C16: The same processes sent to the REST API and over the WebSocket start the same simulation: for
  a valid request of 64-bit numbers and valid text whose numbers are also exact as doubles, the REST
  API decodes its rendering to this request, and the read loop decodes the rendering of the \<^verbatim>\<open>init\<close>
  message with the same list of processes to a message whose handling replaces the server's simulator
  by exactly the one that the REST handler builds, and reports its state.
\<close>

theorem websocket_init_equals_rest:
  assumes "float_conv conv" "valid_request (Inr req)" "request_ok req"
    and "exact (req_TimeQuantum req)" "list_all exact_input (req_Processes req)"
    and "length (encodeConfig (request_config req)) \<le> maxBody"
  shows "\<exists>sched name sim msg. decodeJSON (encodeConfig (request_config req)) = Inr req \<and>
    buildScheduler (req_Algorithm req) (req_TimeQuantum req) = Inr (sched, name) \<and>
    addRequestProcesses sortSlice (req_Processes req) (NewSimulator sched) = Inr sim \<and>
    read_message wc (render (init_value req)) env = Receive wc msg env \<and>
    handleMessage sortSlice conv env msg s =
      Some ([Success ''Simulator initialized'', StateUpdate (snapshotState (env_now env) sim)], s\<lparr>srv_simulator := Some sim\<rparr>)"
proof -
  have u: "valid_utf8 (req_Algorithm req)" "list_all (\<lambda>p. valid_utf8 (in_Name p)) (req_Processes req)"
    using assms(3) by (auto simp: request_ok_def list_all_iff)
  have "read_message wc (render (init_value req)) env = Receive wc (json_init req) env"
    by (simp add: read_message_def ReadJSON_init [OF u assms(4,5)])
  moreover have "decodeJSON (encodeConfig (request_config req)) = Inr req"
    using decode_encodeConfig [of "request_config req"] assms(3,6) by simp
  ultimately show ?thesis using init_installs_request [OF assms(1,2,4,5)] by blast
qed

theorem websocket_init_equals_rest_witness:
  "\<exists>sim msg. read_message 1 (render (init_value demo_request)) \<lparr>env_now = 0, env_taken = False, env_pick = False\<rparr> =
      Receive 1 msg \<lparr>env_now = 0, env_taken = False, env_pick = False\<rparr> \<and>
    handleMessage (\<lambda>key. sort_key key) conv_arm64 \<lparr>env_now = 0, env_taken = False, env_pick = False\<rparr> msg (NewServer Default) =
    Some ([Success ''Simulator initialized'', StateUpdate (snapshotState 0 sim)], (NewServer Default)\<lparr>srv_simulator := Some sim\<rparr>)"
proof -
  have "exact (req_TimeQuantum demo_request)" "list_all exact_input (req_Processes demo_request)"
    by (simp_all add: demo_request_def exact_def exact_input_def)
  moreover have "request_ok demo_request" using decodeJSON_ok [OF demo_body_decodes] .
  moreover have "length (encodeConfig (request_config demo_request)) < 200" by code_simp
  then have "length (encodeConfig (request_config demo_request)) \<le> maxBody" by (simp add: maxBody_def)
  ultimately show ?thesis
    using websocket_init_equals_rest [OF arm64.float_conv_axioms demo_request_valid(1), of "\<lambda>key. sort_key key" 1
      "\<lparr>env_now = 0, env_taken = False, env_pick = False\<rparr>" "NewServer Default"] by auto
qed

end
