(* ===== verification/Spec2Isabelle.thy ===== *)
theory Spec2Isabelle
  imports Engine_Report Engine_Metrics Engine_Reset Engine_Policy Engine_Fairness Scheduler_Aging Control
    Server_Props Web_Shutdown Web_Json
begin

text \<open>
  A verification of the process scheduler simulator: a discrete-tick simulation of CPU scheduling
  with ten algorithms, served over HTTP and WebSocket.

  \<^bold>\<open>The program.\<close> \<^verbatim>\<open>internal/process\<close> holds the process control block and one slice of
  execution. \<^verbatim>\<open>internal/scheduler\<close> holds the algorithms behind the interface \<^verbatim>\<open>Scheduler\<close>.
  \<^verbatim>\<open>internal/simulator\<close> is the engine: each tick moves arrived processes and finished I/O to the
  ready queue, asks the scheduler whether to preempt and whom to run, executes one time unit,
  starts I/O bursts, checks the time quantum and advances the clock; it keeps the Gantt chart, the
  event log and the metrics. \<^verbatim>\<open>internal/store\<close> keeps the last completed simulations.
  \<^verbatim>\<open>internal/api\<close> and \<^verbatim>\<open>web\<close> drive the engine for clients, and \<^verbatim>\<open>internal/config\<close>,
  \<^verbatim>\<open>internal/middleware\<close>, \<^verbatim>\<open>internal/metrics\<close>, \<^verbatim>\<open>internal/logging\<close> and \<^verbatim>\<open>cmd/server\<close>
  are the server around them.

  \<^bold>\<open>The model.\<close> A Go \<^verbatim>\<open>int\<close> is an \<^typ>\<open>int\<close> that \<^term>\<open>i64\<close> brings back into 64 bits after each
  operation; \<^verbatim>\<open>uint64\<close> is a 64-bit word; \<^verbatim>\<open>float64\<close> is a rational that every operation rounds
  to 53 bits. A pointer to a process is an address into the heap of the simulator, so that two
  queues may hold the same object. A panic is \<^term>\<open>None\<close>. \<^verbatim>\<open>sort.Slice\<close> is an argument with the
  contract \<^verbatim>\<open>slice_sort\<close>; an injected random generator is an argument without any contract; the
  current time of day is an argument. The functions of \<^verbatim>\<open>strconv\<close>, \<^verbatim>\<open>strings\<close> and \<^verbatim>\<open>time\<close> that
  the server uses are defined on byte strings. A handler is a function from the request and
  the state of its component to the response and the new state; updates of the metrics and records
  for the logger are entries of logs. The body of a REST request and the text of a WebSocket message
  are bytes that are decoded as \<^verbatim>\<open>encoding/json\<close> does it. Where goroutines interleave, they do so between critical sections: in \<open>Control\<close> as
  labelled moves, in \<open>Api_Props\<close> as admissions and completions of requests, in \<open>Web_Lifecycle\<close> as
  steps of the connections, pingers, run loops, the broadcaster and the shutdown.

  \<^bold>\<open>The theories.\<close>
  \<^item> \<open>Go_Base\<close>: integers, panics, decimal rendering; \<open>Float64\<close>: rounding, with its monotonicity,
    exactness and error bound.
  \<^item> \<open>Process_Model\<close> (\<^verbatim>\<open>process.go\<close>): records, \<^verbatim>\<open>NewProcess\<close>, \<^verbatim>\<open>Clone\<close>, \<^verbatim>\<open>Execute\<close>,
    \<^verbatim>\<open>SetNice\<close>; the weights of all nice values.
  \<^item> \<open>Selection\<close>: the loop that all deterministic algorithms share, and that it finds the leftmost
    best entry. \<open>Scheduler_Model\<close> (\<^verbatim>\<open>scheduler.go\<close>): the ten schedulers and the dispatch of the
    interface. \<open>Scheduler_Props\<close>: selection refines each policy, the lottery is proportional, the
    generator stays in range; the locale \<open>scheduler_iface\<close> is the contract the engine relies on and
    \<open>replay_iface\<close> the part of it about \<^verbatim>\<open>Reset\<close>, both interpreted on the dispatch functions.
    \<open>Scheduler_Aging\<close>: aging and demotion.
  \<^item> \<open>Engine\<close> (\<^verbatim>\<open>simulator.go\<close>): the state and every method of the tick, \<^verbatim>\<open>Step\<close>, \<^verbatim>\<open>Stop\<close>,
    \<^verbatim>\<open>Reset\<close>. \<open>Engine_Inv\<close>, \<open>Engine_Frame\<close>, \<open>Engine_Tick\<close>: the structural invariant, what each part
    changes, and the two shapes of a tick. \<open>Engine_Run\<close>: the states that calls reach, as an
    inductive relation, and the locale \<open>engine_invariant\<close> that turns an invariant of single
    operations into one of all reachable states; the theories below interpret it.
  \<^item> \<open>Engine_Accounting\<close>, \<open>Engine_Gantt\<close>, \<open>Engine_Times\<close>, \<open>Engine_Metrics\<close>: conservation of time, the
    chart, the recorded times, snapshots and metrics. \<open>Engine_Progress\<close>: every run ends (locale
    \<open>terminating_loop\<close>). \<open>Engine_Policy\<close>, \<open>Engine_Quantum\<close>, \<open>Engine_Fairness\<close>: preemption by rank, time
    slices, non-preemptive schedulers, bounded waiting under round robin. \<open>Engine_Reset\<close>: what
    \<^verbatim>\<open>Reset\<close> restores.
  \<^item> \<open>Engine_Report\<close>: what a whole run leaves behind. \<open>Control\<close> (\<^verbatim>\<open>run\<close>, \<^verbatim>\<open>Start\<close>, \<^verbatim>\<open>Pause\<close>,
    \<^verbatim>\<open>Resume\<close>, \<^verbatim>\<open>Step\<close>, \<^verbatim>\<open>Stop\<close>, \<^verbatim>\<open>Reset\<close>): the goroutines with their ticker and channels; the
    invariants of the engine hold in every interleaving, a pause that is noticed can be undone, and
    three sequences of calls after which the run loop hangs or stalls.
  \<^item> \<open>History_Store\<close> (\<^verbatim>\<open>store.go\<close>): the bounded history and its specification, the locale
    \<open>bounded_history\<close>.
  \<^item> \<open>Go_Strings\<close>, \<open>Go_Duration\<close>: \<^verbatim>\<open>Atoi\<close>, \<^verbatim>\<open>Itoa\<close>, \<^verbatim>\<open>Split\<close>, \<^verbatim>\<open>TrimSpace\<close>, \<^verbatim>\<open>ToLower\<close>,
    \<^verbatim>\<open>ParseDuration\<close>. \<open>Config\<close> (\<^verbatim>\<open>config.go\<close>): the environment as configuration; what every
    configuration satisfies and when start-up accepts it. \<open>Logging\<close> (\<^verbatim>\<open>logging.go\<close>): level, format,
    contexts and request IDs. \<open>Metrics\<close> (\<^verbatim>\<open>metrics.go\<close>): the instruments and their updates.
  \<^item> \<open>Api\<close> (\<^verbatim>\<open>api.go\<close>): the REST handlers; \<open>Api_Props\<close>: which requests are accepted, that an accepted
    one runs to its end and can be fetched, the semaphore, the record IDs, the catalogue.
  \<^item> \<open>Go_Json\<close>: the grammar of \<^verbatim>\<open>encoding/json\<close> on bytes, with UTF-8, escapes, surrogates and the limit
    of nesting, and the rendering of values; parsing ends, gives valid UTF-8, and reads back what was
    rendered. \<open>Api_Json\<close>: \<^verbatim>\<open>decodeJSON\<close> with the rules for structs, slices that are reused and unknown
    fields, \<^verbatim>\<open>handleSimulate\<close> from the bytes of the body, and the rendering of a stored configuration.
    Its locales are \<open>decoder\<close> (what decoding keeps of the target) and \<open>codec\<close> (decoding undoes
    encoding), interpreted on the decoders of the request types; no body makes the handler panic, and
    a recorded configuration that is posted again repeats its simulation. \<open>Web_Json\<close>: \<^verbatim>\<open>ReadJSON\<close>
    into a map with doubles; the \<^verbatim>\<open>init\<close> message and the REST API agree on the same text.
  \<^item> \<open>Web_Server\<close> (\<^verbatim>\<open>web/server.go\<close>): the WebSocket messages, clients, broadcast queue and shutdown;
    the locale \<open>float_conv\<close> is what Go promises of \<^verbatim>\<open>int(f)\<close>, interpreted on the conversions of two
    platforms. \<open>Web_Props\<close>: no message panics, the limits hold on an abstract server whose
    operations are atomic, and the \<^verbatim>\<open>init\<close> message agrees with the REST API on decoded values.
    \<open>Web_Lifecycle\<close>: \<^verbatim>\<open>HandleWebSocket\<close>, the pinger, the broadcaster, the two halves of \<^verbatim>\<open>init\<close>
    and \<^verbatim>\<open>Shutdown\<close> as goroutines that interleave, a refinement of the abstract server, so that its
    invariants hold in every interleaving. \<open>Web_Shutdown\<close>: the shutdown ends and is safe when
    clients behave, and three runs in which it panics or hangs.
  \<^item> \<open>Middleware\<close> (\<^verbatim>\<open>middleware.go\<close>), \<open>Server_Main\<close> (\<^verbatim>\<open>main.go\<close>): the middleware as transformers of
    handlers that may panic, with the status writer, its \<^verbatim>\<open>Hijack\<close> and \<^verbatim>\<open>Flush\<close>, and the records of the
    logger; their stack, the start of the program and its end. \<open>Http_App\<close>: the locale \<open>http_app\<close>, the contract of what
    the stack wraps, interpreted on the endpoints that answer with JSON. \<open>Middleware_Props\<close>: security
    headers, request IDs, accounting in metrics and log, and rate limits. \<open>Router\<close> (\<^verbatim>\<open>api.Register\<close> and the routes of
    \<^verbatim>\<open>main\<close>): the patterns, how a request finds its route, and that the router keeps the contract.
    \<open>Server_Props\<close>: a simulation posted as bytes through the stack and fetched again; the three ends
    of a WebSocket handshake; when the program starts, and what its health probe tells.

  \<^bold>\<open>Bounds.\<close> The loop of \<^verbatim>\<open>run\<close> is \<^term>\<open>runTicks\<close> with the number of turns as fuel; the fuel
  that suffices is proved: the last arrival plus all CPU and I/O bursts. Ticks at the largest
  representable time are excluded, since the clock counts single ticks from 0.

  The loop that renders a request ID runs on the seven bytes of its buffer. Histories and
  interleavings are of any length; the 64-bit counter of record IDs and the clock are assumed not to
  be exhausted.

  \<^bold>\<open>Not modelled.\<close> Mutexes other than as critical sections, and when timers fire. Sockets: the
  WebSocket handshake, frames and deadlines (that an upgrade, a read or a write fails is a label of
  the model, and what a session does between its start and its end is related to the stack only as
  an argument). The bytes of the responses other than a stored configuration, which hold floats and
  times that the standard library renders. The records that handlers below the middleware log.
  Redirects of \<^verbatim>\<open>net/http\<close>'s router for paths that are not clean, escaped
  slashes in paths, and the static files. The internals of the Prometheus, \<^verbatim>\<open>slog\<close> and rate
  limiter libraries. Letters and spaces beyond ASCII in \<^verbatim>\<open>ToLower\<close> and \<^verbatim>\<open>TrimSpace\<close>. The listening
  socket. Of the methods of the schedulers that do nothing there is one definition for all, and
  accessors that only read a field under a lock have none.
\<close>

section \<open>A whole simulation\<close>

text \<open>
  C1: A simulation does what it was asked to: with any of the ten schedulers, a run that may take
  as many ticks as the last arrival plus all CPU and I/O bursts ends in the complete state; then
  the Gantt chart shows for every PID exactly the burst times of the processes with this PID, and
  the total time is the sum of all bursts and the idle time.
\<close>

theorem simulation_report:
  assumes "slice_sort sortSlice" "sched_ok sch" "\<forall>p\<in>set ps. fresh p \<and> ArrivalTime p \<le> lastArrival"
    and "0 \<le> lastArrival" "1 \<le> n" "lastArrival + (\<Sum>p\<leftarrow>ps. demand p) \<le> int n" "int n \<le> MaxInt64"
  shows "\<exists>s. runTicks n (snd (Start (Simulator_AddProcesses sortSlice ps (NewSimulator sch)))) = Some s \<and>
    sim_state s = SimStateComplete \<and>
    (\<forall>pid. pid \<noteq> -1 \<longrightarrow> gantt_time pid (ganttChart s) = (\<Sum>p\<leftarrow>ps. if PID p = pid then BurstTime p else 0)) \<and>
    currentTime s = (\<Sum>p\<leftarrow>ps. BurstTime p) + totalIdleTime s"
proof -
  let ?s = "Simulator_AddProcesses sortSlice ps (NewSimulator sch)"
  have "reachable sortSlice ?s"
    using AddProcesses_workload [OF assms(1) reachable.new [OF assms(2)]] assms(3) by simp
  then have r: "reachable sortSlice (snd (Start ?s))" by (rule reachable.start)
  have "snd (Start ?s) = ?s\<lparr>sim_state := SimStateRunning, speed := speed ?s\<rparr>"
    by (simp add: Start_def NewSimulator_def)
  from run_report [OF assms this r] show ?thesis by blast
qed

theorem simulation_report_witness:
  "\<exists>s. runTicks 6 (snd (Start (Simulator_AddProcesses (\<lambda>key. sort_key key)
         [NewProcess 1 ''a'' 0 2 0, NewProcess 2 ''b'' 1 3 0] (NewSimulator (CFS NewCFSScheduler))))) = Some s \<and>
       gantt_time 2 (ganttChart s) = 3"
proof -
  have "\<exists>s. runTicks 6 (snd (Start (Simulator_AddProcesses (\<lambda>key. sort_key key)
         [NewProcess 1 ''a'' 0 2 0, NewProcess 2 ''b'' 1 3 0] (NewSimulator (CFS NewCFSScheduler))))) = Some s \<and>
    sim_state s = SimStateComplete \<and>
    (\<forall>pid. pid \<noteq> -1 \<longrightarrow> gantt_time pid (ganttChart s) =
       (\<Sum>p\<leftarrow>[NewProcess 1 ''a'' 0 2 0, NewProcess 2 ''b'' 1 3 0]. if PID p = pid then BurstTime p else 0)) \<and>
    currentTime s = (\<Sum>p\<leftarrow>[NewProcess 1 ''a'' 0 2 0, NewProcess 2 ''b'' 1 3 0]. BurstTime p) + totalIdleTime s"
    by (rule simulation_report [where lastArrival = 1, OF stable.slice_sort_axioms constructors_ok(6)])
      (simp_all add: fresh_NewProcess demand_def NewProcess_def [of _ "''a''"] NewProcess_def [of _ "''b''"] fresh_def resetProcess_def)
  then obtain s where s: "runTicks 6 (snd (Start (Simulator_AddProcesses (\<lambda>key. sort_key key)
         [NewProcess 1 ''a'' 0 2 0, NewProcess 2 ''b'' 1 3 0] (NewSimulator (CFS NewCFSScheduler))))) = Some s"
      "\<forall>pid. pid \<noteq> -1 \<longrightarrow> gantt_time pid (ganttChart s) =
       (\<Sum>p\<leftarrow>[NewProcess 1 ''a'' 0 2 0, NewProcess 2 ''b'' 1 3 0]. if PID p = pid then BurstTime p else 0)"
    by blast
  have "gantt_time 2 (ganttChart s) = 3" using s(2) [rule_format, of 2] by (simp add: NewProcess_def)
  with s(1) show ?thesis by (intro exI [of _ s] conjI)
qed

end
